theory Spec2Isabelle
  imports Main
begin

section \<open>Strings and letters\<close>

text \<open>
  JavaScript strings are sequences of UTF-16 code units.  Every letter the library
  looks at lies in the Basic Multilingual Plane, so a string is a list of code units,
  each a natural number.  The Cyrillic letters used by the rule tables get names.
\<close>

type_synonym ustring = "nat list"

abbreviation c_a :: nat where "c_a \<equiv> 1072"
abbreviation c_b :: nat where "c_b \<equiv> 1073"
abbreviation c_v :: nat where "c_v \<equiv> 1074"
abbreviation c_g :: nat where "c_g \<equiv> 1075"
abbreviation c_d :: nat where "c_d \<equiv> 1076"
abbreviation c_e :: nat where "c_e \<equiv> 1077"
abbreviation c_zh :: nat where "c_zh \<equiv> 1078"
abbreviation c_z :: nat where "c_z \<equiv> 1079"
abbreviation c_i :: nat where "c_i \<equiv> 1080"
abbreviation c_j :: nat where "c_j \<equiv> 1081"
abbreviation c_k :: nat where "c_k \<equiv> 1082"
abbreviation c_l :: nat where "c_l \<equiv> 1083"
abbreviation c_m :: nat where "c_m \<equiv> 1084"
abbreviation c_n :: nat where "c_n \<equiv> 1085"
abbreviation c_o :: nat where "c_o \<equiv> 1086"
abbreviation c_p :: nat where "c_p \<equiv> 1087"
abbreviation c_r :: nat where "c_r \<equiv> 1088"
abbreviation c_s :: nat where "c_s \<equiv> 1089"
abbreviation c_t :: nat where "c_t \<equiv> 1090"
abbreviation c_u :: nat where "c_u \<equiv> 1091"
abbreviation c_f :: nat where "c_f \<equiv> 1092"
abbreviation c_h :: nat where "c_h \<equiv> 1093"
abbreviation c_c :: nat where "c_c \<equiv> 1094"
abbreviation c_ch :: nat where "c_ch \<equiv> 1095"
abbreviation c_sh :: nat where "c_sh \<equiv> 1096"
abbreviation c_sch :: nat where "c_sch \<equiv> 1097"
abbreviation c_hard :: nat where "c_hard \<equiv> 1098"
abbreviation c_y :: nat where "c_y \<equiv> 1099"
abbreviation c_soft :: nat where "c_soft \<equiv> 1100"
abbreviation c_eh :: nat where "c_eh \<equiv> 1101"
abbreviation c_yu :: nat where "c_yu \<equiv> 1102"
abbreviation c_ya :: nat where "c_ya \<equiv> 1103"
abbreviation c_yo :: nat where "c_yo \<equiv> 1105"
abbreviation c_ye :: nat where "c_ye \<equiv> 1108"
abbreviation c_ii :: nat where "c_ii \<equiv> 1110"
abbreviation c_yi :: nat where "c_yi \<equiv> 1111"
abbreviation C_A :: nat where "C_A \<equiv> 1040"
abbreviation C_G :: nat where "C_G \<equiv> 1043"
abbreviation C_D :: nat where "C_D \<equiv> 1044"
abbreviation C_S :: nat where "C_S \<equiv> 1057"
abbreviation C_L :: nat where "C_L \<equiv> 1051"
abbreviation C_M :: nat where "C_M \<equiv> 1052"
abbreviation C_O :: nat where "C_O \<equiv> 1054"
abbreviation C_P :: nat where "C_P \<equiv> 1055"
abbreviation C_I :: nat where "C_I \<equiv> 1048"
abbreviation C_T :: nat where "C_T \<equiv> 1058"
abbreviation C_II :: nat where "C_II \<equiv> 1030"
abbreviation c_apostrophe :: nat where "c_apostrophe \<equiv> 8217"
abbreviation c_hyphen :: nat where "c_hyphen \<equiv> 45"
abbreviation c_space :: nat where "c_space \<equiv> 32"

text \<open>
  Modelled from the spec: the text helpers of \<^verbatim>\<open>NCLStr\<close> (\<^verbatim>\<open>strtolower\<close>,
  \<^verbatim>\<open>strtoupper\<close>, \<^verbatim>\<open>isLowerCase\<close>, \<^verbatim>\<open>splitLetters\<close>, \<^verbatim>\<open>strlen\<close>, \<^verbatim>\<open>substr\<close>,
  \<^verbatim>\<open>strrpos\<close>) are not among the sources; the specification calls them Unicode-safe
  substring, case-fold and letter-enumeration helpers.  Case folding is modelled on the
  two alphabets the library handles, Basic Latin and Cyrillic (U+0400 to U+045F and the
  pair U+0490/U+0491); every other code unit is its own upper and lower case.
\<close>

definition lower_char :: "nat \<Rightarrow> nat" where
  "lower_char c =
     (if 65 \<le> c \<and> c \<le> 90 then c + 32
      else if 1040 \<le> c \<and> c \<le> 1071 then c + 32
      else if 1024 \<le> c \<and> c \<le> 1039 then c + 80
      else if c = 1168 then 1169
      else c)"

definition upper_char :: "nat \<Rightarrow> nat" where
  "upper_char c =
     (if 97 \<le> c \<and> c \<le> 122 then c - 32
      else if 1072 \<le> c \<and> c \<le> 1103 then c - 32
      else if 1104 \<le> c \<and> c \<le> 1119 then c - 80
      else if c = 1169 then 1168
      else c)"

definition strtolower :: "ustring \<Rightarrow> ustring" where
  "strtolower s = map lower_char s"

definition strtoupper :: "ustring \<Rightarrow> ustring" where
  "strtoupper s = map upper_char s"

definition isLowerCase :: "ustring \<Rightarrow> bool" where
  "isLowerCase s \<longleftrightarrow> strtolower s = s"

definition splitLetters :: "ustring \<Rightarrow> ustring list" where
  "splitLetters s = map (\<lambda>c. [c]) s"

definition strlen :: "ustring \<Rightarrow> nat" where
  "strlen s = length s"

text \<open>
  \<^verbatim>\<open>substr(s, start, len)\<close>: a negative start counts from the end (and stops at the
  beginning), a negative length leaves that many letters off the end, and a range that
  is empty or outside the string gives the empty string.
\<close>

definition substr :: "ustring \<Rightarrow> int \<Rightarrow> int \<Rightarrow> ustring" where
  "substr s start len =
     (let n = int (length s);
          st = (if start < 0 then max (n + start) 0 else min start n);
          en = (if len < 0 then n + len else min (st + len) n)
      in if en \<le> st then [] else take (nat (en - st)) (drop (nat st) s))"

text \<open>
  The built-in \<^verbatim>\<open>String.prototype.slice(start, end)\<close>; \<open>None\<close> stands for an
  \<^verbatim>\<open>undefined\<close> end.
\<close>

definition js_slice :: "ustring \<Rightarrow> int \<Rightarrow> int option \<Rightarrow> ustring" where
  "js_slice s start end =
     (let n = int (length s);
          from = (if start < 0 then max (n + start) 0 else min start n);
          to = (case end of None \<Rightarrow> n
                | Some e \<Rightarrow> if e < 0 then max (n + e) 0 else min e n)
      in take (nat (to - from)) (drop (nat from) s))"

text \<open>\<^verbatim>\<open>String.prototype.split\<close> with a one-letter separator.\<close>

fun js_split :: "nat \<Rightarrow> ustring \<Rightarrow> ustring list" where
  "js_split sep [] = [[]]"
| "js_split sep (c # cs) =
     (if c = sep then [] # js_split sep cs
      else (case js_split sep cs of
              [] \<Rightarrow> [[c]]
            | p # ps \<Rightarrow> (c # p) # ps))"

text \<open>\<^verbatim>\<open>String.prototype.includes\<close>: does the needle occur as a contiguous part.\<close>

fun js_includes :: "ustring \<Rightarrow> ustring \<Rightarrow> bool" where
  "js_includes [] needle = (needle = [])"
| "js_includes (c # cs) needle =
     (take (length needle) (c # cs) = needle \<or> js_includes cs needle)"

text \<open>\<^verbatim>\<open>Array.prototype.join\<close> over strings.\<close>

fun js_join :: "ustring \<Rightarrow> ustring list \<Rightarrow> ustring" where
  "js_join sep [] = []"
| "js_join sep [x] = x"
| "js_join sep (x # y # ys) = x @ sep @ js_join sep (y # ys)"


section \<open>NCL: constants and the class registry\<close>

definition MAN :: int where "MAN = 1"
definition WOMAN :: int where "WOMAN = 2"

datatype error =
    ContractViolation  \<comment> \<open>\<^verbatim>\<open>word should be of class NCLNameCaseWord\<close>\<close>
  | MethodNotFound     \<comment> \<open>\<^verbatim>\<open>Method ... not found\<close>\<close>
  | ReferenceError     \<comment> \<open>an identifier that is bound nowhere\<close>
  | TypeError          \<comment> \<open>calling or indexing \<^verbatim>\<open>null\<close> or \<^verbatim>\<open>undefined\<close>\<close>

datatype part = N | S | F


section \<open>NCLNameCaseWord\<close>

text \<open>
  One record per token.  The two likelihood rates are JavaScript numbers; the record is
  polymorphic in their type, and the engine below uses nothing of it but zero, addition
  and comparison.
\<close>

record 's NCLNameCaseWord =
  word :: ustring
  word_orig :: ustring
  namePart :: "part option"
  genderMan :: 's
  genderWoman :: 's
  genderSolved :: int
  letterMask :: "nat list"
  isUpperCase :: bool
  NameCases :: "ustring list"
  rule :: int

abbreviation mask_x :: nat where "mask_x \<equiv> 120"
abbreviation mask_X :: nat where "mask_X \<equiv> 88"

text \<open>\<^verbatim>\<open>generateMask\<close>: the loop over the letters, returning the mask and the flag.\<close>

fun generateMask_loop :: "ustring list \<Rightarrow> nat list \<Rightarrow> bool \<Rightarrow> nat list \<times> bool" where
  "generateMask_loop [] msk up = (msk, up)"
| "generateMask_loop (letter # letters) msk up =
     (if isLowerCase letter then generateMask_loop letters (msk @ [mask_x]) False
      else generateMask_loop letters (msk @ [mask_X]) up)"

definition generateMask :: "ustring \<Rightarrow> 's NCLNameCaseWord \<Rightarrow> 's NCLNameCaseWord" where
  "generateMask w this =
     (let (msk, up) = generateMask_loop (splitLetters w) [] True
      in this\<lparr>letterMask := msk, isUpperCase := up\<rparr>)"

definition new_NCLNameCaseWord :: "ustring \<Rightarrow> ('s::zero) NCLNameCaseWord" where
  "new_NCLNameCaseWord w =
     (generateMask w
        \<lparr>word = [], word_orig = w, namePart = None, genderMan = 0, genderWoman = 0,
         genderSolved = 0, letterMask = [], isUpperCase = False, NameCases = [],
         rule = 0\<rparr>)
     \<lparr>word := strtolower w\<rparr>"

text \<open>\<^verbatim>\<open>returnMask\<close>: the inner loop over the letters of one case form.\<close>

function returnMask_letters :: "ustring \<Rightarrow> nat list \<Rightarrow> nat \<Rightarrow> nat \<Rightarrow> ustring \<Rightarrow> ustring" where
  "returnMask_letters kase splitedMask letterIndex mx acc =
     (if letterIndex < mx then
        (let letter = substr kase (int letterIndex) 1;
             letter' = (if splitedMask ! letterIndex = mask_X then strtoupper letter else letter)
         in returnMask_letters kase splitedMask (Suc letterIndex) mx (acc @ letter'))
      else acc)"
  by pat_completeness auto
termination
  by (relation "measure (\<lambda>(kase, splitedMask, letterIndex, mx, acc). mx - letterIndex)") auto

declare returnMask_letters.simps [simp del]

definition returnMask_case :: "nat list \<Rightarrow> ustring \<Rightarrow> ustring" where
  "returnMask_case splitedMask kase =
     (let maskLength = length splitedMask;
          caseLength = strlen kase;
          mx = min caseLength maskLength
      in returnMask_letters kase splitedMask 0 mx []
         @ substr kase (int mx) (int caseLength - int maskLength))"

definition returnMask :: "'s NCLNameCaseWord \<Rightarrow> 's NCLNameCaseWord" where
  "returnMask this =
     (if isUpperCase this then this\<lparr>NameCases := map strtoupper (NameCases this)\<rparr>
      else this\<lparr>NameCases := map (returnMask_case (letterMask this)) (NameCases this)\<rparr>)"

definition setNameCases :: "ustring list \<Rightarrow> bool \<Rightarrow> 's NCLNameCaseWord \<Rightarrow> 's NCLNameCaseWord" where
  "setNameCases nameCases is_return_mask this =
     (let this1 = this\<lparr>NameCases := nameCases\<rparr>
      in if is_return_mask then returnMask this1 else this1)"


definition word_gender :: "('s::ord) NCLNameCaseWord \<Rightarrow> int \<times> 's NCLNameCaseWord" where
  \<comment> \<open>\<^verbatim>\<open>gender()\<close>: answers the final gender, fixing it first when it is still open\<close>
  "word_gender this =
     (if genderSolved this = 0 then
        (if genderWoman this \<le> genderMan this
         then (MAN, this\<lparr>genderSolved := MAN\<rparr>)
         else (WOMAN, this\<lparr>genderSolved := WOMAN\<rparr>))
      else (genderSolved this, this))"

definition word_setGender :: "'s \<Rightarrow> 's \<Rightarrow> 's NCLNameCaseWord \<Rightarrow> 's NCLNameCaseWord" where
  "word_setGender m f this = this\<lparr>genderMan := m, genderWoman := f\<rparr>"

definition setTrueGender :: "int \<Rightarrow> 's NCLNameCaseWord \<Rightarrow> 's NCLNameCaseWord" where
  "setTrueGender g this = this\<lparr>genderSolved := g\<rparr>"

definition getGender :: "'s NCLNameCaseWord \<Rightarrow> 's \<times> 's" where
  \<comment> \<open>the object \<^verbatim>\<open>{[NCL.MAN]: genderMan, [NCL.WOMAN]: genderWoman}\<close> as a pair\<close>
  "getGender this = (genderMan this, genderWoman this)"

definition setNamePart :: "part \<Rightarrow> 's NCLNameCaseWord \<Rightarrow> 's NCLNameCaseWord" where
  "setNamePart p this = this\<lparr>namePart := Some p\<rparr>"

definition getNamePart :: "'s NCLNameCaseWord \<Rightarrow> part option" where
  "getNamePart this = namePart this"

definition getWord :: "'s NCLNameCaseWord \<Rightarrow> ustring" where
  "getWord this = word this"

definition getWordOrig :: "'s NCLNameCaseWord \<Rightarrow> ustring" where
  "getWordOrig this = word_orig this"

definition getNameCases :: "'s NCLNameCaseWord \<Rightarrow> ustring list" where
  "getNameCases this = NameCases this"

definition isGenderSolved :: "'s NCLNameCaseWord \<Rightarrow> bool" where
  "isGenderSolved this \<longleftrightarrow> genderSolved this \<noteq> 0"

definition setRule :: "int \<Rightarrow> 's NCLNameCaseWord \<Rightarrow> 's NCLNameCaseWord" where
  "setRule ruleID this = this\<lparr>rule := ruleID\<rparr>"


section \<open>NCLNameCaseCore: the working state of the rules\<close>

text \<open>
  The rule methods of a language class read and write four fields of the engine:
  \<^verbatim>\<open>CaseCount\<close>, \<^verbatim>\<open>workingWord\<close>, \<^verbatim>\<open>lastRule\<close> and \<^verbatim>\<open>lastResult\<close>.  They are
  grouped in one record, which the engine record below holds as a field.  The memo table
  \<^verbatim>\<open>workingLastCache\<close> of \<^verbatim>\<open>Last\<close> is emptied whenever the working word is set and
  only ever stores slices of the current working word, so \<^verbatim>\<open>Last\<close> is modelled
  without it.
\<close>

record work =
  CaseCount :: nat
  workingWord :: ustring
  lastRule :: int
  lastResult :: "ustring list"

definition reset :: "work \<Rightarrow> work" where
  "reset this = this\<lparr>lastRule := 0, lastResult := []\<rparr>"

definition Rule :: "int \<Rightarrow> work \<Rightarrow> work" where
  "Rule idx this = this\<lparr>lastRule := idx\<rparr>"

definition setWorkingWord :: "ustring \<Rightarrow> work \<Rightarrow> work" where
  "setWorkingWord w this = (reset this)\<lparr>workingWord := w\<rparr>"

definition makeResultTheSame :: "work \<Rightarrow> work" where
  "makeResultTheSame this = this\<lparr>lastResult := replicate (CaseCount this) (workingWord this)\<rparr>"

definition Last :: "work \<Rightarrow> int \<Rightarrow> int \<Rightarrow> ustring" where
  "Last this len stopAfter =
     (let cut = (if stopAfter > 0
                 then Some (int (length (workingWord this)) - len + stopAfter)
                 else None)
      in js_slice (workingWord this) (- len) cut)"

text \<open>
  The built-in \<^verbatim>\<open>String.prototype.toLowerCase\<close> folds every cased letter of Unicode.
  The model folds the letters of Basic Latin and of Cyrillic (U+0400 to U+045F and the
  pair U+0490/U+0491), where it agrees with the built-in, and leaves every other code
  unit as it is; the code compares the result with fixed Cyrillic words only.
\<close>

definition toLowerCase :: "ustring \<Rightarrow> ustring" where
  "toLowerCase s = map lower_char s"

text \<open>
  \<^verbatim>\<open>in(letter, string)\<close> is \<^verbatim>\<open>letter && string.includes(letter)\<close>; the second argument
  is a string in some calls and an array of strings in others.
\<close>

definition in_str :: "ustring \<Rightarrow> ustring \<Rightarrow> bool" where
  "in_str letter s \<longleftrightarrow> letter \<noteq> [] \<and> js_includes s letter"

definition in_list :: "ustring \<Rightarrow> ustring list \<Rightarrow> bool" where
  "in_list letter arr \<longleftrightarrow> letter \<noteq> [] \<and> letter \<in> set arr"

fun inNames :: "ustring \<Rightarrow> ustring list \<Rightarrow> bool" where
  "inNames nameNeedle [] = False"
| "inNames nameNeedle (name # names) =
     (if toLowerCase nameNeedle = toLowerCase name then True else inNames nameNeedle names)"

definition js_undefined :: ustring where
  \<comment> \<open>the text \<^verbatim>\<open>undefined\<close>, which string concatenation makes of a missing value\<close>
  "js_undefined = [117, 110, 100, 101, 102, 105, 110, 101, 100]"

definition ending_at :: "ustring list \<Rightarrow> nat \<Rightarrow> ustring" where
  "ending_at endings i = (if i < length endings then endings ! i else js_undefined)"

definition wordForms :: "ustring \<Rightarrow> ustring list \<Rightarrow> nat \<Rightarrow> work \<Rightarrow> work" where
  "wordForms word0 endings replaceLast this =
     (let stem = take (length word0 - replaceLast) word0
      in this\<lparr>lastResult :=
           workingWord this
           # map (\<lambda>padegIndex. stem @ ending_at endings (padegIndex - 1))
               [1..<CaseCount this]\<rparr>)"

datatype gname = man | woman

type_synonym rulefn = "work \<Rightarrow> error + bool \<times> work"

text \<open>
  \<^verbatim>\<open>RulesChain\<close>: the rule methods \<^verbatim>\<open>manRule1\<close>, \<^verbatim>\<open>womanRule2\<close>, ... of a language
  class are looked up by name; the table argument gives the method of a gender and a
  rule number, or \<open>None\<close> when the class has no such method.
\<close>

fun RulesChain :: "(gname \<Rightarrow> int \<Rightarrow> rulefn option) \<Rightarrow> gname \<Rightarrow> int list \<Rightarrow> rulefn" where
  "RulesChain tab g [] this = Inr (False, this)"
| "RulesChain tab g (ruleID # rulesArray) this =
     (case tab g ruleID of
        None \<Rightarrow> Inl MethodNotFound
      | Some ruleMethod \<Rightarrow>
          (case ruleMethod this of
             Inl err \<Rightarrow> Inl err
           | Inr (ok, this') \<Rightarrow>
               if ok then Inr (True, this') else RulesChain tab g rulesArray this'))"

definition pure_rule :: "(work \<Rightarrow> bool \<times> work) \<Rightarrow> rulefn" where
  "pure_rule r this = Inr (r this)"


section \<open>Language classes\<close>

text \<open>
  A language class overrides the six declension methods (\<^verbatim>\<open>manFirstName\<close> ...
  \<^verbatim>\<open>womanFatherName\<close>) and \<^verbatim>\<open>GenderByFatherName\<close>; these work on letters and whole
  numbers only and are translated in full for both classes.  The remaining overrides,
  \<^verbatim>\<open>GenderByFirstName\<close>, \<^verbatim>\<open>GenderBySecondName\<close> and \<^verbatim>\<open>detectNamePart\<close>, add up
  decimal weights in JavaScript floating-point numbers; they are kept as parameters, a
  second record.  Both classes begin each of the four hooks with
  \<^verbatim>\<open>this.setWorkingWord(word.getWord())\<close>, which the engine functions below perform at
  the place of the call; the hook itself is what follows, read off the working state:
  the rates it passes to \<^verbatim>\<open>word.setGender\<close> (\<open>None\<close> when it does not call it), or the
  part it passes to \<^verbatim>\<open>word.setNamePart\<close>.  The constructor of a class sets
  \<^verbatim>\<open>CaseCount\<close>.
\<close>

record 's lang =
  classCaseCount :: nat
  nameMethod :: "gname \<Rightarrow> part \<Rightarrow> rulefn"
  GenderByFatherName :: "work \<Rightarrow> ('s \<times> 's) option"

record 's heuristics =
  GenderByFirstName :: "work \<Rightarrow> ('s \<times> 's) option"
  GenderBySecondName :: "work \<Rightarrow> ('s \<times> 's) option"
  detectNamePart :: "work \<Rightarrow> part option"

definition new_work :: "'s lang \<Rightarrow> work" where
  \<comment> \<open>the working fields of a freshly constructed engine of the class\<close>
  "new_work L = \<lparr>CaseCount = classCaseCount L, workingWord = [], lastRule = 0, lastResult = []\<rparr>"

text \<open>
  The hooks as \<^verbatim>\<open>NCLNameCaseCore\<close> itself defines them: they check the class of
  their argument and do nothing else.
\<close>

definition core_heuristics :: "'s heuristics" where
  "core_heuristics =
     \<lparr>GenderByFirstName = (\<lambda>w. None), GenderBySecondName = (\<lambda>w. None),
      detectNamePart = (\<lambda>w. None)\<rparr>"

text \<open>
  \<^verbatim>\<open>NCL._concreteClasses\<close>: unset, or an object from language codes to classes.
\<close>

type_synonym 's registry = "(string \<Rightarrow> ('s lang \<times> 's heuristics) option) option"

definition getConcreteClass :: "'s registry \<Rightarrow> string \<Rightarrow> ('s lang \<times> 's heuristics) option" where
  "getConcreteClass concreteClasses lng =
     (case concreteClasses of
        None \<Rightarrow> None
      | Some classes \<Rightarrow> classes lng)"

definition setConcreteClasses ::
  "(string \<Rightarrow> ('s lang \<times> 's heuristics) option) \<Rightarrow> 's registry" where
  "setConcreteClasses concreteClasses = Some concreteClasses"


section \<open>NCLNameCaseRu: the declension rules\<close>

definition ru_vowels :: ustring where
  "ru_vowels = [c_a, c_e, c_yo, c_i, c_o, c_u, c_y, c_eh, c_yu, c_ya]"

definition ru_consonant :: ustring where
  "ru_consonant = [c_b, c_v, c_g, c_d, c_zh, c_z, c_j, c_k, c_l, c_m, c_n, c_p, c_r, c_s, c_t, c_f, c_h, c_c, c_ch, c_sh, c_sch]"

definition ru_ovo :: "ustring list" where
  "ru_ovo = [[c_o, c_v, c_o], [c_a, c_g, c_o], [c_ya, c_g, c_o], [c_i, c_r, c_soft]]"

definition ru_ih :: "ustring list" where
  "ru_ih = [[c_i, c_h], [c_y, c_h], [c_k, c_o], [c_u, c_a]]"

definition ru_manRule1 :: "work \<Rightarrow> bool \<times> work" where
  "ru_manRule1 this =
     (if in_str (Last this 1 0) [c_soft, c_j] then
        (if inNames (workingWord this) [[C_D, c_e, c_l, c_soft]] then
           (True, makeResultTheSame (Rule 101 this))
         else if Last this 2 1 \<noteq> [c_i] then
           (True, Rule 102 (wordForms (workingWord this) [[c_ya], [c_yu], [c_ya], [c_e, c_m], [c_e]] 1 this))
         else
           (True, Rule 103 (wordForms (workingWord this) [[c_ya], [c_yu], [c_ya], [c_e, c_m], [c_i]] 1 this)))
      else (False, this))"

definition ru_manRule2 :: "work \<Rightarrow> bool \<times> work" where
  "ru_manRule2 this =
     (if in_str (Last this 1 0) ru_consonant then
        (if inNames (workingWord this) [[C_P, c_a, c_v, c_e, c_l]] then
           (True, Rule 201 (this\<lparr>lastResult := [[C_P, c_a, c_v, c_e, c_l], [C_P, c_a, c_v, c_l, c_a], [C_P, c_a, c_v, c_l, c_u], [C_P, c_a, c_v, c_l, c_a], [C_P, c_a, c_v, c_l, c_o, c_m], [C_P, c_a, c_v, c_l, c_e]]\<rparr>))
         else if inNames (workingWord this) [[C_L, c_e, c_v]] then
           (True, Rule 202 (this\<lparr>lastResult := [[C_L, c_e, c_v], [C_L, c_soft, c_v, c_a], [C_L, c_soft, c_v, c_u], [C_L, c_soft, c_v, c_a], [C_L, c_soft, c_v, c_o, c_m], [C_L, c_soft, c_v, c_e]]\<rparr>))
         else if inNames (workingWord this) [[c_v, c_a, c_n]] then
           (True, makeResultTheSame (Rule 203 this))
         else
           (True, Rule 204 (wordForms (workingWord this) [[c_a], [c_u], [c_a], [c_o, c_m], [c_e]] 0 this)))
      else (False, this))"

definition ru_manRule3 :: "work \<Rightarrow> bool \<times> work" where
  "ru_manRule3 this =
     (if Last this 1 0 = [c_a] then
        (if inNames (workingWord this) [[c_f, c_r, c_a], [C_D, c_e, c_g, c_a], [C_A, c_n, c_d, c_r, c_e, c_a], [C_S, c_yo, c_r, c_a], [C_S, c_e, c_r, c_a]] then
           (True, makeResultTheSame (Rule 301 this))
         else if \<not> in_str (Last this 2 1) [c_k, c_sh, c_g, c_h] then
           (True, Rule 302 (wordForms (workingWord this) [[c_y], [c_e], [c_u], [c_o, c_j], [c_e]] 1 this))
         else
           (True, Rule 303 (wordForms (workingWord this) [[c_i], [c_e], [c_u], [c_o, c_j], [c_e]] 1 this)))
      else if Last this 1 0 = [c_ya] then
        (True, Rule 303 (wordForms (workingWord this) [[c_i], [c_e], [c_yu], [c_e, c_j], [c_e]] 1 this))
      else (False, this))"

definition ru_manRule4 :: "work \<Rightarrow> bool \<times> work" where
  "ru_manRule4 this =
     (if in_str (Last this 1 0) [c_soft, c_j] then
        (if Last this 3 0 = [c_b, c_e, c_j] then
           (True, Rule 400 (wordForms (workingWord this) [[c_soft, c_ya], [c_soft, c_yu], [c_soft, c_ya], [c_soft, c_e, c_m], [c_soft, c_e]] 2 this))
         else if Last this 3 1 = [c_a] \<or> in_str (Last this 2 1) [c_e, c_l] then
           (True, Rule 401 (wordForms (workingWord this) [[c_ya], [c_yu], [c_ya], [c_e, c_m], [c_e]] 1 this))
         else if Last this 2 1 = [c_y] \<or> Last this 3 1 = [c_t] then
           (True, Rule 402 (wordForms (workingWord this) [[c_o, c_g, c_o], [c_o, c_m, c_u], [c_o, c_g, c_o], [c_y, c_m], [c_o, c_m]] 2 this))
         else if Last this 3 0 = [c_ch, c_i, c_j] then
           (True, Rule 403 (wordForms (workingWord this) [[c_soft, c_e, c_g, c_o], [c_soft, c_e, c_m, c_u], [c_soft, c_e, c_g, c_o], [c_soft, c_i, c_m], [c_soft, c_e, c_m]] 2 this))
         else if \<not> in_str (Last this 2 1) ru_vowels \<or> Last this 2 1 = [c_i] then
           (True, Rule 404 (wordForms (workingWord this) [[c_o, c_g, c_o], [c_o, c_m, c_u], [c_o, c_g, c_o], [c_i, c_m], [c_o, c_m]] 2 this))
         else
           (True, Rule 405 (makeResultTheSame this)))
      else (False, this))"

text \<open>
  \<^verbatim>\<open>manRule5\<close> calls \<^verbatim>\<open>in_array\<close>, an identifier that the module neither defines
  nor imports: evaluating the call raises a \<^verbatim>\<open>ReferenceError\<close>.  The call is the
  right operand of \<^verbatim>\<open>&&\<close>, so it is reached exactly when the letter before the last
  is \<^verbatim>\<open>e\<close> (Cyrillic).
\<close>

definition ru_manRule5 :: rulefn where
  "ru_manRule5 this =
     (if Last this 1 0 = [c_k] then
        (if Last this 4 0 = [c_e, c_n, c_o, c_k] \<or> Last this 4 0 = [c_yo, c_n, c_o, c_k] then
           Inr (True, Rule 501 (wordForms (workingWord this) [[c_k, c_a], [c_k, c_u], [c_k, c_a], [c_k, c_o, c_m], [c_k, c_e]] 2 this))
         else if Last this 2 1 = [c_e] then
           Inl ReferenceError
         else
           Inr (True, Rule 503 (wordForms (workingWord this) [[c_a], [c_u], [c_a], [c_o, c_m], [c_e]] 0 this)))
      else Inr (False, this))"

definition ru_manRule6 :: "work \<Rightarrow> bool \<times> work" where
  "ru_manRule6 this =
     (if Last this 1 0 = [c_ch] then
        (True, Rule 601 (wordForms (workingWord this) [[c_a], [c_u], [c_a], [c_e, c_m], [c_e]] 0 this))
      else if Last this 2 0 = [c_e, c_c] then
        (True, Rule 604 (wordForms (workingWord this) [[c_c, c_a], [c_c, c_u], [c_c, c_a], [c_c, c_o, c_m], [c_c, c_e]] 2 this))
      else if in_str (Last this 1 0) [c_c, c_s, c_r, c_sh, c_m, c_h, c_t] then
        (True, Rule 602 (wordForms (workingWord this) [[c_a], [c_u], [c_a], [c_o, c_m], [c_e]] 0 this))
      else if in_str (Last this 1 0) ru_consonant then
        (True, Rule 603 (wordForms (workingWord this) [[c_a], [c_u], [c_a], [c_y, c_m], [c_e]] 0 this))
      else (False, this))"

definition ru_manRule7 :: "work \<Rightarrow> bool \<times> work" where
  "ru_manRule7 this =
     (if Last this 1 0 = [c_a] then
        (if inNames (workingWord this) [[c_d, c_a]] then
           (True, makeResultTheSame (Rule 701 this))
         else if Last this 2 1 = [c_sh] then
           (True, Rule 702 (wordForms (workingWord this) [[c_i], [c_e], [c_u], [c_e, c_j], [c_e]] 1 this))
         else if in_str (Last this 2 1) [c_h, c_k, c_g] then
           (True, Rule 703 (wordForms (workingWord this) [[c_i], [c_e], [c_u], [c_o, c_j], [c_e]] 1 this))
         else
           (True, Rule 704 (wordForms (workingWord this) [[c_y], [c_e], [c_u], [c_o, c_j], [c_e]] 1 this)))
      else if Last this 1 0 = [c_ya] then
        (True, Rule 705 (wordForms (workingWord this) [[c_o, c_j], [c_o, c_j], [c_u, c_yu], [c_o, c_j], [c_o, c_j]] 2 this))
      else (False, this))"

definition ru_manRule8 :: "work \<Rightarrow> bool \<times> work" where
  "ru_manRule8 this =
     (if in_list (Last this 3 0) ru_ovo \<or> in_list (Last this 2 0) ru_ih then
        (if inNames (workingWord this) [[c_r, c_e, c_r, c_i, c_h]] then (False, this)
         else (True, makeResultTheSame (Rule 8 this)))
      else (False, this))"

definition ru_womanRule1 :: "work \<Rightarrow> bool \<times> work" where
  "ru_womanRule1 this =
     (if Last this 1 0 = [c_a] \<and> Last this 2 1 \<noteq> [c_i] then
        (if \<not> in_str (Last this 2 1) [c_sh, c_h, c_k, c_g] then
           (True, Rule 101 (wordForms (workingWord this) [[c_y], [c_e], [c_u], [c_o, c_j], [c_e]] 1 this))
         else if Last this 2 1 = [c_sh] then
           (True, Rule 102 (wordForms (workingWord this) [[c_i], [c_e], [c_u], [c_e, c_j], [c_e]] 1 this))
         else
           (True, Rule 103 (wordForms (workingWord this) [[c_i], [c_e], [c_u], [c_o, c_j], [c_e]] 1 this)))
      else (False, this))"

definition ru_womanRule2 :: "work \<Rightarrow> bool \<times> work" where
  "ru_womanRule2 this =
     (if Last this 1 0 = [c_ya] then
        (if Last this 2 1 \<noteq> [c_i] then
           (True, Rule 201 (wordForms (workingWord this) [[c_i], [c_e], [c_yu], [c_e, c_j], [c_e]] 1 this))
         else
           (True, Rule 202 (wordForms (workingWord this) [[c_i], [c_i], [c_yu], [c_e, c_j], [c_i]] 1 this)))
      else (False, this))"

definition ru_womanRule3 :: "work \<Rightarrow> bool \<times> work" where
  "ru_womanRule3 this =
     (if Last this 1 0 = [c_soft] then
        (True, Rule 3 (wordForms (workingWord this) [[c_i], [c_i], [c_soft], [c_soft, c_yu], [c_i]] 1 this))
      else (False, this))"

definition ru_womanRule4 :: "work \<Rightarrow> bool \<times> work" where
  "ru_womanRule4 this =
     (if Last this 1 0 = [c_a] then
        (if in_str (Last this 2 1) [c_g, c_k] then
           (True, Rule 401 (wordForms (workingWord this) [[c_i], [c_e], [c_u], [c_o, c_j], [c_e]] 1 this))
         else if in_str (Last this 2 1) [c_sh] then
           (True, Rule 402 (wordForms (workingWord this) [[c_i], [c_e], [c_u], [c_e, c_j], [c_e]] 1 this))
         else
           (True, Rule 403 (wordForms (workingWord this) [[c_o, c_j], [c_o, c_j], [c_u], [c_o, c_j], [c_o, c_j]] 1 this)))
      else if Last this 1 0 = [c_ya] then
        (True, Rule 404 (wordForms (workingWord this) [[c_o, c_j], [c_o, c_j], [c_u, c_yu], [c_o, c_j], [c_o, c_j]] 2 this))
      else (False, this))"

fun ru_rules :: "gname \<Rightarrow> int \<Rightarrow> rulefn option" where
  "ru_rules g ruleID =
     (case g of
        man \<Rightarrow>
          (if ruleID = 1 then Some (pure_rule ru_manRule1)
           else if ruleID = 2 then Some (pure_rule ru_manRule2)
           else if ruleID = 3 then Some (pure_rule ru_manRule3)
           else if ruleID = 4 then Some (pure_rule ru_manRule4)
           else if ruleID = 5 then Some ru_manRule5
           else if ruleID = 6 then Some (pure_rule ru_manRule6)
           else if ruleID = 7 then Some (pure_rule ru_manRule7)
           else if ruleID = 8 then Some (pure_rule ru_manRule8)
           else None)
      | woman \<Rightarrow>
          (if ruleID = 1 then Some (pure_rule ru_womanRule1)
           else if ruleID = 2 then Some (pure_rule ru_womanRule2)
           else if ruleID = 3 then Some (pure_rule ru_womanRule3)
           else if ruleID = 4 then Some (pure_rule ru_womanRule4)
           else None))"

definition ru_manFirstName :: rulefn where
  "ru_manFirstName this =
     (if inNames (workingWord this) [[C_S, c_t, c_a, c_r, c_sh, c_i, c_j], [C_M, c_l, c_a, c_d, c_sh, c_i, c_j]] then
        Inr (True, wordForms (workingWord this) [[c_e, c_g, c_o], [c_e, c_m, c_u], [c_e, c_g, c_o], [c_i, c_m], [c_e, c_m]] 2 this)
      else if inNames (workingWord this) [[C_M, c_a, c_r, c_i, c_a]] then
        Inr (True, wordForms (workingWord this) [[c_i], [c_i], [c_yu], [c_e, c_j], [c_i, c_i]] 1 this)
      else RulesChain ru_rules man [1, 2, 3] this)"

definition ru_womanFirstName :: rulefn where
  "ru_womanFirstName this = RulesChain ru_rules woman [1, 2, 3] this"

definition ru_manSecondName :: rulefn where
  "ru_manSecondName this = RulesChain ru_rules man [8, 4, 5, 6, 7] this"

definition ru_womanSecondName :: rulefn where
  "ru_womanSecondName this = RulesChain ru_rules woman [4] this"

definition ru_manFatherName :: rulefn where
  "ru_manFatherName this =
     (if inNames (workingWord this) [[C_I, c_l, c_soft, c_i, c_ch]] then
        Inr (True, wordForms (workingWord this) [[c_a], [c_u], [c_a], [c_o, c_m], [c_e]] 0 this)
      else if Last this 2 0 = [c_i, c_ch] then
        Inr (True, wordForms (workingWord this) [[c_a], [c_u], [c_a], [c_e, c_m], [c_e]] 0 this)
      else Inr (False, this))"

definition ru_womanFatherName :: rulefn where
  "ru_womanFatherName this =
     (if Last this 2 0 = [c_n, c_a] then
        Inr (True, wordForms (workingWord this) [[c_y], [c_e], [c_u], [c_o, c_j], [c_e]] 1 this)
      else Inr (False, this))"

fun ru_nameMethod :: "gname \<Rightarrow> part \<Rightarrow> rulefn" where
  "ru_nameMethod man N = ru_manFirstName"
| "ru_nameMethod woman N = ru_womanFirstName"
| "ru_nameMethod man S = ru_manSecondName"
| "ru_nameMethod woman S = ru_womanSecondName"
| "ru_nameMethod man F = ru_manFatherName"
| "ru_nameMethod woman F = ru_womanFatherName"

text \<open>
  \<^verbatim>\<open>GenderByFatherName\<close> is the same in both classes: the two tests are separate
  statements, so the second one decides when both hold (no word ends both ways).
\<close>

definition GenderByFatherName_impl :: "work \<Rightarrow> (('s::{zero,numeral}) \<times> 's) option" where
  "GenderByFatherName_impl this =
     (let r1 = (if Last this 2 0 = [c_i, c_ch] then Some (10, 0) else None)
      in if Last this 2 0 = [c_n, c_a] then Some (0, 12) else r1)"

definition NCLNameCaseRu :: "('s::{zero,numeral}) lang" where
  "NCLNameCaseRu =
     \<lparr>classCaseCount = 6, nameMethod = ru_nameMethod,
      GenderByFatherName = GenderByFatherName_impl\<rparr>"


section \<open>NCLNameCaseUa: the declension rules\<close>

definition ua_vowels :: ustring where
  "ua_vowels = [c_a, c_e, c_i, c_o, c_u, c_ii, c_yi, c_ye, c_yu, c_ya]"

definition ua_consonant :: ustring where
  "ua_consonant = [c_b, c_v, c_g, c_d, c_zh, c_z, c_j, c_k, c_l, c_m, c_n, c_p, c_r, c_s, c_t, c_f, c_h, c_c, c_ch, c_sh, c_sch]"

definition ua_shyplyachi :: ustring where
  "ua_shyplyachi = [c_zh, c_ch, c_sh, c_sch]"

definition ua_neshyplyachi :: ustring where
  "ua_neshyplyachi = [c_b, c_v, c_g, c_d, c_z, c_k, c_l, c_m, c_n, c_p, c_r, c_s, c_t, c_f, c_h, c_c]"

definition ua_myaki :: ustring where
  "ua_myaki = [c_soft, c_yu, c_ya, c_ye, c_yi]"

definition ua_gubni :: ustring where
  "ua_gubni = [c_m, c_v, c_p, c_b, c_f]"

definition inverseGKH :: "ustring \<Rightarrow> ustring" where
  "inverseGKH letter =
     (if letter = [c_g] then [c_z]
      else if letter = [c_k] then [c_c]
      else if letter = [c_h] then [c_s]
      else letter)"

definition isApostrof :: "ustring \<Rightarrow> bool" where
  "isApostrof ch = (if in_str ch ([c_space] @ ua_consonant @ ua_vowels) then False else True)"

definition inverse2 :: "ustring \<Rightarrow> ustring" where
  "inverse2 letter =
     (if letter = [c_k] then [c_ch]
      else if letter = [c_g] then [c_zh]
      else letter)"

text \<open>
  The loop shared by \<^verbatim>\<open>detect2Group\<close> and \<^verbatim>\<open>getOsnova\<close>: letters are cut off the
  end of the word while they are vowels or the soft sign; \<^verbatim>\<open>detect2Group\<close> also
  pushes each letter it cuts onto a stack.
\<close>

function cut_vowels :: "ustring \<Rightarrow> ustring list \<Rightarrow> ustring \<times> ustring list" where
  "cut_vowels osnova stack =
     (if in_str (substr osnova (-1) 1) (ua_vowels @ [c_soft]) then
        cut_vowels (substr osnova 0 (int (strlen osnova) - 1)) (stack @ [substr osnova (-1) 1])
      else (osnova, stack))"
  by pat_completeness auto
termination
proof (relation "measure (\<lambda>(osnova, stack). length osnova)")
  show "wf (measure (\<lambda>(osnova, stack). length osnova))" by simp
next
  fix osnova :: ustring and stack :: "ustring list"
  assume "in_str (substr osnova (-1) 1) (ua_vowels @ [c_soft])"
  then have "osnova \<noteq> []" by (auto simp: in_str_def substr_def)
  then show "((substr osnova 0 (int (strlen osnova) - 1), stack @ [substr osnova (-1) 1]), osnova, stack)
        \<in> measure (\<lambda>(osnova, stack). length osnova)"
    by (cases osnova) (auto simp: substr_def strlen_def Let_def min_def)
qed

declare cut_vowels.simps [simp del]

definition detect2Group :: "ustring \<Rightarrow> nat" where
  "detect2Group word0 =
     (let (osnova, stack) = cut_vowels word0 [];
          stacksize = length stack;
          Last' = (if stacksize \<noteq> 0 then stack ! (length stack - 1) else [90]);
          osnovaEnd = substr osnova (-1) 1
      in if in_str osnovaEnd ua_neshyplyachi \<and> \<not> in_str Last' ua_myaki then 1
         else if in_str osnovaEnd ua_shyplyachi \<and> \<not> in_str Last' ua_myaki then 2
         else 3)"

text \<open>
  \<^verbatim>\<open>FirstLastVowel\<close> looks from the last letter down to index 1 and answers nothing
  (\<^verbatim>\<open>undefined\<close>) when no letter of the list occurs there.
\<close>

fun FirstLastVowel_loop :: "ustring \<Rightarrow> ustring \<Rightarrow> nat \<Rightarrow> ustring option" where
  "FirstLastVowel_loop word0 vowels 0 = None"
| "FirstLastVowel_loop word0 vowels (Suc i) =
     (let ch = substr word0 (int (Suc i)) 1
      in if in_str ch vowels then Some ch else FirstLastVowel_loop word0 vowels i)"

definition FirstLastVowel :: "ustring \<Rightarrow> ustring \<Rightarrow> ustring option" where
  "FirstLastVowel word0 vowels = FirstLastVowel_loop word0 vowels (strlen word0 - 1)"

definition getOsnova :: "ustring \<Rightarrow> ustring" where
  "getOsnova word0 = fst (cut_vowels word0 [])"

text \<open>
  Modelled from the spec: \<^verbatim>\<open>NCLStr.strrpos\<close>, the index of the last occurrence of a
  letter, or nothing.
\<close>

fun strrpos_from :: "ustring \<Rightarrow> nat \<Rightarrow> nat \<Rightarrow> nat option" where
  "strrpos_from s c 0 = None"
| "strrpos_from s c (Suc i) = (if s ! i = c then Some i else strrpos_from s c i)"

definition strrpos :: "ustring \<Rightarrow> nat \<Rightarrow> nat option" where
  "strrpos s c = strrpos_from s c (length s)"

definition ua_manRule1 :: "work \<Rightarrow> bool \<times> work" where
  "ua_manRule1 this =
     (let BeforeLast = Last this 2 1;
          invBeforeLast = inverseGKH BeforeLast
      in if Last this 1 0 = [c_a] then
           (True, Rule 101 (wordForms (workingWord this)
              [BeforeLast @ [c_i], invBeforeLast @ [c_ii], BeforeLast @ [c_u],
               BeforeLast @ [c_o, c_yu], invBeforeLast @ [c_ii], BeforeLast @ [c_o]] 2 this))
         else if Last this 1 0 = [c_ya] then
           (if BeforeLast = [c_ii] then
              (True, Rule 102 (wordForms (workingWord this) [[c_yi], [c_yi], [c_yu], [c_ye, c_yu], [c_yi], [c_ye]] 1 this))
            else
              (True, Rule 103 (wordForms (workingWord this)
                 [BeforeLast @ [c_ii], invBeforeLast @ [c_ii], BeforeLast @ [c_yu],
                  BeforeLast @ [c_e, c_yu], invBeforeLast @ [c_ii], BeforeLast @ [c_e]] 2 this)))
         else (False, this))"

definition ua_manRule2 :: "work \<Rightarrow> bool \<times> work" where
  "ua_manRule2 this =
     (if Last this 1 0 = [c_r] then
        (if inNames (workingWord this) [[C_II, c_g, c_o, c_r], [C_L, c_a, c_z, c_a, c_r]] then
           (True, Rule 201 (wordForms (workingWord this) [[c_ya], [c_e, c_v, c_ii], [c_ya], [c_e, c_m], [c_e, c_v, c_ii], [c_e]] 0 this))
         else
           (let osnova = workingWord this;
                osnova = (if substr osnova (-2) 1 = [c_ii]
                          then substr osnova 0 (int (strlen osnova) - 2) @ [c_o] @ substr osnova (-1) 1
                          else osnova)
            in (True, Rule 202 (wordForms osnova [[c_a], [c_o, c_v, c_ii], [c_a], [c_o, c_m], [c_o, c_v, c_ii], [c_e]] 0 this))))
      else (False, this))"

text \<open>
  \<^verbatim>\<open>manRule3\<close> first works out the stem: the letters before the final vowels, with
  \<^verbatim>\<open>i\<close> before the last consonant turned into \<^verbatim>\<open>o\<close>, and with the last \<^verbatim>\<open>e\<close>
  dropped from words that begin with \<^verbatim>\<open>o\<close> (all letters Cyrillic).  The two steps are
  a function of their own here; \<^verbatim>\<open>osLast\<close> is taken before them.
\<close>

definition ua_manRule3_osnova :: "work \<Rightarrow> ustring" where
  "ua_manRule3_osnova this =
     (let osnova = getOsnova (workingWord this);
          osLast = substr osnova (-1) 1;
          osnova =
            (if osLast \<noteq> [c_j] \<and> substr osnova (-2) 1 = [c_ii]
                \<and> \<not> in_list (substr (strtolower osnova) (-4) 4) [[c_s, c_v, c_ii, c_t], [c_c, c_v, c_ii, c_t]]
                \<and> \<not> inNames (workingWord this) [[C_G, c_l, c_ii, c_b]]
                \<and> \<not> in_list (Last this 2 0) [[c_ii, c_k], [c_ii, c_ch]]
             then substr osnova 0 (int (strlen osnova) - 2) @ [c_o] @ substr osnova (-1) 1
             else osnova)
      in if substr osnova 0 1 = [c_o]
            \<and> FirstLastVowel osnova (ua_vowels @ [c_g, c_k]) = Some [c_e]
            \<and> Last this 2 0 \<noteq> [c_s, c_soft]
         then (case strrpos osnova c_e of
                 None \<Rightarrow> osnova
               | Some delim \<Rightarrow>
                   substr osnova 0 (int delim)
                   @ substr osnova (int delim + 1) (int (strlen osnova) - int delim))
         else osnova)"

definition ua_manRule3 :: "work \<Rightarrow> bool \<times> work" where
  "ua_manRule3 this =
     (let BeforeLast = Last this 2 1
      in if in_str (Last this 1 0) (ua_consonant @ [c_o, c_soft]) then
           (let group = detect2Group (workingWord this);
                osLast = substr (getOsnova (workingWord this)) (-1) 1;
                invOsLast = inverse2 osLast;
                osnova = ua_manRule3_osnova this
            in if group = 1 then
                 (if Last this 2 0 = [c_o, c_k] \<and> Last this 3 0 \<noteq> [c_o, c_o, c_k] then
                    (True, Rule 301 (wordForms (workingWord this) [[c_k, c_a], [c_k, c_o, c_v, c_ii], [c_k, c_a], [c_k, c_o, c_m], [c_k, c_o, c_v, c_ii], [c_ch, c_e]] 2 this))
                  else if in_list (Last this 2 0) [[c_o, c_v], [c_e, c_v], [c_ye, c_v]]
                          \<and> \<not> inNames (workingWord this) [[C_L, c_e, c_v], [C_O, c_s, c_t, c_r, c_o, c_m, c_o, c_v]] then
                    (True, Rule 302 (wordForms osnova
                       [osLast @ [c_a], osLast @ [c_u], osLast @ [c_a], osLast @ [c_i, c_m],
                        osLast @ [c_u], invOsLast @ [c_e]] 1 this))
                  else if in_list (Last this 2 0) [[c_ii, c_n]] then
                    (True, Rule 303 (wordForms (workingWord this) [[c_a], [c_u], [c_a], [c_o, c_m], [c_u], [c_e]] 0 this))
                  else
                    (True, Rule 304 (wordForms osnova
                       [osLast @ [c_a], osLast @ [c_o, c_v, c_ii], osLast @ [c_a], osLast @ [c_o, c_m],
                        osLast @ [c_o, c_v, c_ii], invOsLast @ [c_e]] 1 this)))
               else if group = 2 then
                 (True, Rule 305 (wordForms osnova [[c_a], [c_e, c_v, c_ii], [c_a], [c_e, c_m], [c_e, c_v, c_ii], [c_e]] 0 this))
               else if group = 3 then
                 (if Last this 2 0 = [c_e, c_j] \<and> in_str (Last this 3 1) ua_gubni then
                    (let osnova = substr (workingWord this) 0 (int (strlen (workingWord this)) - 2)
                                  @ [c_apostrophe]
                     in (True, Rule 306 (wordForms osnova [[c_ya], [c_ye, c_v, c_ii], [c_ya], [c_ye, c_m], [c_ye, c_v, c_ii], [c_yu]] 0 this)))
                  else if Last this 1 0 = [c_j] \<or> BeforeLast = [c_ii] then
                    (True, Rule 307 (wordForms (workingWord this) [[c_ya], [c_ye, c_v, c_ii], [c_ya], [c_ye, c_m], [c_ye, c_v, c_ii], [c_yu]] 1 this))
                  else if workingWord this = [c_sh, c_v, c_e, c_c, c_soft] then
                    (True, Rule 308 (wordForms (workingWord this)
                       [[c_e, c_v, c_c, c_ya], [c_e, c_v, c_c, c_e, c_v, c_ii], [c_e, c_v, c_c, c_ya], [c_e, c_v, c_c, c_e, c_m], [c_e, c_v, c_c, c_e, c_v, c_ii], [c_e, c_v, c_c, c_yu]] 4 this))
                  else if Last this 3 0 = [c_e, c_c, c_soft] then
                    (True, Rule 309 (wordForms (workingWord this) [[c_c, c_ya], [c_c, c_e, c_v, c_ii], [c_c, c_ya], [c_c, c_e, c_m], [c_c, c_e, c_v, c_ii], [c_c, c_yu]] 3 this))
                  else if in_list (Last this 3 0) [[c_ye, c_c, c_soft], [c_ya, c_c, c_soft]] then
                    (True, Rule 310 (wordForms (workingWord this)
                       [[c_j, c_c, c_ya], [c_j, c_c, c_e, c_v, c_ii], [c_j, c_c, c_ya], [c_j, c_c, c_e, c_m], [c_j, c_c, c_e, c_v, c_ii], [c_j, c_c, c_yu]] 3 this))
                  else
                    (True, Rule 311 (wordForms osnova [[c_ya], [c_e, c_v, c_ii], [c_ya], [c_e, c_m], [c_e, c_v, c_ii], [c_yu]] 0 this)))
               else (False, this))
         else (False, this))"

definition ua_manRule4 :: "work \<Rightarrow> bool \<times> work" where
  "ua_manRule4 this =
     (if Last this 1 0 = [c_ii] then
        (True, Rule 4 (wordForms (workingWord this) [[c_i, c_h], [c_i, c_m], [c_i, c_h], [c_i, c_m, c_i], [c_i, c_h], [c_ii]] 1 this))
      else (False, this))"

definition ua_manRule5 :: "work \<Rightarrow> bool \<times> work" where
  "ua_manRule5 this =
     (if in_list (Last this 2 0) [[c_i, c_j], [c_o, c_j]] then
        (True, Rule 5 (wordForms (workingWord this) [[c_o, c_g, c_o], [c_o, c_m, c_u], [c_o, c_g, c_o], [c_i, c_m], [c_o, c_m, c_u], [c_i, c_j]] 2 this))
      else (False, this))"

definition ua_womanRule1 :: "work \<Rightarrow> bool \<times> work" where
  "ua_womanRule1 this =
     (let BeforeLast = Last this 2 1;
          invBeforeLast = inverseGKH BeforeLast
      in if Last this 4 0 = [c_n, c_ii, c_g, c_a] then
           (let osnova = substr (workingWord this) 0 (int (strlen (workingWord this)) - 3) @ [c_o]
            in (True, Rule 101 (wordForms osnova [[c_g, c_i], [c_z, c_ii], [c_g, c_u], [c_g, c_o, c_yu], [c_z, c_ii], [c_g, c_o]] 0 this)))
         else if Last this 1 0 = [c_a] then
           (True, Rule 102 (wordForms (workingWord this)
              [BeforeLast @ [c_i], invBeforeLast @ [c_ii], BeforeLast @ [c_u],
               BeforeLast @ [c_o, c_yu], invBeforeLast @ [c_ii], BeforeLast @ [c_o]] 2 this))
         else if Last this 1 0 = [c_ya] then
           (if in_str BeforeLast ua_vowels \<or> isApostrof BeforeLast then
              (True, Rule 103 (wordForms (workingWord this) [[c_yi], [c_yi], [c_yu], [c_ye, c_yu], [c_yi], [c_ye]] 1 this))
            else
              (True, Rule 104 (wordForms (workingWord this)
                 [BeforeLast @ [c_ii], invBeforeLast @ [c_ii], BeforeLast @ [c_yu],
                  BeforeLast @ [c_e, c_yu], invBeforeLast @ [c_ii], BeforeLast @ [c_e]] 2 this)))
         else (False, this))"

definition ua_womanRule2 :: "work \<Rightarrow> bool \<times> work" where
  "ua_womanRule2 this =
     (if in_str (Last this 1 0) (ua_consonant @ [c_soft]) then
        (let osnova = getOsnova (workingWord this);
             osLast = substr osnova (-1) 1;
             osBeforeLast = substr osnova (-2) 1;
             apostrof = (if in_str osLast [c_m, c_v, c_p, c_b, c_f] \<and> in_str osBeforeLast ua_vowels
                         then [c_apostrophe] else []);
             duplicate = (if in_str osLast [c_d, c_t, c_z, c_s, c_c, c_l, c_n] then osLast else [])
         in if Last this 1 0 = [c_soft] then
              (True, Rule 201 (wordForms osnova
                 [[c_ii], [c_ii], [c_soft], duplicate @ apostrof @ [c_yu], [c_ii], [c_e]] 0 this))
            else
              (True, Rule 202 (wordForms osnova
                 [[c_ii], [c_ii], [], duplicate @ apostrof @ [c_yu], [c_ii], [c_e]] 0 this)))
      else (False, this))"

definition ua_womanRule3 :: "work \<Rightarrow> bool \<times> work" where
  "ua_womanRule3 this =
     (let BeforeLast = Last this 2 1
      in if Last this 2 0 = [c_a, c_ya] then
           (True, Rule 301 (wordForms (workingWord this) [[c_o, c_yi], [c_ii, c_j], [c_u, c_yu], [c_o, c_yu], [c_ii, c_j], [c_a, c_ya]] 2 this))
         else if Last this 1 0 = [c_a]
                 \<and> (in_str (Last this 2 1) [c_ch, c_n, c_v] \<or> in_list (Last this 3 2) [[c_soft, c_k]]) then
           (True, Rule 302 (wordForms (workingWord this)
              [BeforeLast @ [c_o, c_yi], BeforeLast @ [c_ii, c_j], BeforeLast @ [c_u],
               BeforeLast @ [c_o, c_yu], BeforeLast @ [c_ii, c_j], BeforeLast @ [c_o]] 2 this))
         else (False, this))"

fun ua_rules :: "gname \<Rightarrow> int \<Rightarrow> rulefn option" where
  "ua_rules g ruleID =
     (case g of
        man \<Rightarrow>
          (if ruleID = 1 then Some (pure_rule ua_manRule1)
           else if ruleID = 2 then Some (pure_rule ua_manRule2)
           else if ruleID = 3 then Some (pure_rule ua_manRule3)
           else if ruleID = 4 then Some (pure_rule ua_manRule4)
           else if ruleID = 5 then Some (pure_rule ua_manRule5)
           else None)
      | woman \<Rightarrow>
          (if ruleID = 1 then Some (pure_rule ua_womanRule1)
           else if ruleID = 2 then Some (pure_rule ua_womanRule2)
           else if ruleID = 3 then Some (pure_rule ua_womanRule3)
           else None))"

definition ua_manFirstName :: rulefn where
  "ua_manFirstName this = RulesChain ua_rules man [1, 2, 3] this"

definition ua_womanFirstName :: rulefn where
  "ua_womanFirstName this = RulesChain ua_rules woman [1, 2] this"

definition ua_manSecondName :: rulefn where
  "ua_manSecondName this = RulesChain ua_rules man [5, 1, 2, 3, 4] this"

definition ua_womanSecondName :: rulefn where
  "ua_womanSecondName this = RulesChain ua_rules woman [3, 1] this"

definition ua_manFatherName :: rulefn where
  "ua_manFatherName this =
     (if in_list (Last this 2 0) [[c_i, c_ch], [c_ii, c_ch]] then
        Inr (True, wordForms (workingWord this) [[c_a], [c_u], [c_a], [c_e, c_m], [c_u], [c_u]] 0 this)
      else Inr (False, this))"

definition ua_womanFatherName :: rulefn where
  "ua_womanFatherName this =
     (if in_list (Last this 3 0) [[c_v, c_n, c_a]] then
        Inr (True, wordForms (workingWord this) [[c_i], [c_ii], [c_u], [c_o, c_yu], [c_ii], [c_o]] 1 this)
      else Inr (False, this))"

fun ua_nameMethod :: "gname \<Rightarrow> part \<Rightarrow> rulefn" where
  "ua_nameMethod man N = ua_manFirstName"
| "ua_nameMethod woman N = ua_womanFirstName"
| "ua_nameMethod man S = ua_manSecondName"
| "ua_nameMethod woman S = ua_womanSecondName"
| "ua_nameMethod man F = ua_manFatherName"
| "ua_nameMethod woman F = ua_womanFatherName"

definition NCLNameCaseUa :: "('s::{zero,numeral}) lang" where
  "NCLNameCaseUa =
     \<lparr>classCaseCount = 7, nameMethod = ua_nameMethod,
      GenderByFatherName = GenderByFatherName_impl\<rparr>"

text \<open>
  \<^verbatim>\<open>index.js\<close> registers the two classes under their language codes.  The weighted
  hooks of each class are parameters here.
\<close>

definition index_js :: "'s heuristics \<Rightarrow> 's heuristics \<Rightarrow> ('s::{zero,numeral}) registry" where
  "index_js ruH uaH =
     setConcreteClasses
       (\<lambda>lng. if lng = ''ru'' then Some (NCLNameCaseRu, ruH)
              else if lng = ''ua'' then Some (NCLNameCaseUa, uaH)
              else None)"


section \<open>NCLNameCaseCore: the engine\<close>

record 's NCLNameCaseCore =
  wk :: work
  ready :: bool
  finished :: bool
  words :: "'s NCLNameCaseWord list"
  index :: "part \<Rightarrow> nat list option"

text \<open>
  The constructor leaves \<^verbatim>\<open>index\<close> an empty object: no part has a list yet.
\<close>

definition new_NCLNameCaseCore :: "'s lang \<Rightarrow> 's NCLNameCaseCore" where
  "new_NCLNameCaseCore L =
     \<lparr>wk = new_work L, ready = False, finished = False, words = [], index = (\<lambda>p. None)\<rparr>"

definition notReady :: "'s NCLNameCaseCore \<Rightarrow> 's NCLNameCaseCore" where
  "notReady this = this\<lparr>ready := False, finished := False\<rparr>"

definition fullReset :: "'s NCLNameCaseCore \<Rightarrow> 's NCLNameCaseCore" where
  "fullReset this =
     notReady (this\<lparr>words := [], index := (\<lambda>p. Some []), wk := reset (wk this)\<rparr>)"

definition setFirstName :: "ustring \<Rightarrow> ('s::zero) NCLNameCaseCore \<Rightarrow> 's NCLNameCaseCore" where
  "setFirstName firstname this =
     (if firstname \<noteq> [] then
        (let newWord = setNamePart N (new_NCLNameCaseWord firstname)
         in notReady (this\<lparr>words := words this @ [newWord]\<rparr>))
      else this)"

definition setSecondName :: "ustring \<Rightarrow> ('s::zero) NCLNameCaseCore \<Rightarrow> 's NCLNameCaseCore" where
  "setSecondName secondname this =
     (if secondname \<noteq> [] then
        (let newWord = setNamePart S (new_NCLNameCaseWord secondname)
         in notReady (this\<lparr>words := words this @ [newWord]\<rparr>))
      else this)"

definition setFatherName :: "ustring \<Rightarrow> ('s::zero) NCLNameCaseCore \<Rightarrow> 's NCLNameCaseCore" where
  "setFatherName fathername this =
     (if fathername \<noteq> [] then
        (let newWord = setNamePart F (new_NCLNameCaseWord fathername)
         in notReady (this\<lparr>words := words this @ [newWord]\<rparr>))
      else this)"

definition setGender :: "int \<Rightarrow> 's NCLNameCaseCore \<Rightarrow> 's NCLNameCaseCore" where
  "setGender g this = this\<lparr>words := map (setTrueGender g) (words this)\<rparr>"

definition setFullName ::
  "ustring \<Rightarrow> ustring \<Rightarrow> ustring \<Rightarrow> ('s::zero) NCLNameCaseCore \<Rightarrow> 's NCLNameCaseCore" where
  "setFullName secondName firstName fatherName this =
     setFatherName fatherName (setSecondName secondName (setFirstName firstName this))"

text \<open>
  The loops over \<^verbatim>\<open>this.words\<close> change the word objects in place and, through the
  hooks, the working state; the model passes both along.
\<close>

definition prepareNamePart ::
  "'s heuristics \<Rightarrow> work \<times> 's NCLNameCaseWord \<Rightarrow> work \<times> 's NCLNameCaseWord" where
  "prepareNamePart H = (\<lambda>(this, w).
     (if getNamePart w = None then
        (let this1 = setWorkingWord (getWord w) this
         in (this1, (case detectNamePart H this1 of
                       None \<Rightarrow> w
                     | Some p \<Rightarrow> setNamePart p w)))
      else (this, w)))"

fun prepareAllNameParts ::
  "'s heuristics \<Rightarrow> work \<Rightarrow> 's NCLNameCaseWord list \<Rightarrow> work \<times> 's NCLNameCaseWord list" where
  "prepareAllNameParts H this [] = (this, [])"
| "prepareAllNameParts H this (w # ws) =
     (let (this1, w1) = prepareNamePart H (this, w);
          (this2, ws1) = prepareAllNameParts H this1 ws
      in (this2, w1 # ws1))"

definition prepareGender ::
  "'s lang \<Rightarrow> 's heuristics \<Rightarrow> work \<times> 's NCLNameCaseWord \<Rightarrow> work \<times> 's NCLNameCaseWord" where
  "prepareGender L H = (\<lambda>(this, w).
     (if \<not> isGenderSolved w then
        (case getNamePart w of
           None \<Rightarrow> (this, w)
         | Some p \<Rightarrow>
             (let this1 = setWorkingWord (getWord w) this;
                  hook = (case p of
                            N \<Rightarrow> GenderByFirstName H
                          | F \<Rightarrow> GenderByFatherName L
                          | S \<Rightarrow> GenderBySecondName H)
              in (this1, (case hook this1 of
                            None \<Rightarrow> w
                          | Some (m, f) \<Rightarrow> word_setGender m f w))))
      else (this, w)))"

text \<open>
  \<^verbatim>\<open>solveGender\<close>, first loop: the gender of the first word that has one.
\<close>

fun solveGender_solved :: "('s::ord) NCLNameCaseWord list \<Rightarrow> int option" where
  "solveGender_solved [] = None"
| "solveGender_solved (w # ws) =
     (if isGenderSolved w then Some (fst (word_gender w)) else solveGender_solved ws)"

text \<open>
  Second loop: every word is prepared and its two rates are added to the running
  totals \<^verbatim>\<open>man\<close> and \<^verbatim>\<open>woman\<close>.
\<close>

fun solveGender_sum ::
  "'s lang \<Rightarrow> 's heuristics \<Rightarrow> work \<Rightarrow> ('s::plus) NCLNameCaseWord list \<Rightarrow> 's \<Rightarrow> 's
     \<Rightarrow> work \<times> 's NCLNameCaseWord list \<times> 's \<times> 's" where
  "solveGender_sum L H this [] m f = (this, [], m, f)"
| "solveGender_sum L H this (w # ws) m f =
     (let (this1, w1) = prepareGender L H (this, w);
          (gm, gf) = getGender w1;
          (this2, ws1, m2, f2) = solveGender_sum L H this1 ws (m + gm) (f + gf)
      in (this2, w1 # ws1, m2, f2))"

definition solveGender ::
  "'s lang \<Rightarrow> 's heuristics \<Rightarrow> ('s::{zero,plus,ord}) NCLNameCaseCore \<Rightarrow> 's NCLNameCaseCore" where
  "solveGender L H this =
     (case solveGender_solved (words this) of
        Some g \<Rightarrow> setGender g this
      | None \<Rightarrow>
          (let (this1, ws1, m, f) = solveGender_sum L H (wk this) (words this) 0 0;
               this2 = this\<lparr>wk := this1, words := ws1\<rparr>
           in if f < m then setGender MAN this2 else setGender WOMAN this2))"

text \<open>
  \<^verbatim>\<open>generateIndex\<close> pushes the keys of \<^verbatim>\<open>this.words\<close> (the positions, not the
  words) onto the list of the word's part; a word without a part has no list to push
  onto.
\<close>

fun generateIndex_loop ::
  "'s NCLNameCaseWord list \<Rightarrow> nat \<Rightarrow> (part \<Rightarrow> nat list) \<Rightarrow> error + (part \<Rightarrow> nat list)" where
  "generateIndex_loop [] k idx = Inr idx"
| "generateIndex_loop (w # ws) k idx =
     (case getNamePart w of
        None \<Rightarrow> Inl TypeError
      | Some namepart \<Rightarrow>
          generateIndex_loop ws (Suc k) (idx(namepart := idx namepart @ [k])))"

definition generateIndex :: "'s NCLNameCaseCore \<Rightarrow> error + 's NCLNameCaseCore" where
  "generateIndex this =
     (case generateIndex_loop (words this) 0 (\<lambda>p. []) of
        Inl err \<Rightarrow> Inl err
      | Inr idx \<Rightarrow> Inr (this\<lparr>index := (\<lambda>p. Some (idx p))\<rparr>))"

definition prepareEverything ::
  "'s lang \<Rightarrow> 's heuristics \<Rightarrow> ('s::{zero,plus,ord}) NCLNameCaseCore
     \<Rightarrow> error + 's NCLNameCaseCore" where
  "prepareEverything L H this =
     (if \<not> ready this then
        (let (this1, ws1) = prepareAllNameParts H (wk this) (words this);
             this2 = solveGender L H (this\<lparr>wk := this1, words := ws1\<rparr>)
         in (case generateIndex this2 of
               Inl err \<Rightarrow> Inl err
             | Inr this3 \<Rightarrow> Inr (this3\<lparr>ready := True\<rparr>)))
      else Inr this)"


subsection \<open>WordCase\<close>

definition exclusion :: "ustring list" where
  "exclusion = [[c_t, c_u, c_l, c_u, c_z]]"

text \<open>
  The test at the head of the loop body: is the sub-token declined by the normal
  rules?  For a surname of several sub-tokens, every sub-token but the last is either on
  the exclusion list, or handed to \<^verbatim>\<open>detectNamePart\<close> of a fresh object of the class
  registered as \<^verbatim>\<open>ru\<close>; constructing an object of no class is a \<^verbatim>\<open>TypeError\<close>.  The
  function answers \<^verbatim>\<open>is_norm_rules\<close> and the sub-token's word object, which the
  classification may have given a part.
\<close>

definition WordCase_norm ::
  "'s registry \<Rightarrow> part option \<Rightarrow> nat \<Rightarrow> nat \<Rightarrow> ustring \<Rightarrow> ('s::zero) NCLNameCaseWord
     \<Rightarrow> error + bool \<times> 's NCLNameCaseWord" where
  "WordCase_norm reg name_part_letter cnt k cur_word o_ncw =
     (if name_part_letter = Some S \<and> cnt > 1 \<and> Suc k < cnt then
        (if toLowerCase cur_word \<notin> set exclusion then
           (case getConcreteClass reg ''ru'' of
              None \<Rightarrow> Inl TypeError
            | Some (cls, clsH) \<Rightarrow>
                (let o_nc = setWorkingWord (getWord o_ncw) (new_work cls);
                     o_ncw1 = (case detectNamePart clsH o_nc of
                                 None \<Rightarrow> o_ncw
                               | Some p \<Rightarrow> setNamePart p o_ncw)
                 in Inr (getNamePart o_ncw1 = Some S, o_ncw1)))
         else Inr (False, o_ncw))
      else Inr (True, o_ncw))"

text \<open>
  One turn of the loop over the sub-tokens: the new working state, the sub-token's word
  object with its case forms, and \<^verbatim>\<open>last_rule\<close>.  After a match \<^verbatim>\<open>result_tmp\<close> is the
  very array that \<^verbatim>\<open>this.lastResult\<close> holds; \<^verbatim>\<open>setNameCases\<close> keeps that array and
  \<^verbatim>\<open>returnMask\<close> writes into it, so \<^verbatim>\<open>this.lastResult\<close> then holds the forms with the
  mask restored.  The array of the fallback is a fresh one.
\<close>

definition WordCase_token ::
  "rulefn \<Rightarrow> 's registry \<Rightarrow> part option \<Rightarrow> nat \<Rightarrow> nat \<Rightarrow> ustring \<Rightarrow> work
     \<Rightarrow> error + work \<times> ('s::zero) NCLNameCaseWord \<times> int" where
  "WordCase_token method reg name_part_letter cnt k cur_word this =
     (case WordCase_norm reg name_part_letter cnt k cur_word (new_NCLNameCaseWord cur_word) of
        Inl err \<Rightarrow> Inl err
      | Inr (is_norm_rules, o_ncw) \<Rightarrow>
          (let this1 = setWorkingWord cur_word this
           in (case (if is_norm_rules then method this1 else Inr (False, this1)) of
                 Inl err \<Rightarrow> Inl err
               | Inr (ok, this2) \<Rightarrow>
                   (if ok then
                      (let o_ncw1 = setNameCases (lastResult this2) True o_ncw
                       in Inr (this2\<lparr>lastResult := getNameCases o_ncw1\<rparr>, o_ncw1,
                               lastRule this2))
                    else
                      Inr (this2, setNameCases (replicate (CaseCount this2) cur_word) True o_ncw,
                           - 1)))))"

fun WordCase_loop ::
  "rulefn \<Rightarrow> 's registry \<Rightarrow> part option \<Rightarrow> nat \<Rightarrow> nat \<Rightarrow> ustring list \<Rightarrow> work
     \<Rightarrow> ('s::zero) NCLNameCaseWord list \<Rightarrow> int
     \<Rightarrow> error + work \<times> 's NCLNameCaseWord list \<times> int" where
  "WordCase_loop method reg name_part_letter cnt k [] this o_cur_words last_rule =
     Inr (this, o_cur_words, last_rule)"
| "WordCase_loop method reg name_part_letter cnt k (cur_word # rest) this o_cur_words last_rule =
     (case WordCase_token method reg name_part_letter cnt k cur_word this of
        Inl err \<Rightarrow> Inl err
      | Inr (this1, o_ncw, last_rule1) \<Rightarrow>
          WordCase_loop method reg name_part_letter cnt (Suc k) rest this1
            (o_cur_words @ [o_ncw]) last_rule1)"

text \<open>
  Putting the sub-tokens together: \<^verbatim>\<open>result[k]\<close> is extended by a hyphen and the
  form when it exists, and is the form otherwise.
\<close>

fun WordCase_glue :: "ustring list \<Rightarrow> ustring list \<Rightarrow> ustring list" where
  "WordCase_glue [] namecases = namecases"
| "WordCase_glue (r # result) [] = r # result"
| "WordCase_glue (r # result) (namecase # namecases) =
     (r @ [c_hyphen] @ namecase) # WordCase_glue result namecases"

definition WordCase ::
  "'s lang \<Rightarrow> 's registry \<Rightarrow> work \<Rightarrow> ('s::{zero,ord}) NCLNameCaseWord
     \<Rightarrow> error + work \<times> 's NCLNameCaseWord" where
  "WordCase L reg this word0 =
     (let (g, word1) = word_gender word0;
          gender = (if g = MAN then man else woman);
          name_part_letter = getNamePart word1
      in (case name_part_letter of
            None \<Rightarrow> Inl MethodNotFound
          | Some p \<Rightarrow>
              (let method = nameMethod L gender p;
                   cur_words = js_split c_hyphen (getWordOrig word1);
                   cnt = length cur_words
               in (case WordCase_loop method reg name_part_letter cnt 0 cur_words this [] (- 1) of
                     Inl err \<Rightarrow> Inl err
                   | Inr (this1, o_cur_words, last_rule) \<Rightarrow>
                       (let result = foldl WordCase_glue [] (map getNameCases o_cur_words)
                        in Inr (this1, setRule last_rule (setNameCases result False word1)))))))"

fun AllWordCases_loop ::
  "'s lang \<Rightarrow> 's registry \<Rightarrow> work \<Rightarrow> ('s::{zero,ord}) NCLNameCaseWord list
     \<Rightarrow> error + work \<times> 's NCLNameCaseWord list" where
  "AllWordCases_loop L reg this [] = Inr (this, [])"
| "AllWordCases_loop L reg this (w # ws) =
     (case WordCase L reg this w of
        Inl err \<Rightarrow> Inl err
      | Inr (this1, w1) \<Rightarrow>
          (case AllWordCases_loop L reg this1 ws of
             Inl err \<Rightarrow> Inl err
           | Inr (this2, ws1) \<Rightarrow> Inr (this2, w1 # ws1)))"

definition AllWordCases ::
  "'s lang \<Rightarrow> 's heuristics \<Rightarrow> 's registry \<Rightarrow> ('s::{zero,plus,ord}) NCLNameCaseCore
     \<Rightarrow> error + 's NCLNameCaseCore" where
  "AllWordCases L H reg this =
     (if \<not> finished this then
        (case prepareEverything L H this of
           Inl err \<Rightarrow> Inl err
         | Inr this1 \<Rightarrow>
             (case AllWordCases_loop L reg (wk this1) (words this1) of
                Inl err \<Rightarrow> Inl err
              | Inr (this2, ws1) \<Rightarrow> Inr (this1\<lparr>wk := this2, words := ws1, finished := True\<rparr>)))
      else Inr this)"


subsection \<open>Reading the case forms\<close>

text \<open>
  The values a getter can answer: \<^verbatim>\<open>undefined\<close>, a string, or an array of strings.
  \<^verbatim>\<open>getWordCase\<close> is handed either a word object or, from the part index, a key of
  \<^verbatim>\<open>this.words\<close>.
\<close>

datatype jsval = JUndefined | JStr ustring | JArr "ustring list"

datatype 's jsarg = KeyArg nat | WordArg "'s NCLNameCaseWord"

text \<open>
  In \<^verbatim>\<open>number < 0 || number > CaseCount - 1\<close> a \<^verbatim>\<open>null\<close> number counts as zero, and
  \<^verbatim>\<open>cases[null]\<close> is \<^verbatim>\<open>undefined\<close>.
\<close>

definition getWordCase :: "work \<Rightarrow> 's jsarg \<Rightarrow> int option \<Rightarrow> error + jsval" where
  "getWordCase this arg number =
     (case arg of
        KeyArg k \<Rightarrow> Inl ContractViolation
      | WordArg w \<Rightarrow>
          (let cases = getNameCases w
           in (case number of
                 None \<Rightarrow>
                   if 0 > int (CaseCount this) - 1 then Inr (JArr cases) else Inr JUndefined
               | Some n \<Rightarrow>
                   if n < 0 \<or> n > int (CaseCount this) - 1 then Inr (JArr cases)
                   else if nat n < length cases then Inr (JStr (cases ! nat n))
                   else Inr JUndefined)))"

fun map_err :: "('a \<Rightarrow> error + 'b) \<Rightarrow> 'a list \<Rightarrow> error + 'b list" where
  "map_err f [] = Inr []"
| "map_err f (x # xs) =
     (case f x of
        Inl err \<Rightarrow> Inl err
      | Inr y \<Rightarrow> (case map_err f xs of Inl err \<Rightarrow> Inl err | Inr ys \<Rightarrow> Inr (y # ys)))"

definition is_JArr :: "jsval \<Rightarrow> bool" where
  "is_JArr v = (case v of JArr xs \<Rightarrow> True | _ \<Rightarrow> False)"

definition js_elem :: "jsval \<Rightarrow> nat \<Rightarrow> ustring" where
  \<comment> \<open>\<^verbatim>\<open>readyArr[i][kase]\<close> as \<^verbatim>\<open>join\<close> renders it: a missing entry is the empty string\<close>
  "js_elem v kase =
     (case v of
        JArr xs \<Rightarrow> if kase < length xs then xs ! kase else []
      | JStr s \<Rightarrow> if kase < length s then [s ! kase] else []
      | JUndefined \<Rightarrow> [])"

definition js_to_string :: "jsval \<Rightarrow> ustring" where
  \<comment> \<open>the text that \<^verbatim>\<open>+=\<close> onto a string makes of a value\<close>
  "js_to_string v =
     (case v of
        JUndefined \<Rightarrow> js_undefined
      | JStr s \<Rightarrow> s
      | JArr xs \<Rightarrow> js_join [44] xs)"

definition js_join_elem :: "jsval \<Rightarrow> ustring" where
  \<comment> \<open>an element of an array under \<^verbatim>\<open>join\<close>: \<^verbatim>\<open>undefined\<close> is the empty string\<close>
  "js_join_elem v = (case v of JUndefined \<Rightarrow> [] | _ \<Rightarrow> js_to_string v)"

definition getCasesConnected ::
  "'s NCLNameCaseCore \<Rightarrow> nat list option \<Rightarrow> int option \<Rightarrow> error + jsval" where
  "getCasesConnected this indexArray number =
     (case indexArray of
        None \<Rightarrow> Inl TypeError
      | Some keys \<Rightarrow>
          (case map_err (\<lambda>word0. getWordCase (wk this) (KeyArg word0 :: 's jsarg) number) keys of
             Inl err \<Rightarrow> Inl err
           | Inr readyArr \<Rightarrow>
               (let all = length readyArr
                in if all \<noteq> 0 then
                     (if is_JArr (readyArr ! 0) then
                        Inr (JArr (map (\<lambda>kase. js_join [c_space]
                                              (map (\<lambda>r. js_elem r kase) readyArr))
                                     [0..<CaseCount (wk this)]))
                      else Inr (JStr (js_join [c_space] (map js_join_elem readyArr))))
                   else Inr (JStr []))))"

definition getNameCase_of ::
  "part \<Rightarrow> 's lang \<Rightarrow> 's heuristics \<Rightarrow> 's registry \<Rightarrow> ('s::{zero,plus,ord}) NCLNameCaseCore
     \<Rightarrow> int option \<Rightarrow> error + 's NCLNameCaseCore \<times> jsval" where
  "getNameCase_of p L H reg this number =
     (case AllWordCases L H reg this of
        Inl err \<Rightarrow> Inl err
      | Inr this1 \<Rightarrow>
          (case getCasesConnected this1 (index this1 p) number of
             Inl err \<Rightarrow> Inl err
           | Inr v \<Rightarrow> Inr (this1, v)))"

definition getFirstNameCase ::
  "'s lang \<Rightarrow> 's heuristics \<Rightarrow> 's registry \<Rightarrow> ('s::{zero,plus,ord}) NCLNameCaseCore
     \<Rightarrow> int option \<Rightarrow> error + 's NCLNameCaseCore \<times> jsval" where
  "getFirstNameCase = getNameCase_of N"

definition getSecondNameCase ::
  "'s lang \<Rightarrow> 's heuristics \<Rightarrow> 's registry \<Rightarrow> ('s::{zero,plus,ord}) NCLNameCaseCore
     \<Rightarrow> int option \<Rightarrow> error + 's NCLNameCaseCore \<times> jsval" where
  "getSecondNameCase = getNameCase_of S"

definition getFatherNameCase ::
  "'s lang \<Rightarrow> 's heuristics \<Rightarrow> 's registry \<Rightarrow> ('s::{zero,plus,ord}) NCLNameCaseCore
     \<Rightarrow> int option \<Rightarrow> error + 's NCLNameCaseCore \<times> jsval" where
  "getFatherNameCase = getNameCase_of F"


subsection \<open>Formatting\<close>

text \<open>
  A template is a string or an array of word objects.  An element of an array template
  is one of the engine's own word objects, named here by its position in
  \<^verbatim>\<open>this.words\<close> and read as the declension pass has left it, or a word object of the
  caller's.  A position beyond the words stands for \<^verbatim>\<open>undefined\<close>, and calling
  \<^verbatim>\<open>getNameCases\<close> on it is a \<^verbatim>\<open>TypeError\<close>.
\<close>

datatype 's wordref = OwnWord nat | OtherWord "'s NCLNameCaseWord"

datatype 's format = FormatString ustring | FormatArray "'s wordref list"

definition deref :: "'s NCLNameCaseCore \<Rightarrow> 's wordref \<Rightarrow> error + 's NCLNameCaseWord" where
  "deref this r =
     (case r of
        OwnWord k \<Rightarrow> if k < length (words this) then Inr (words this ! k) else Inl TypeError
      | OtherWord w \<Rightarrow> Inr w)"

definition js_space :: "nat \<Rightarrow> bool" where
  \<comment> \<open>the white space and line terminators that \<^verbatim>\<open>String.prototype.trim\<close> removes\<close>
  "js_space c \<longleftrightarrow>
     c \<in> {9, 10, 11, 12, 13, 32, 160, 5760, 8232, 8233, 8239, 8287, 12288, 65279}
     \<or> (8192 \<le> c \<and> c \<le> 8202)"

definition js_trim :: "ustring \<Rightarrow> ustring" where
  "js_trim s = rev (dropWhile js_space (rev (dropWhile js_space s)))"

definition case_or_undefined :: "ustring list \<Rightarrow> int \<Rightarrow> ustring" where
  \<comment> \<open>\<^verbatim>\<open>cases[caseNum]\<close> inside a string concatenation\<close>
  "case_or_undefined cases caseNum =
     (if 0 \<le> caseNum \<and> nat caseNum < length cases then cases ! nat caseNum else js_undefined)"

definition getFormattedArrayHard :: "work \<Rightarrow> 's NCLNameCaseWord list \<Rightarrow> ustring list" where
  "getFormattedArrayHard this format =
     (let cases = map getNameCases format
      in map (\<lambda>curCase.
                js_trim (concat (map (\<lambda>v. case_or_undefined v (int curCase) @ [c_space]) cases)))
           [0..<CaseCount this])"

text \<open>
  \<^verbatim>\<open>getFormattedArray\<close> with a string template reads \<^verbatim>\<open>index['S']\<close>, not
  \<^verbatim>\<open>this.index['S']\<close>; no variable \<^verbatim>\<open>index\<close> is in scope, so the statement raises a
  \<^verbatim>\<open>ReferenceError\<close> before anything is formatted.
\<close>

definition getFormattedArray :: "'s NCLNameCaseCore \<Rightarrow> 's format \<Rightarrow> error + jsval" where
  "getFormattedArray this format =
     (case format of
        FormatArray rs \<Rightarrow>
          (case map_err (deref this) rs of
             Inl err \<Rightarrow> Inl err
           | Inr ws \<Rightarrow> Inr (JArr (getFormattedArrayHard (wk this) ws)))
      | FormatString s \<Rightarrow> Inl ReferenceError)"

definition getFormattedHard :: "int \<Rightarrow> 's NCLNameCaseWord list \<Rightarrow> ustring" where
  "getFormattedHard caseNum format =
     js_trim (concat (map (\<lambda>w. case_or_undefined (getNameCases w) caseNum @ [c_space]) format))"

fun getFormatted_loop ::
  "'s lang \<Rightarrow> 's heuristics \<Rightarrow> 's registry \<Rightarrow> ('s::{zero,plus,ord}) NCLNameCaseCore \<Rightarrow> int
     \<Rightarrow> ustring \<Rightarrow> ustring \<Rightarrow> error + 's NCLNameCaseCore \<times> jsval" where
  "getFormatted_loop L H reg this caseNum [] result = Inr (this, JStr result)"
| "getFormatted_loop L H reg this caseNum (symbol # rest) result =
     (if symbol = 83 then
        (case getSecondNameCase L H reg this (Some caseNum) of
           Inl err \<Rightarrow> Inl err
         | Inr (this1, v) \<Rightarrow>
             getFormatted_loop L H reg this1 caseNum rest (result @ js_to_string v))
      else if symbol = 78 then
        (case getFirstNameCase L H reg this (Some caseNum) of
           Inl err \<Rightarrow> Inl err
         | Inr (this1, v) \<Rightarrow>
             getFormatted_loop L H reg this1 caseNum rest (result @ js_to_string v))
      else if symbol = 70 then
        (case getFatherNameCase L H reg this (Some caseNum) of
           Inl err \<Rightarrow> Inl err
         | Inr (this1, v) \<Rightarrow>
             getFormatted_loop L H reg this1 caseNum rest (result @ js_to_string v))
      else getFormatted_loop L H reg this caseNum rest (result @ [symbol]))"

text \<open>
  \<^verbatim>\<open>caseNum == null || !caseNum\<close> holds for \<^verbatim>\<open>null\<close> and for zero.
\<close>

definition getFormatted ::
  "'s lang \<Rightarrow> 's heuristics \<Rightarrow> 's registry \<Rightarrow> ('s::{zero,plus,ord}) NCLNameCaseCore
     \<Rightarrow> int option \<Rightarrow> 's format \<Rightarrow> error + 's NCLNameCaseCore \<times> jsval" where
  "getFormatted L H reg this caseNum format =
     (case AllWordCases L H reg this of
        Inl err \<Rightarrow> Inl err
      | Inr this1 \<Rightarrow>
          (if caseNum = None \<or> caseNum = Some 0 then
             (case getFormattedArray this1 format of
                Inl err \<Rightarrow> Inl err
              | Inr v \<Rightarrow> Inr (this1, v))
           else
             (case format of
                FormatArray rs \<Rightarrow>
                  (case map_err (deref this1) rs of
                     Inl err \<Rightarrow> Inl err
                   | Inr ws \<Rightarrow>
                       Inr (this1,
                            JStr (getFormattedHard (case caseNum of Some n \<Rightarrow> n | None \<Rightarrow> 0)
                                    ws)))
              | FormatString s \<Rightarrow>
                  getFormatted_loop L H reg this1 (case caseNum of Some n \<Rightarrow> n | None \<Rightarrow> 0) s [])))"


subsection \<open>Splitting a full name\<close>

text \<open>
  \<^verbatim>\<open>splitFullName\<close> calls \<^verbatim>\<open>trim\<close> and \<^verbatim>\<open>explode\<close>.  The module binds neither name
  (it requires \<^verbatim>\<open>NCL\<close> and \<^verbatim>\<open>NCLNameCaseWord\<close> and nothing else), so what the calls
  do depends on the scope the module is evaluated in: a name that is bound nowhere
  raises a \<^verbatim>\<open>ReferenceError\<close>.  The scope is a parameter; \<open>module_scope\<close> is the
  scope of the module as it stands.
\<close>

record scope =
  scope_trim :: "(ustring \<Rightarrow> ustring) option"
  scope_explode :: "(ustring \<Rightarrow> ustring \<Rightarrow> ustring list) option"

definition module_scope :: scope where
  "module_scope = \<lparr>scope_trim = None, scope_explode = None\<rparr>"

definition splitFullName ::
  "scope \<Rightarrow> 's lang \<Rightarrow> 's heuristics \<Rightarrow> ('s::{zero,plus,ord}) NCLNameCaseCore \<Rightarrow> ustring
     \<Rightarrow> error + 's NCLNameCaseCore \<times> 's NCLNameCaseWord list" where
  "splitFullName G L H this fullname =
     (case scope_trim G of
        None \<Rightarrow> Inl ReferenceError
      | Some trim \<Rightarrow>
          (let fullname1 = trim fullname
           in (case scope_explode G of
                 None \<Rightarrow> Inl ReferenceError
               | Some explode \<Rightarrow>
                   (let list0 = explode [c_space] fullname1;
                        this1 = this\<lparr>words := words this @ map new_NCLNameCaseWord list0\<rparr>
                    in (case prepareEverything L H this1 of
                          Inl err \<Rightarrow> Inl err
                        | Inr this2 \<Rightarrow> Inr (this2, words this2))))))"


section \<open>What a declension step guarantees\<close>

text \<open>
  Predicates for the proofs below.  A string is hyphen-free; a step of a rule method
  from a working state is well-formed: it leaves \<^verbatim>\<open>CaseCount\<close> and the working word
  alone and, when it reports success, has stored \<^verbatim>\<open>CaseCount\<close> hyphen-free forms (given a
  hyphen-free working word) the first of which is the working word itself (unless the
  working word is one of the excepted names).
\<close>

definition nohyphen :: "ustring \<Rightarrow> bool" where
  "nohyphen s \<longleftrightarrow> c_hyphen \<notin> set s"

definition declined :: "(ustring \<Rightarrow> bool) \<Rightarrow> work \<Rightarrow> bool \<times> work \<Rightarrow> bool" where
  "declined ex this res =
     (case res of (ok, this') \<Rightarrow>
        CaseCount this' = CaseCount this \<and> workingWord this' = workingWord this
        \<and> (ok \<longrightarrow> length (lastResult this') = CaseCount this
                  \<and> (nohyphen (workingWord this) \<longrightarrow> list_all nohyphen (lastResult this'))
                  \<and> (\<not> ex (workingWord this) \<longrightarrow> lastResult this' ! 0 = workingWord this)))"

definition declines :: "(ustring \<Rightarrow> bool) \<Rightarrow> nat \<Rightarrow> rulefn \<Rightarrow> bool" where
  "declines ex n r \<longleftrightarrow>
     (\<forall>this ok this'. CaseCount this = n \<longrightarrow> r this = Inr (ok, this')
        \<longrightarrow> declined ex this (ok, this'))"

definition ru_table_name :: "ustring \<Rightarrow> bool" where
  \<comment> \<open>the names whose forms \<^verbatim>\<open>manRule2\<close> of the Russian class takes from a fixed table\<close>
  "ru_table_name w \<longleftrightarrow> inNames w [[C_P, c_a, c_v, c_e, c_l], [C_L, c_e, c_v]]"

definition no_name :: "ustring \<Rightarrow> bool" where
  "no_name w \<longleftrightarrow> False"

text \<open>Restoring the mask of a sub-token's forms.\<close>

definition own_mask :: "ustring \<Rightarrow> 's NCLNameCaseWord \<Rightarrow> bool" where
  "own_mask s w \<longleftrightarrow>
     letterMask w = map (\<lambda>c. if isLowerCase [c] then mask_x else mask_X) s
     \<and> isUpperCase w = (\<forall>c\<in>set s. \<not> isLowerCase [c])"

text \<open>What one turn of the loop in \<^verbatim>\<open>WordCase\<close> yields for its sub-token.\<close>

definition token_ok :: "(ustring \<Rightarrow> bool) \<Rightarrow> nat \<Rightarrow> ustring \<Rightarrow> 's NCLNameCaseWord \<Rightarrow> bool" where
  "token_ok ex n cur w \<longleftrightarrow>
     length (NameCases w) = n
     \<and> (nohyphen cur \<longrightarrow> list_all nohyphen (NameCases w))
     \<and> (\<not> ex cur \<longrightarrow> NameCases w ! 0 = cur)"

text \<open>
  A sub-token as a word on its own: the word object of the text, with the part and the
  gender of the token it was cut from, and the case forms that \<^verbatim>\<open>WordCase\<close> gives it.
\<close>

definition sub_word :: "part \<Rightarrow> int \<Rightarrow> ustring \<Rightarrow> ('s::zero) NCLNameCaseWord" where
  "sub_word p g s = setTrueGender g (setNamePart p (new_NCLNameCaseWord s))"

definition alone_forms ::
  "('s::{zero,ord}) lang \<Rightarrow> work \<Rightarrow> part \<Rightarrow> int \<Rightarrow> ustring \<Rightarrow> ustring list option" where
  "alone_forms L this p g s =
     (case WordCase L None this (sub_word p g s :: 's NCLNameCaseWord) of
        Inl err \<Rightarrow> None
      | Inr (this1, w) \<Rightarrow> Some (NameCases w))"


section \<open>Names and engines used in the examples\<close>

definition name_Taras :: ustring where
  "name_Taras = [C_T, c_a, c_r, c_a, c_s]"

definition name_Shevchenko :: ustring where
  "name_Shevchenko = [1064, c_e, c_v, c_ch, c_e, c_n, c_k, c_o]"

definition name_Hryhorovych :: ustring where
  "name_Hryhorovych = [C_G, c_r, c_i, c_g, c_o, c_r, c_o, c_v, c_i, c_ch]"

definition name_Otto :: ustring where
  "name_Otto = [C_O, c_t, c_t, c_o]"

definition name_Toulouse_Lotrok :: ustring where
  "name_Toulouse_Lotrok = [C_T, c_u, c_l, c_u, c_z, c_hyphen, C_L, c_o, c_t, c_r, c_o, c_k]"

definition name_Ivanov_Petrov :: ustring where
  "name_Ivanov_Petrov = [C_I, c_v, c_a, c_n, c_o, c_v, c_hyphen, C_P, c_e, c_t, c_r, c_o, c_v]"

definition name_Ivanov :: ustring where
  "name_Ivanov = [C_I, c_v, c_a, c_n, c_o, c_v]"

definition name_Toulouse :: ustring where
  "name_Toulouse = [C_T, c_u, c_l, c_u, c_z]"

definition name_Petrov :: ustring where
  "name_Petrov = [C_P, c_e, c_t, c_r, c_o, c_v]"

definition name_Lotrok :: ustring where
  "name_Lotrok = [C_L, c_o, c_t, c_r, c_o, c_k]"

definition forms_Ivanov_ua :: "ustring list" where
  "forms_Ivanov_ua = [[C_I, c_v, c_a, c_n, c_o, c_v], [C_I, c_v, c_a, c_n, c_o, c_v, c_a], [C_I, c_v, c_a, c_n, c_o, c_v, c_u], [C_I, c_v, c_a, c_n, c_o, c_v, c_a], [C_I, c_v, c_a, c_n, c_o, c_v, c_i, c_m], [C_I, c_v, c_a, c_n, c_o, c_v, c_u], [C_I, c_v, c_a, c_n, c_o, c_v, c_e]]"

definition forms_Petrov_ua :: "ustring list" where
  "forms_Petrov_ua = [[C_P, c_e, c_t, c_r, c_o, c_v], [C_P, c_e, c_t, c_r, c_o, c_v, c_a], [C_P, c_e, c_t, c_r, c_o, c_v, c_u], [C_P, c_e, c_t, c_r, c_o, c_v, c_a], [C_P, c_e, c_t, c_r, c_o, c_v, c_i, c_m], [C_P, c_e, c_t, c_r, c_o, c_v, c_u], [C_P, c_e, c_t, c_r, c_o, c_v, c_e]]"

definition forms_Petrov_ru :: "ustring list" where
  "forms_Petrov_ru = [[C_P, c_e, c_t, c_r, c_o, c_v], [C_P, c_e, c_t, c_r, c_o, c_v, c_a], [C_P, c_e, c_t, c_r, c_o, c_v, c_u], [C_P, c_e, c_t, c_r, c_o, c_v, c_a], [C_P, c_e, c_t, c_r, c_o, c_v, c_y, c_m], [C_P, c_e, c_t, c_r, c_o, c_v, c_e]]"

definition forms_Lotrok_ru :: "ustring list" where
  "forms_Lotrok_ru = [[C_L, c_o, c_t, c_r, c_o, c_k], [C_L, c_o, c_t, c_r, c_o, c_k, c_a], [C_L, c_o, c_t, c_r, c_o, c_k, c_u], [C_L, c_o, c_t, c_r, c_o, c_k, c_a], [C_L, c_o, c_t, c_r, c_o, c_k, c_o, c_m], [C_L, c_o, c_t, c_r, c_o, c_k, c_e]]"

definition says_surname :: "'s heuristics" where
  \<comment> \<open>hooks whose \<^verbatim>\<open>detectNamePart\<close> calls \<^verbatim>\<open>setNamePart('S')\<close> on every word\<close>
  "says_surname =
     \<lparr>GenderByFirstName = (\<lambda>w. None), GenderBySecondName = (\<lambda>w. None),
      detectNamePart = (\<lambda>w. Some S)\<rparr>"

definition a_word :: "part \<Rightarrow> int \<Rightarrow> ustring \<Rightarrow> int NCLNameCaseWord" where
  \<comment> \<open>a word as \<^verbatim>\<open>setFirstName\<close> and its siblings build it, with the gender set\<close>
  "a_word p g s = setTrueGender g (setNamePart p (new_NCLNameCaseWord s))"

definition ru_engine :: "ustring \<Rightarrow> int NCLNameCaseCore" where
  \<comment> \<open>\<^verbatim>\<open>new NCLNameCaseRu().fullReset().setFirstName(s).setGender(NCL.MAN)\<close>\<close>
  "ru_engine s = setGender MAN (setFirstName s (fullReset (new_NCLNameCaseCore NCLNameCaseRu)))"

definition ru_engine_open :: "ustring \<Rightarrow> int NCLNameCaseCore" where
  \<comment> \<open>\<^verbatim>\<open>new NCLNameCaseRu().fullReset().setFirstName(s)\<close>, no gender given\<close>
  "ru_engine_open s = setFirstName s (fullReset (new_NCLNameCaseCore NCLNameCaseRu))"

definition ua_engine :: "ustring \<Rightarrow> ustring \<Rightarrow> ustring \<Rightarrow> int NCLNameCaseCore" where
  \<comment> \<open>\<^verbatim>\<open>new NCLNameCaseUa().fullReset().setFullName(s, n, f)\<close>, no gender given\<close>
  "ua_engine s n f = setFullName s n f (fullReset (new_NCLNameCaseCore NCLNameCaseUa))"

definition full_name_Shevchenko :: ustring where
  \<comment> \<open>surname, first name and patronymic, separated by blanks\<close>
  "full_name_Shevchenko =
     name_Shevchenko @ [c_space] @ name_Taras @ [c_space] @ name_Hryhorovych"

definition template_S_F :: ustring where
  \<comment> \<open>the template \<^verbatim>\<open>S F\<close>\<close>
  "template_S_F = [83, c_space, 70]"

definition template_N_F_S :: ustring where
  \<comment> \<open>the template \<^verbatim>\<open>N F S\<close>\<close>
  "template_N_F_S = [78, c_space, 70, c_space, 83]"


section \<open>Letter-case mask\<close>

lemma substr_one: "i < length s \<Longrightarrow> substr s (int i) 1 = [s ! i]"
  by (simp add: substr_def Let_def take_Suc_conv_app_nth Cons_nth_drop_Suc[symmetric] min_def)

lemma returnMask_letters_eq:
  "mx \<le> length kase \<Longrightarrow> i \<le> mx \<Longrightarrow>
   returnMask_letters kase m i mx acc =
     acc @ map (\<lambda>j. if m ! j = mask_X then upper_char (kase ! j) else kase ! j) [i..<mx]"
proof (induction "mx - i" arbitrary: i acc)
  case 0
  then show ?case by (subst returnMask_letters.simps) simp
next
  case (Suc d)
  then have lt: "i < mx" and il: "i < length kase" by simp_all
  have d: "d = mx - Suc i" using Suc.hyps by simp
  have "returnMask_letters kase m i mx acc =
        returnMask_letters kase m (Suc i) mx
          (acc @ (if m ! i = mask_X then strtoupper [kase ! i] else [kase ! i]))"
    using lt il by (subst returnMask_letters.simps) (simp add: substr_one Let_def)
  also have "\<dots> = (acc @ (if m ! i = mask_X then strtoupper [kase ! i] else [kase ! i]))
               @ map (\<lambda>j. if m ! j = mask_X then upper_char (kase ! j) else kase ! j) [Suc i..<mx]"
    using Suc.prems lt by (intro Suc.hyps(1)[OF d]) simp_all
  also have "\<dots> = acc @ map (\<lambda>j. if m ! j = mask_X then upper_char (kase ! j) else kase ! j) [i..<mx]"
    using lt by (simp add: upt_conv_Cons strtoupper_def)
  finally show ?case .
qed

lemma substr_tail:
  "substr kase (int (min (length kase) n)) (int (length kase) - int n) = drop n kase"
proof (cases "n < length kase")
  case True
  then show ?thesis by (simp add: substr_def Let_def min_def)
next
  case False
  then show ?thesis by (simp add: substr_def Let_def min_def)
qed

lemma returnMask_case_eq:
  "returnMask_case m kase =
     map (\<lambda>j. if m ! j = mask_X then upper_char (kase ! j) else kase ! j) [0..<min (length kase) (length m)]
     @ drop (length m) kase"
  by (simp add: returnMask_case_def Let_def strlen_def returnMask_letters_eq substr_tail)

lemma returnMask_case_length: "length (returnMask_case m kase) = length kase"
  by (simp add: returnMask_case_eq)

lemma returnMask_case_nth:
  "i < length kase \<Longrightarrow>
   returnMask_case m kase ! i =
     (if i < length m \<and> m ! i = mask_X then upper_char (kase ! i) else kase ! i)"
  by (auto simp: returnMask_case_eq nth_append)

lemma generateMask_loop_eq:
  "generateMask_loop (splitLetters s) msk up =
     (msk @ map (\<lambda>c. if isLowerCase [c] then mask_x else mask_X) s,
      up \<and> (\<forall>c\<in>set s. \<not> isLowerCase [c]))"
  by (induction s arbitrary: msk up) (auto simp: splitLetters_def)

text \<open>
  Claim C7.  Restoring the mask of a word: when the word is flagged as entirely upper
  case, every stored case form is upper-cased as a whole.  Otherwise the number of forms
  and the length of each form stay as they are, and letter \<open>i\<close> of a form is upper-cased
  exactly when \<open>i\<close> lies inside the mask and the mask holds \<^verbatim>\<open>X\<close> there; letters
  beyond the mask keep the case the declension gave them.  The flag of a freshly built
  word says that no letter of the token is lower case, and its mask has one entry per
  letter of the token.
\<close>

theorem returnMask_restores_letter_case:
  fixes this :: "'s NCLNameCaseWord" and tok :: ustring
  shows "(isUpperCase this \<longrightarrow> NameCases (returnMask this) = map strtoupper (NameCases this))
    \<and> (\<not> isUpperCase this \<longrightarrow>
         length (NameCases (returnMask this)) = length (NameCases this)
         \<and> (\<forall>k<length (NameCases this).
              length (NameCases (returnMask this) ! k) = length (NameCases this ! k)
              \<and> (\<forall>i<length (NameCases this ! k).
                    NameCases (returnMask this) ! k ! i =
                      (if i < length (letterMask this) \<and> letterMask this ! i = mask_X
                       then upper_char (NameCases this ! k ! i)
                       else NameCases this ! k ! i))))
    \<and> isUpperCase (new_NCLNameCaseWord tok :: ('t::zero) NCLNameCaseWord)
          = (\<forall>c\<in>set tok. \<not> isLowerCase [c])
    \<and> letterMask (new_NCLNameCaseWord tok :: ('t::zero) NCLNameCaseWord)
          = map (\<lambda>c. if isLowerCase [c] then mask_x else mask_X) tok"
proof (intro conjI impI allI)
  assume "isUpperCase this"
  then show "NameCases (returnMask this) = map strtoupper (NameCases this)"
    by (simp add: returnMask_def)
next
  assume "\<not> isUpperCase this"
  then show "length (NameCases (returnMask this)) = length (NameCases this)"
    by (simp add: returnMask_def)
next
  fix k
  assume "\<not> isUpperCase this" "k < length (NameCases this)"
  then show "length (NameCases (returnMask this) ! k) = length (NameCases this ! k)"
    by (simp add: returnMask_def returnMask_case_length)
next
  fix k i
  assume "\<not> isUpperCase this" "k < length (NameCases this)" "i < length (NameCases this ! k)"
  then show "NameCases (returnMask this) ! k ! i =
      (if i < length (letterMask this) \<and> letterMask this ! i = mask_X
       then upper_char (NameCases this ! k ! i) else NameCases this ! k ! i)"
    by (simp add: returnMask_def returnMask_case_nth)
next
  show "isUpperCase (new_NCLNameCaseWord tok :: 't NCLNameCaseWord)
          = (\<forall>c\<in>set tok. \<not> isLowerCase [c])"
    by (simp add: new_NCLNameCaseWord_def generateMask_def generateMask_loop_eq)
next
  show "letterMask (new_NCLNameCaseWord tok :: 't NCLNameCaseWord)
          = map (\<lambda>c. if isLowerCase [c] then mask_x else mask_X) tok"
    by (simp add: new_NCLNameCaseWord_def generateMask_def generateMask_loop_eq)
qed

lemmas eval_word =
  new_NCLNameCaseWord_def generateMask_def splitLetters_def isLowerCase_def strtolower_def
  strtoupper_def lower_char_def upper_char_def returnMask_def returnMask_case_def
  returnMask_letters.simps substr_def strlen_def Let_def setNameCases_def

theorem returnMask_restores_letter_case_witness:
  "\<not> isUpperCase ((new_NCLNameCaseWord [C_O, c_r, c_e, c_l] :: int NCLNameCaseWord)
        \<lparr>NameCases := [[c_o, c_r, c_l, c_o, c_v, c_ii]]\<rparr>)
   \<and> (0::nat) < length (NameCases ((new_NCLNameCaseWord [C_O, c_r, c_e, c_l] :: int NCLNameCaseWord)
        \<lparr>NameCases := [[c_o, c_r, c_l, c_o, c_v, c_ii]]\<rparr>))
   \<and> NameCases (returnMask ((new_NCLNameCaseWord [C_O, c_r, c_e, c_l] :: int NCLNameCaseWord)
        \<lparr>NameCases := [[c_o, c_r, c_l, c_o, c_v, c_ii]]\<rparr>))
       = [[C_O, c_r, c_l, c_o, c_v, c_ii]]
   \<and> isUpperCase ((new_NCLNameCaseWord [C_O, 1056, 1045, C_L] :: int NCLNameCaseWord)
        \<lparr>NameCases := [[c_o, c_r, c_l, c_a]]\<rparr>)
   \<and> NameCases (returnMask ((new_NCLNameCaseWord [C_O, 1056, 1045, C_L] :: int NCLNameCaseWord)
        \<lparr>NameCases := [[c_o, c_r, c_l, c_a]]\<rparr>))
       = [[C_O, 1056, C_L, C_A]]"
  using returnMask_restores_letter_case
    [of "(new_NCLNameCaseWord [C_O, c_r, c_e, c_l] :: int NCLNameCaseWord)
           \<lparr>NameCases := [[c_o, c_r, c_l, c_o, c_v, c_ii]]\<rparr>" "[C_O, c_r, c_e, c_l]"]
        returnMask_restores_letter_case
    [of "(new_NCLNameCaseWord [C_O, 1056, 1045, C_L] :: int NCLNameCaseWord)
           \<lparr>NameCases := [[c_o, c_r, c_l, c_a]]\<rparr>" "[C_O, 1056, 1045, C_L]"]
  by (simp add: eval_word)


lemma set_substr: "set (substr s a b) \<subseteq> set s"
  by (auto simp: substr_def Let_def dest: in_set_takeD in_set_dropD)

lemma set_js_slice: "set (js_slice s a b) \<subseteq> set s"
  by (auto simp: js_slice_def Let_def dest: in_set_takeD in_set_dropD)

lemma nohyphen_substr [simp]: "nohyphen s \<Longrightarrow> nohyphen (substr s a b)"
  using set_substr[of s a b] by (auto simp: nohyphen_def)

lemma nohyphen_Last [simp]: "nohyphen (workingWord this) \<Longrightarrow> nohyphen (Last this a b)"
  using set_js_slice by (fastforce simp: nohyphen_def Last_def Let_def)

lemma nohyphen_append [simp]: "nohyphen (a @ b) \<longleftrightarrow> nohyphen a \<and> nohyphen b"
  by (auto simp: nohyphen_def)

lemma nohyphen_Nil [simp]: "nohyphen []"
  by (simp add: nohyphen_def)

lemma nohyphen_Cons [simp]: "nohyphen (c # s) \<longleftrightarrow> c \<noteq> c_hyphen \<and> nohyphen s"
  by (auto simp: nohyphen_def)

lemma nohyphen_take [simp]: "nohyphen s \<Longrightarrow> nohyphen (take n s)"
  by (auto simp: nohyphen_def dest: in_set_takeD)

lemma nohyphen_strtolower [simp]: "nohyphen (strtolower s) \<longleftrightarrow> nohyphen s"
  by (auto simp: nohyphen_def strtolower_def lower_char_def split: if_splits)

lemma nohyphen_ending_at: "list_all nohyphen endings \<Longrightarrow> nohyphen (ending_at endings i)"
  by (simp add: ending_at_def js_undefined_def list_all_length)

lemma declined_False [simp]: "declined ex this (False, this)"
  by (simp add: declined_def)

lemma declined_wordForms:
  "1 \<le> CaseCount this \<Longrightarrow>
   (nohyphen (workingWord this) \<Longrightarrow> nohyphen word0 \<and> list_all nohyphen endings) \<Longrightarrow>
   declined ex this (True, wordForms word0 endings r this)"
  by (auto simp: declined_def wordForms_def Let_def list_all_iff nohyphen_ending_at)

lemma declined_Rule [simp]:
  "declined ex this (ok, Rule k this') \<longleftrightarrow> declined ex this (ok, this')"
  by (simp add: declined_def Rule_def)

lemma declined_Rule_wordForms:
  "1 \<le> CaseCount this \<Longrightarrow>
   (nohyphen (workingWord this) \<Longrightarrow> nohyphen word0 \<and> list_all nohyphen endings) \<Longrightarrow>
   declined ex this (True, wordForms word0 endings r (Rule k this))"
  by (auto simp: declined_def wordForms_def Let_def list_all_iff nohyphen_ending_at Rule_def)

lemma declined_same [simp]:
  "1 \<le> CaseCount this \<Longrightarrow> declined ex this (True, makeResultTheSame this)"
  by (auto simp: declined_def makeResultTheSame_def list_all_iff)

lemma declined_same_Rule [simp]:
  "1 \<le> CaseCount this \<Longrightarrow> declined ex this (True, makeResultTheSame (Rule k this))"
  by (auto simp: declined_def makeResultTheSame_def list_all_iff Rule_def)

lemma declined_ru_manRule1: "CaseCount this = 6 \<Longrightarrow> declined ex this (ru_manRule1 this)"
  by (simp add: ru_manRule1_def declined_wordForms)

lemma declined_ru_manRule3: "CaseCount this = 6 \<Longrightarrow> declined ex this (ru_manRule3 this)"
  by (simp add: ru_manRule3_def declined_wordForms)

lemma declined_ru_manRule4: "CaseCount this = 6 \<Longrightarrow> declined ex this (ru_manRule4 this)"
  by (simp add: ru_manRule4_def declined_wordForms)

lemma declined_ru_manRule6: "CaseCount this = 6 \<Longrightarrow> declined ex this (ru_manRule6 this)"
  by (simp add: ru_manRule6_def declined_wordForms)

lemma declined_ru_manRule7: "CaseCount this = 6 \<Longrightarrow> declined ex this (ru_manRule7 this)"
  by (simp add: ru_manRule7_def declined_wordForms)

lemma declined_ru_manRule8: "CaseCount this = 6 \<Longrightarrow> declined ex this (ru_manRule8 this)"
  by (simp add: ru_manRule8_def declined_wordForms)

lemma declined_ru_womanRule1: "CaseCount this = 6 \<Longrightarrow> declined ex this (ru_womanRule1 this)"
  by (simp add: ru_womanRule1_def declined_wordForms)

lemma declined_ru_womanRule2: "CaseCount this = 6 \<Longrightarrow> declined ex this (ru_womanRule2 this)"
  by (simp add: ru_womanRule2_def declined_wordForms)

lemma declined_ru_womanRule3: "CaseCount this = 6 \<Longrightarrow> declined ex this (ru_womanRule3 this)"
  by (simp add: ru_womanRule3_def declined_wordForms)

lemma declined_ru_womanRule4: "CaseCount this = 6 \<Longrightarrow> declined ex this (ru_womanRule4 this)"
  by (simp add: ru_womanRule4_def declined_wordForms)

lemma declined_table:
  "length tab = CaseCount this \<Longrightarrow> list_all nohyphen tab \<Longrightarrow> ex (workingWord this) \<Longrightarrow>
   declined ex this (True, this\<lparr>lastResult := tab\<rparr>)"
  by (simp add: declined_def)

lemma declined_ru_manRule2:
  "CaseCount this = 6 \<Longrightarrow> declined ru_table_name this (ru_manRule2 this)"
  by (simp add: ru_manRule2_def declined_wordForms declined_table ru_table_name_def)

lemma declines_pure:
  "(\<And>this. CaseCount this = n \<Longrightarrow> declined ex this (r this)) \<Longrightarrow> declines ex n (pure_rule r)"
  by (simp add: declines_def pure_rule_def) (metis)

lemma declines_ru_manRule5: "declines ex 6 ru_manRule5"
  by (auto simp: declines_def ru_manRule5_def declined_wordForms split: if_splits)

lemma declined_weaken:
  "declined ex this res \<Longrightarrow> (\<And>w. ex w \<Longrightarrow> ex' w) \<Longrightarrow> declined ex' this res"
  by (auto simp: declined_def)

lemma declines_weaken:
  "declines ex n r \<Longrightarrow> (\<And>w. ex w \<Longrightarrow> ex' w) \<Longrightarrow> declines ex' n r"
  unfolding declines_def by (blast intro: declined_weaken)

lemma declines_RulesChain:
  assumes tab: "\<And>ruleID r. tab g ruleID = Some r \<Longrightarrow> declines ex n r"
  shows "declines ex n (RulesChain tab g rulesArray)"
  unfolding declines_def
proof (intro allI impI)
  fix this ok this'
  assume "CaseCount this = n" "RulesChain tab g rulesArray this = Inr (ok, this')"
  then show "declined ex this (ok, this')"
  proof (induction rulesArray arbitrary: this)
    case Nil
    then show ?case by simp
  next
    case (Cons ruleID rulesArray)
    from Cons.prems(2) obtain r where r: "tab g ruleID = Some r"
      by (auto split: option.splits)
    from Cons.prems(2) r obtain ok1 this1 where r1: "r this = Inr (ok1, this1)"
      by (auto split: sum.splits)
    from tab[OF r] Cons.prems(1) r1 have d1: "declined ex this (ok1, this1)"
      by (auto simp: declines_def)
    show ?case
    proof (cases ok1)
      case True
      with Cons.prems(2) r r1 d1 show ?thesis by simp
    next
      case False
      with Cons.prems(2) r r1 have rest: "RulesChain tab g rulesArray this1 = Inr (ok, this')"
        by simp
      from d1 have same: "CaseCount this1 = CaseCount this" "workingWord this1 = workingWord this"
        by (simp_all add: declined_def)
      from Cons.IH[OF _ rest] same Cons.prems(1) have "declined ex this1 (ok, this')" by simp
      with same show ?thesis by (simp add: declined_def)
    qed
  qed
qed

lemma declines_ru_rules: "ru_rules g ruleID = Some r \<Longrightarrow> declines ru_table_name 6 r"
  by (cases g)
     (auto split: if_splits
        intro!: declines_pure declines_ru_manRule5 declined_ru_manRule1 declined_ru_manRule2
          declined_ru_manRule3 declined_ru_manRule4 declined_ru_manRule6 declined_ru_manRule7
          declined_ru_manRule8 declined_ru_womanRule1 declined_ru_womanRule2
          declined_ru_womanRule3 declined_ru_womanRule4)

lemma declines_ru_nameMethod: "declines ru_table_name 6 (ru_nameMethod g p)"
proof -
  have chain: "\<And>g ids. declines ru_table_name 6 (RulesChain ru_rules g ids)"
    by (rule declines_RulesChain) (rule declines_ru_rules)
  have direct: "\<And>this word0 endings r. CaseCount this = 6 \<Longrightarrow> list_all nohyphen endings \<Longrightarrow>
      declined ru_table_name this (True, wordForms (workingWord this) endings r this)"
    by (rule declined_wordForms) simp_all
  show ?thesis
  proof (cases g; cases p)
    assume "g = man" "p = N"
    then show ?thesis
      using chain[of man "[1, 2, 3]"]
      by (auto simp: declines_def ru_manFirstName_def direct split: if_splits)
  next
    assume "g = woman" "p = N"
    then show ?thesis using chain[of woman "[1, 2, 3]"]
      by (simp add: declines_def ru_womanFirstName_def)
  next
    assume "g = man" "p = S"
    then show ?thesis using chain[of man "[8, 4, 5, 6, 7]"]
      by (simp add: declines_def ru_manSecondName_def)
  next
    assume "g = woman" "p = S"
    then show ?thesis using chain[of woman "[4]"]
      by (simp add: declines_def ru_womanSecondName_def)
  next
    assume "g = man" "p = F"
    then show ?thesis
      by (auto simp: declines_def ru_manFatherName_def direct split: if_splits)
  next
    assume "g = woman" "p = F"
    then show ?thesis
      by (auto simp: declines_def ru_womanFatherName_def direct split: if_splits)
  qed
qed


lemma nohyphen_cut_vowels: "nohyphen s \<Longrightarrow> nohyphen (fst (cut_vowels s st))"
proof (induction s st rule: cut_vowels.induct)
  case (1 osnova stack)
  show ?case
  proof (cases "in_str (substr osnova (-1) 1) (ua_vowels @ [c_soft])")
    case True
    then have "cut_vowels osnova stack =
        cut_vowels (substr osnova 0 (int (strlen osnova) - 1)) (stack @ [substr osnova (-1) 1])"
      by (subst cut_vowels.simps) simp
    moreover have "nohyphen (fst (cut_vowels (substr osnova 0 (int (strlen osnova) - 1))
        (stack @ [substr osnova (-1) 1])))"
      using True "1.prems" by (intro "1.IH") simp_all
    ultimately show ?thesis by simp
  next
    case False
    then have "cut_vowels osnova stack = (osnova, stack)"
      by (subst cut_vowels.simps) simp
    with "1.prems" show ?thesis by simp
  qed
qed

lemma nohyphen_getOsnova [simp]: "nohyphen s \<Longrightarrow> nohyphen (getOsnova s)"
  by (simp add: getOsnova_def nohyphen_cut_vowels)

lemma nohyphen_inverseGKH [simp]: "nohyphen l \<Longrightarrow> nohyphen (inverseGKH l)"
  by (simp add: inverseGKH_def)

lemma nohyphen_inverse2 [simp]: "nohyphen l \<Longrightarrow> nohyphen (inverse2 l)"
  by (simp add: inverse2_def)

lemma declined_ua_manRule1: "CaseCount this = 7 \<Longrightarrow> declined ex this (ua_manRule1 this)"
  by (auto simp: ua_manRule1_def Let_def intro!: declined_wordForms)

lemma declined_ua_manRule2: "CaseCount this = 7 \<Longrightarrow> declined ex this (ua_manRule2 this)"
  by (auto simp: ua_manRule2_def Let_def intro!: declined_wordForms)

lemma nohyphen_ua_manRule3_osnova [simp]:
  "nohyphen (workingWord this) \<Longrightarrow> nohyphen (ua_manRule3_osnova this)"
  by (simp add: ua_manRule3_osnova_def Let_def split: option.split)

lemma declined_if:
  "(c \<Longrightarrow> declined ex this a) \<Longrightarrow> (\<not> c \<Longrightarrow> declined ex this b) \<Longrightarrow>
   declined ex this (if c then a else b)"
  by simp

lemma declined_leaf:
  "1 \<le> CaseCount this \<Longrightarrow>
   (nohyphen (workingWord this) \<Longrightarrow> nohyphen word0 \<and> list_all nohyphen endings) \<Longrightarrow>
   declined ex this (True, Rule k (wordForms word0 endings r this))"
  by (simp add: declined_wordForms)

lemma declined_ua_manRule3:
  assumes "CaseCount this = 7"
  shows "declined ex this (ua_manRule3 this)"
  unfolding ua_manRule3_def Let_def
  apply (intro declined_if declined_leaf declined_False)
  using assms apply simp_all
  done

lemma declined_ua_manRule4: "CaseCount this = 7 \<Longrightarrow> declined ex this (ua_manRule4 this)"
  by (auto simp: ua_manRule4_def Let_def intro!: declined_wordForms)

lemma declined_ua_manRule5: "CaseCount this = 7 \<Longrightarrow> declined ex this (ua_manRule5 this)"
  by (auto simp: ua_manRule5_def Let_def intro!: declined_wordForms)

lemma declined_ua_womanRule1: "CaseCount this = 7 \<Longrightarrow> declined ex this (ua_womanRule1 this)"
  by (auto simp: ua_womanRule1_def Let_def intro!: declined_wordForms)

lemma declined_ua_womanRule2: "CaseCount this = 7 \<Longrightarrow> declined ex this (ua_womanRule2 this)"
  by (auto simp: ua_womanRule2_def Let_def intro!: declined_wordForms)

lemma declined_ua_womanRule3: "CaseCount this = 7 \<Longrightarrow> declined ex this (ua_womanRule3 this)"
  by (auto simp: ua_womanRule3_def Let_def intro!: declined_wordForms)

lemma declines_ua_rules: "ua_rules g ruleID = Some r \<Longrightarrow> declines ex 7 r"
  by (cases g)
     (auto split: if_splits
        intro!: declines_pure declined_ua_manRule1 declined_ua_manRule2
          declined_ua_manRule3 declined_ua_manRule4 declined_ua_manRule5
          declined_ua_womanRule1 declined_ua_womanRule2 declined_ua_womanRule3)

lemma declines_ua_nameMethod: "declines ex 7 (ua_nameMethod g p)"
proof -
  have chain: "\<And>g ids. declines ex 7 (RulesChain ua_rules g ids)"
    by (rule declines_RulesChain) (rule declines_ua_rules)
  have direct: "\<And>this word0 endings r. CaseCount this = 7 \<Longrightarrow> list_all nohyphen endings \<Longrightarrow>
      declined ex this (True, wordForms (workingWord this) endings r this)"
    by (rule declined_wordForms) simp_all
  show ?thesis
  proof (cases g; cases p)
    assume "g = man" "p = N"
    then show ?thesis using chain[of man "[1, 2, 3]"]
      by (simp add: declines_def ua_manFirstName_def)
  next
    assume "g = woman" "p = N"
    then show ?thesis using chain[of woman "[1, 2]"]
      by (simp add: declines_def ua_womanFirstName_def)
  next
    assume "g = man" "p = S"
    then show ?thesis using chain[of man "[5, 1, 2, 3, 4]"]
      by (simp add: declines_def ua_manSecondName_def)
  next
    assume "g = woman" "p = S"
    then show ?thesis using chain[of woman "[3, 1]"]
      by (simp add: declines_def ua_womanSecondName_def)
  next
    assume "g = man" "p = F"
    then show ?thesis
      by (auto simp: declines_def ua_manFatherName_def direct split: if_splits)
  next
    assume "g = woman" "p = F"
    then show ?thesis
      by (auto simp: declines_def ua_womanFatherName_def direct split: if_splits)
  qed
qed


lemma upper_of_non_lower: "lower_char c \<noteq> c \<Longrightarrow> upper_char c = c"
  by (auto simp: lower_char_def upper_char_def split: if_splits)

lemma upper_char_hyphen: "upper_char c = c_hyphen \<longleftrightarrow> c = c_hyphen"
  by (auto simp: upper_char_def split: if_splits)

lemma nohyphen_strtoupper [simp]: "nohyphen (strtoupper s) \<longleftrightarrow> nohyphen s"
  by (induction s) (auto simp: strtoupper_def upper_char_hyphen)

lemma nohyphen_returnMask_case [simp]: "nohyphen (returnMask_case m f) \<longleftrightarrow> nohyphen f"
proof -
  have "c_hyphen \<in> set (returnMask_case m f) \<longleftrightarrow> c_hyphen \<in> set f"
  proof
    assume "c_hyphen \<in> set (returnMask_case m f)"
    then obtain i where i: "i < length f" "returnMask_case m f ! i = c_hyphen"
      by (auto simp: in_set_conv_nth returnMask_case_length)
    then have "f ! i = c_hyphen"
      by (auto simp: returnMask_case_nth upper_char_hyphen split: if_splits)
    with i show "c_hyphen \<in> set f" by (auto simp: in_set_conv_nth)
  next
    assume "c_hyphen \<in> set f"
    then obtain i where i: "i < length f" "f ! i = c_hyphen" by (auto simp: in_set_conv_nth)
    then have "returnMask_case m f ! i = c_hyphen"
      by (simp add: returnMask_case_nth upper_char_def)
    with i show "c_hyphen \<in> set (returnMask_case m f)"
      by (metis in_set_conv_nth returnMask_case_length)
  qed
  then show ?thesis by (simp add: nohyphen_def)
qed

lemma returnMask_case_own_mask:
  "returnMask_case (map (\<lambda>c. if isLowerCase [c] then mask_x else mask_X) s) s = s"
proof (rule nth_equalityI)
  show "length (returnMask_case (map (\<lambda>c. if isLowerCase [c] then mask_x else mask_X) s) s) = length s"
    by (simp add: returnMask_case_length)
next
  fix i
  assume "i < length (returnMask_case (map (\<lambda>c. if isLowerCase [c] then mask_x else mask_X) s) s)"
  then have i: "i < length s" by (simp add: returnMask_case_length)
  then show "returnMask_case (map (\<lambda>c. if isLowerCase [c] then mask_x else mask_X) s) s ! i = s ! i"
    by (auto simp: returnMask_case_nth isLowerCase_def strtolower_def upper_of_non_lower)
qed

lemma strtoupper_all_upper: "\<forall>c\<in>set s. \<not> isLowerCase [c] \<Longrightarrow> strtoupper s = s"
  by (induction s) (auto simp: strtoupper_def isLowerCase_def strtolower_def upper_of_non_lower)

lemma new_word_mask:
  "letterMask (new_NCLNameCaseWord s :: ('s::zero) NCLNameCaseWord)
     = map (\<lambda>c. if isLowerCase [c] then mask_x else mask_X) s"
  "isUpperCase (new_NCLNameCaseWord s :: ('s::zero) NCLNameCaseWord)
     = (\<forall>c\<in>set s. \<not> isLowerCase [c])"
  by (simp_all add: new_NCLNameCaseWord_def generateMask_def generateMask_loop_eq)

lemma setNameCases_mask:
  fixes w :: "'s NCLNameCaseWord"
  shows "length (NameCases (setNameCases forms True w)) = length forms"
    and "list_all nohyphen forms \<Longrightarrow> list_all nohyphen (NameCases (setNameCases forms True w))"
    and "own_mask s w \<Longrightarrow> forms \<noteq> [] \<Longrightarrow> forms ! 0 = s \<Longrightarrow>
         NameCases (setNameCases forms True w) ! 0 = s"
    and "own_mask s w \<Longrightarrow> forms = replicate n s \<Longrightarrow>
         NameCases (setNameCases forms True w) = replicate n s"
proof -
  show "length (NameCases (setNameCases forms True w)) = length forms"
    by (simp add: setNameCases_def returnMask_def Let_def)
  show "list_all nohyphen forms \<Longrightarrow> list_all nohyphen (NameCases (setNameCases forms True w))"
    by (simp add: setNameCases_def returnMask_def Let_def list_all_iff)
  show "own_mask s w \<Longrightarrow> forms \<noteq> [] \<Longrightarrow> forms ! 0 = s \<Longrightarrow>
         NameCases (setNameCases forms True w) ! 0 = s"
    by (cases forms)
       (auto simp: setNameCases_def returnMask_def Let_def own_mask_def
          returnMask_case_own_mask strtoupper_all_upper)
  show "own_mask s w \<Longrightarrow> forms = replicate n s \<Longrightarrow>
         NameCases (setNameCases forms True w) = replicate n s"
    by (auto simp: setNameCases_def returnMask_def Let_def own_mask_def
          returnMask_case_own_mask strtoupper_all_upper)
qed

lemma own_mask_new: "own_mask s (new_NCLNameCaseWord s :: ('s::zero) NCLNameCaseWord)"
  by (simp add: own_mask_def new_word_mask)

lemma WordCase_norm_mask:
  "WordCase_norm reg p cnt k cur w = Inr (b, w') \<Longrightarrow> own_mask s w \<Longrightarrow> own_mask s w'"
  by (auto simp: WordCase_norm_def own_mask_def setNamePart_def Let_def
      split: if_splits option.splits)

lemma WordCase_token_ok:
  assumes m: "declines ex n method" and n: "CaseCount this = n" "1 \<le> n"
    and r: "WordCase_token method reg p cnt k cur this = Inr (this', w, lr)"
  shows "CaseCount this' = n \<and> token_ok ex n cur (w :: ('s::zero) NCLNameCaseWord)"
proof -
  from r obtain b o_ncw where
    norm: "WordCase_norm reg p cnt k cur (new_NCLNameCaseWord cur :: 's NCLNameCaseWord) = Inr (b, o_ncw)"
    by (auto simp: WordCase_token_def split: sum.splits)
  have om: "own_mask cur o_ncw"
    using WordCase_norm_mask[OF norm own_mask_new] .
  let ?t1 = "setWorkingWord cur this"
  have t1: "CaseCount ?t1 = n" "workingWord ?t1 = cur"
    using n by (simp_all add: setWorkingWord_def reset_def)
  from r norm obtain ok this2 where
    call: "(if b then method ?t1 else Inr (False, ?t1)) = Inr (ok, this2)"
    and res: "CaseCount this' = CaseCount this2"
      "w = setNameCases (if ok then lastResult this2 else replicate (CaseCount this2) cur) True o_ncw"
    by (auto simp: WordCase_token_def Let_def split: sum.splits if_splits prod.splits)
  have d: "declined ex ?t1 (ok, this2)"
  proof (cases b)
    case True
    with call m t1 show ?thesis by (auto simp: declines_def)
  next
    case False
    with call show ?thesis by auto
  qed
  then have c2: "CaseCount this2 = n" using t1 by (simp add: declined_def)
  show ?thesis
  proof (cases ok)
    case True
    with d t1 have f: "length (lastResult this2) = n"
      "nohyphen cur \<longrightarrow> list_all nohyphen (lastResult this2)"
      "\<not> ex cur \<longrightarrow> lastResult this2 ! 0 = cur"
      by (simp_all add: declined_def)
    from f(1) n have ne: "lastResult this2 \<noteq> []" by auto
    show ?thesis
      using True res c2 f ne om
      by (auto simp: token_ok_def setNameCases_mask)
  next
    case False
    with res c2 have w: "w = setNameCases (replicate n cur) True o_ncw" by simp
    have "NameCases w = replicate n cur"
      unfolding w using om by (rule setNameCases_mask(4)) simp
    with n c2 res show ?thesis by (auto simp: token_ok_def list_all_iff)
  qed
qed


lemma WordCase_loop_ok:
  assumes m: "declines ex n method" and n1: "1 \<le> n"
  shows "CaseCount this = n \<Longrightarrow>
     WordCase_loop method reg p cnt k curs this acc lr = Inr (this', ws, lr') \<Longrightarrow>
     CaseCount this' = n \<and>
     (\<exists>new. ws = acc @ new \<and> list_all2 (token_ok ex n) curs (new :: ('s::zero) NCLNameCaseWord list))"
proof (induction curs arbitrary: this acc lr k)
  case Nil
  then show ?case by simp
next
  case (Cons cur rest)
  from Cons.prems(2) obtain this1 w lr1 where
    tok: "WordCase_token method reg p cnt k cur this = Inr (this1, w, lr1)"
    and rest: "WordCase_loop method reg p cnt (Suc k) rest this1 (acc @ [w]) lr1 = Inr (this', ws, lr')"
    by (auto split: sum.splits)
  from WordCase_token_ok[OF m Cons.prems(1) n1 tok]
  have c1: "CaseCount this1 = n" and ok: "token_ok ex n cur w" by simp_all
  from Cons.IH[OF c1 rest] obtain new where
    "CaseCount this' = n" "ws = (acc @ [w]) @ new" "list_all2 (token_ok ex n) rest new"
    by blast
  with ok show ?case by (intro conjI exI[of _ "w # new"]) simp_all
qed

text \<open>Splitting at hyphens and joining again.\<close>

lemma js_split_not_Nil [simp]: "js_split sep s \<noteq> []"
  by (induction s) (auto split: list.splits)


lemma js_split_free: "p \<in> set (js_split sep s) \<Longrightarrow> sep \<notin> set p"
proof (induction s arbitrary: p)
  case Nil
  then show ?case by simp
next
  case (Cons c cs)
  show ?case
  proof (cases "c = sep")
    case True
    with Cons show ?thesis by auto
  next
    case False
    obtain q qs where q: "js_split sep cs = q # qs"
      by (cases "js_split sep cs") simp_all
    with Cons False show ?thesis by auto
  qed
qed



text \<open>Gluing lists of the same length position by position.\<close>

lemma js_join_glued:
  "js_join sep ((a @ sep @ b) # xs) = a @ sep @ js_join sep (b # xs)"
  by (cases xs) simp_all

lemma WordCase_glue_same_length:
  "length r = length f \<Longrightarrow>
   WordCase_glue r f = map (\<lambda>(a, b). a @ [c_hyphen] @ b) (zip r f)"
  by (induction r f rule: WordCase_glue.induct) simp_all

lemma foldl_WordCase_glue:
  assumes "\<forall>f\<in>set fs. length f = n"
  shows "length r = n \<Longrightarrow>
    foldl WordCase_glue r fs = map (\<lambda>i. js_join [c_hyphen] (r ! i # map (\<lambda>f. f ! i) fs)) [0..<n]"
  using assms
proof (induction fs arbitrary: r)
  case Nil
  then show ?case by (auto intro: nth_equalityI)
next
  case (Cons f fs)
  then have lf: "length f = n" by simp
  have g: "WordCase_glue r f = map (\<lambda>i. r ! i @ [c_hyphen] @ f ! i) [0..<n]"
    using Cons.prems(1) lf
    by (simp add: WordCase_glue_same_length) (rule nth_equalityI, simp_all)
  then have lg: "length (WordCase_glue r f) = n" by simp
  have "foldl WordCase_glue (WordCase_glue r f) fs =
        map (\<lambda>i. js_join [c_hyphen] (WordCase_glue r f ! i # map (\<lambda>f. f ! i) fs)) [0..<n]"
    using Cons.prems(2) by (intro Cons.IH[OF lg]) simp
  also have "\<dots> = map (\<lambda>i. js_join [c_hyphen] (r ! i # map (\<lambda>f. f ! i) (f # fs))) [0..<n]"
    using js_join_glued[of "[c_hyphen]"] by (intro map_cong) (simp_all add: g)
  finally show ?case by simp
qed

lemma foldl_WordCase_glue_Nil:
  assumes "\<forall>f\<in>set fs. length f = n" and "fs \<noteq> []"
  shows "foldl WordCase_glue [] fs = map (\<lambda>i. js_join [c_hyphen] (map (\<lambda>f. f ! i) fs)) [0..<n]"
proof -
  obtain f rest where fs: "fs = f # rest" using assms(2) by (cases fs) auto
  with assms(1) have lf: "length f = n" and r: "\<forall>f\<in>set rest. length f = n" by simp_all
  have "foldl WordCase_glue [] fs = foldl WordCase_glue f rest"
    by (simp add: fs)
  also have "\<dots> = map (\<lambda>i. js_join [c_hyphen] (f ! i # map (\<lambda>f. f ! i) rest)) [0..<n]"
    using r lf by (intro foldl_WordCase_glue) simp_all
  finally show ?thesis by (simp add: fs)
qed


lemma word_gender_fields:
  "word_gender w = (g, w') \<Longrightarrow>
   word_orig w' = word_orig w \<and> namePart w' = namePart w \<and> NameCases w' = NameCases w
   \<and> word w' = word w"
  by (auto simp: word_gender_def split: if_splits)

lemma WordCase_forms:
  fixes w :: "('s::{zero,ord}) NCLNameCaseWord"
  assumes m: "\<And>g p. declines ex n (nameMethod L g p)"
    and n: "CaseCount this = n" "1 \<le> n"
    and r: "WordCase L reg this w = Inr (this', w')"
  shows "CaseCount this' = n \<and> word_orig w' = word_orig w \<and> namePart w' = namePart w \<and>
    (\<exists>ws :: 's NCLNameCaseWord list.
       list_all2 (token_ok ex n) (js_split c_hyphen (word_orig w)) ws \<and>
       NameCases w' = map (\<lambda>i. js_join [c_hyphen] (map (\<lambda>v. NameCases v ! i) ws)) [0..<n])"
proof -
  obtain g w1 where g: "word_gender w = (g, w1)" by (cases "word_gender w")
  note f = word_gender_fields[OF g]
  from r g obtain p where p: "namePart w1 = Some p"
    by (auto simp: WordCase_def Let_def getNamePart_def split: option.splits)
  let ?meth = "nameMethod L (if g = MAN then man else woman) p"
  let ?curs = "js_split c_hyphen (word_orig w)"
  from r g p f obtain ws lr where
    loop: "WordCase_loop ?meth reg (Some p) (length ?curs) 0 ?curs this [] (- 1) = Inr (this', ws, lr)"
    and w': "w' = setRule lr (setNameCases (foldl WordCase_glue [] (map getNameCases ws)) False w1)"
    by (auto simp: WordCase_def Let_def getNamePart_def getWordOrig_def split: sum.splits)
  from WordCase_loop_ok[OF m n(2) n(1) loop]
  have c: "CaseCount this' = n" and ok: "list_all2 (token_ok ex n) ?curs ws" by auto
  from ok have len: "\<forall>f\<in>set (map getNameCases ws). length f = n"
    by (auto simp: list_all2_conv_all_nth in_set_conv_nth token_ok_def getNameCases_def)
  from ok have "length ws = length ?curs" by (simp add: list_all2_lengthD)
  then have ne: "map getNameCases ws \<noteq> []" by auto
  have "NameCases w' = foldl WordCase_glue [] (map getNameCases ws)"
    by (simp add: w' setRule_def setNameCases_def)
  also have "\<dots> = map (\<lambda>i. js_join [c_hyphen] (map (\<lambda>f. f ! i) (map getNameCases ws))) [0..<n]"
    using len ne by (rule foldl_WordCase_glue_Nil)
  also have "\<dots> = map (\<lambda>i. js_join [c_hyphen] (map (\<lambda>v. NameCases v ! i) ws)) [0..<n]"
    by (simp add: getNameCases_def comp_def)
  finally have nc: "NameCases w' = map (\<lambda>i. js_join [c_hyphen] (map (\<lambda>v. NameCases v ! i) ws)) [0..<n]" .
  have "word_orig w' = word_orig w" "namePart w' = namePart w"
    using f by (simp_all add: w' setRule_def setNameCases_def)
  with c ok nc show ?thesis by blast
qed

lemma WordCase_length:
  fixes w :: "('s::{zero,ord}) NCLNameCaseWord"
  assumes "\<And>g p. declines ex n (nameMethod L g p)" "CaseCount this = n" "1 \<le> n"
    "WordCase L reg this w = Inr (this', w')"
  shows "length (NameCases w') = n" "CaseCount this' = n"
  using WordCase_forms[OF assms] by auto




text \<open>The working state keeps its case count through the preparation pass.\<close>

lemma CaseCount_setWorkingWord [simp]: "CaseCount (setWorkingWord s this) = CaseCount this"
  by (simp add: setWorkingWord_def reset_def)

lemma CaseCount_prepareNamePart:
  "prepareNamePart H (this, w) = (this', w') \<Longrightarrow> CaseCount this' = CaseCount this"
  by (auto simp: prepareNamePart_def Let_def split: if_splits)

lemma CaseCount_prepareAllNameParts:
  "prepareAllNameParts H this ws = (this', ws') \<Longrightarrow> CaseCount this' = CaseCount this"
proof (induction ws arbitrary: this this' ws')
  case Nil
  then show ?case by simp
next
  case (Cons w ws)
  obtain t1 w1 where a: "prepareNamePart H (this, w) = (t1, w1)"
    by (cases "prepareNamePart H (this, w)")
  obtain t2 ws1 where b: "prepareAllNameParts H t1 ws = (t2, ws1)"
    by (cases "prepareAllNameParts H t1 ws")
  from Cons.prems a b have "this' = t2" by simp
  with Cons.IH[OF b] CaseCount_prepareNamePart[OF a] show ?case by simp
qed

lemma CaseCount_prepareGender:
  "prepareGender L H (this, w) = (this', w') \<Longrightarrow> CaseCount this' = CaseCount this"
  by (auto simp: prepareGender_def Let_def split: if_splits option.splits)

lemma CaseCount_solveGender_sum:
  "solveGender_sum L H this ws m f = (this', ws', m', f') \<Longrightarrow> CaseCount this' = CaseCount this"
proof (induction ws arbitrary: this this' ws' m f m' f')
  case Nil
  then show ?case by simp
next
  case (Cons w ws)
  obtain t1 w1 where a: "prepareGender L H (this, w) = (t1, w1)"
    by (cases "prepareGender L H (this, w)")
  obtain t2 ws1 m2 f2 where
    b: "solveGender_sum L H t1 ws (m + genderMan w1) (f + genderWoman w1) = (t2, ws1, m2, f2)"
    by (cases "solveGender_sum L H t1 ws (m + genderMan w1) (f + genderWoman w1)")
  from Cons.prems a b have "this' = t2" by (simp add: getGender_def)
  with Cons.IH[OF b] CaseCount_prepareGender[OF a] show ?case by simp
qed

lemma CaseCount_solveGender: "CaseCount (wk (solveGender L H this)) = CaseCount (wk this)"
proof (cases "solveGender_solved (words this)")
  case (Some g)
  then show ?thesis by (simp add: solveGender_def setGender_def)
next
  case None
  obtain t1 ws1 m f where s: "solveGender_sum L H (wk this) (words this) 0 0 = (t1, ws1, m, f)"
    by (cases "solveGender_sum L H (wk this) (words this) 0 0")
  with None CaseCount_solveGender_sum[OF s] show ?thesis
    by (simp add: solveGender_def setGender_def Let_def)
qed

lemma CaseCount_prepareEverything:
  "prepareEverything L H this = Inr this' \<Longrightarrow> CaseCount (wk this') = CaseCount (wk this)"
proof -
  assume r: "prepareEverything L H this = Inr this'"
  show ?thesis
  proof (cases "ready this")
    case True
    with r show ?thesis by (simp add: prepareEverything_def)
  next
    case False
    obtain t1 ws1 where a: "prepareAllNameParts H (wk this) (words this) = (t1, ws1)"
      by (cases "prepareAllNameParts H (wk this) (words this)")
    let ?e2 = "solveGender L H (this\<lparr>wk := t1, words := ws1\<rparr>)"
    from r False a obtain e3 where g: "generateIndex ?e2 = Inr e3" and e: "this' = e3\<lparr>ready := True\<rparr>"
      by (auto simp: prepareEverything_def split: sum.splits)
    from g have "wk e3 = wk ?e2" by (auto simp: generateIndex_def split: sum.splits)
    with e CaseCount_solveGender[of L H "this\<lparr>wk := t1, words := ws1\<rparr>"]
      CaseCount_prepareAllNameParts[OF a]
    show ?thesis by simp
  qed
qed

lemma AllWordCases_loop_length:
  fixes ws :: "('s::{zero,ord}) NCLNameCaseWord list"
  assumes m: "\<And>g p. declines ex n (nameMethod L g p)" and n1: "1 \<le> n"
  shows "CaseCount this = n \<Longrightarrow> AllWordCases_loop L reg this ws = Inr (this', ws') \<Longrightarrow>
         \<forall>v\<in>set ws'. length (NameCases v) = n"
proof (induction ws arbitrary: this this' ws')
  case Nil
  then show ?case by simp
next
  case (Cons w ws)
  from Cons.prems(2) obtain t1 w1 t2 ws1 where
    a: "WordCase L reg this w = Inr (t1, w1)"
    and b: "AllWordCases_loop L reg t1 ws = Inr (t2, ws1)" and c: "ws' = w1 # ws1"
    by (auto split: sum.splits)
  from WordCase_length[OF m Cons.prems(1) n1 a]
  have "length (NameCases w1) = n" "CaseCount t1 = n" by simp_all
  with Cons.IH[OF _ b] c show ?case by simp
qed

lemma AllWordCases_length:
  fixes this :: "('s::{zero,plus,ord}) NCLNameCaseCore"
  assumes m: "\<And>g p. declines ex n (nameMethod L g p)" and n1: "1 \<le> n"
    and c: "CaseCount (wk this) = n" and nf: "\<not> finished this"
    and r: "AllWordCases L H reg this = Inr this'"
  shows "\<forall>v\<in>set (words this'). length (NameCases v) = n"
proof -
  from r nf obtain e1 t2 ws1 where
    p: "prepareEverything L H this = Inr e1"
    and l: "AllWordCases_loop L reg (wk e1) (words e1) = Inr (t2, ws1)"
    and e: "this' = e1\<lparr>wk := t2, words := ws1, finished := True\<rparr>"
    by (auto simp: AllWordCases_def split: sum.splits)
  from CaseCount_prepareEverything[OF p] c have "CaseCount (wk e1) = n" by simp
  from AllWordCases_loop_length[OF m n1 this l] e show ?thesis by simp
qed


lemma replicate_numeral: "replicate (numeral k) x = x # replicate (pred_numeral k) x"
  by (simp add: numeral_eq_Suc)

lemmas eval_defs = replicate_numeral
  lower_char_def upper_char_def strtolower_def strtoupper_def isLowerCase_def
  splitLetters_def strlen_def substr_def js_slice_def MAN_def WOMAN_def generateMask_def
  new_NCLNameCaseWord_def returnMask_case_def returnMask_def setNameCases_def
  word_gender_def word_setGender_def setTrueGender_def getGender_def setNamePart_def
  getNamePart_def getWord_def getWordOrig_def getNameCases_def isGenderSolved_def
  setRule_def reset_def Rule_def setWorkingWord_def makeResultTheSame_def Last_def
  toLowerCase_def in_str_def in_list_def js_undefined_def ending_at_def wordForms_def
  pure_rule_def new_work_def core_heuristics_def getConcreteClass_def setConcreteClasses_def
  ru_vowels_def ru_consonant_def ru_ovo_def ru_ih_def ru_manRule1_def ru_manRule2_def
  ru_manRule3_def ru_manRule4_def ru_manRule5_def ru_manRule6_def ru_manRule7_def
  ru_manRule8_def ru_womanRule1_def ru_womanRule2_def ru_womanRule3_def ru_womanRule4_def
  ru_manFirstName_def ru_womanFirstName_def ru_manSecondName_def ru_womanSecondName_def
  ru_manFatherName_def ru_womanFatherName_def GenderByFatherName_impl_def NCLNameCaseRu_def
  ua_vowels_def ua_consonant_def ua_shyplyachi_def ua_neshyplyachi_def ua_myaki_def
  ua_gubni_def inverseGKH_def isApostrof_def inverse2_def detect2Group_def
  FirstLastVowel_def getOsnova_def strrpos_def ua_manRule1_def ua_manRule2_def
  ua_manRule3_osnova_def ua_manRule3_def ua_manRule4_def ua_manRule5_def ua_womanRule1_def
  ua_womanRule2_def ua_womanRule3_def ua_manFirstName_def ua_womanFirstName_def
  ua_manSecondName_def ua_womanSecondName_def ua_manFatherName_def ua_womanFatherName_def
  NCLNameCaseUa_def new_NCLNameCaseCore_def notReady_def fullReset_def setFirstName_def
  setSecondName_def setFatherName_def setGender_def setFullName_def prepareNamePart_def
  prepareGender_def solveGender_def generateIndex_def prepareEverything_def exclusion_def
  WordCase_norm_def WordCase_token_def WordCase_def AllWordCases_def getWordCase_def
  is_JArr_def js_elem_def js_to_string_def js_join_elem_def getCasesConnected_def
  getNameCase_of_def getFirstNameCase_def getSecondNameCase_def getFatherNameCase_def
  js_space_def js_trim_def case_or_undefined_def getFormattedArrayHard_def
  getFormattedArray_def getFormattedHard_def getFormatted_def module_scope_def
  splitFullName_def name_Taras_def
  name_Shevchenko_def name_Otto_def name_Toulouse_Lotrok_def name_Ivanov_Petrov_def
  a_word_def ru_engine_def ua_engine_def index_js_def name_Ivanov_def name_Toulouse_def
  says_surname_def name_Hryhorovych_def ru_engine_open_def deref_def sub_word_def
  alone_forms_def name_Petrov_def name_Lotrok_def forms_Ivanov_ua_def forms_Petrov_ua_def
  forms_Lotrok_ru_def forms_Petrov_ru_def full_name_Shevchenko_def template_S_F_def
  template_N_F_S_def
  returnMask_letters.simps cut_vowels.simps upt_rec Let_def

text \<open>The examples, evaluated.\<close>

lemma eval_Taras_ru:
  "(case WordCase NCLNameCaseRu None (new_work (NCLNameCaseRu :: int lang)) (a_word N MAN name_Taras) of
      Inr (this', w') \<Rightarrow> (CaseCount this', NameCases w', rule w')
    | Inl err \<Rightarrow> (0, [], 0))
   = (6, [[C_T, c_a, c_r, c_a, c_s], [C_T, c_a, c_r, c_a, c_s, c_a], [C_T, c_a, c_r, c_a, c_s, c_u], [C_T, c_a, c_r, c_a, c_s, c_a], [C_T, c_a, c_r, c_a, c_s, c_o, c_m], [C_T, c_a, c_r, c_a, c_s, c_e]], 204)"
  by (simp add: eval_defs)

lemma eval_Shevchenko_ua:
  "(case WordCase NCLNameCaseUa None (new_work (NCLNameCaseUa :: int lang)) (a_word S MAN name_Shevchenko) of
      Inr (this', w') \<Rightarrow> (CaseCount this', map (drop 6) (NameCases w'), rule w')
    | Inl err \<Rightarrow> (0, [], 0))
   = (7, [[c_k, c_o], [c_k, c_a], [c_k, c_o, c_v, c_ii], [c_k, c_a], [c_k, c_o, c_m], [c_k, c_o, c_v, c_ii], [c_ch, c_e]], 304)"
  by (simp add: eval_defs)

lemma eval_Toulouse_ru:
  "(case WordCase NCLNameCaseRu None (new_work (NCLNameCaseRu :: int lang))
           (a_word S MAN name_Toulouse_Lotrok) of
      Inr (this', w') \<Rightarrow> (CaseCount this', NameCases w', rule w')
    | Inl err \<Rightarrow> (0, [], 0))
   = (6, [[C_T, c_u, c_l, c_u, c_z, c_hyphen, C_L, c_o, c_t, c_r, c_o, c_k], [C_T, c_u, c_l, c_u, c_z, c_hyphen, C_L, c_o, c_t, c_r, c_o, c_k, c_a], [C_T, c_u, c_l, c_u, c_z, c_hyphen, C_L, c_o, c_t, c_r, c_o, c_k, c_u], [C_T, c_u, c_l, c_u, c_z, c_hyphen, C_L, c_o, c_t, c_r, c_o, c_k, c_a], [C_T, c_u, c_l, c_u, c_z, c_hyphen, C_L, c_o, c_t, c_r, c_o, c_k, c_o, c_m], [C_T, c_u, c_l, c_u, c_z, c_hyphen, C_L, c_o, c_t, c_r, c_o, c_k, c_e]], 503)"
  by (simp add: eval_defs)

lemma eval_AllWordCases_ru:
  "(case AllWordCases NCLNameCaseRu core_heuristics None (ru_engine name_Taras) of
      Inr this' \<Rightarrow> (map NameCases (words this'), index this' N, index this' S, index this' F,
                     CaseCount (wk this'), finished this')
    | Inl err \<Rightarrow> ([], None, None, None, 0, False))
   = ([[[C_T, c_a, c_r, c_a, c_s], [C_T, c_a, c_r, c_a, c_s, c_a], [C_T, c_a, c_r, c_a, c_s, c_u], [C_T, c_a, c_r, c_a, c_s, c_a], [C_T, c_a, c_r, c_a, c_s, c_o, c_m], [C_T, c_a, c_r, c_a, c_s, c_e]]], Some [0], Some [], Some [], 6, True)"
  by (simp add: eval_defs)

text \<open>
  Claim C6.  A word declined by \<^verbatim>\<open>WordCase\<close> holds exactly as many case forms as the
  language has cases: six with the rules of the Russian class, seven with those of the
  Ukrainian class, whichever rule matched, also after the fallback and after hyphenated
  parts were put together.  The same holds for every word of an engine after
  \<^verbatim>\<open>AllWordCases\<close> has run its pass.
\<close>

theorem case_count_invariant:
  fixes w w' :: "('s::{zero,numeral,ord}) NCLNameCaseWord"
    and this_e this_e' :: "('t::{zero,numeral,plus,ord}) NCLNameCaseCore"
  shows
    "(CaseCount this = 6 \<and> WordCase NCLNameCaseRu reg this w = Inr (this', w')
        \<longrightarrow> length (NameCases w') = 6)
   \<and> (CaseCount this = 7 \<and> WordCase NCLNameCaseUa reg this w = Inr (this', w')
        \<longrightarrow> length (NameCases w') = 7)
   \<and> (CaseCount (wk this_e) = 6 \<and> \<not> finished this_e
        \<and> AllWordCases NCLNameCaseRu H reg_e this_e = Inr this_e'
        \<longrightarrow> (\<forall>v\<in>set (words this_e'). length (NameCases v) = 6))
   \<and> (CaseCount (wk this_e) = 7 \<and> \<not> finished this_e
        \<and> AllWordCases NCLNameCaseUa H reg_e this_e = Inr this_e'
        \<longrightarrow> (\<forall>v\<in>set (words this_e'). length (NameCases v) = 7))"
proof (intro conjI impI)
  assume "CaseCount this = 6 \<and> WordCase NCLNameCaseRu reg this w = Inr (this', w')"
  then show "length (NameCases w') = 6"
    using WordCase_length(1)[of ru_table_name 6 NCLNameCaseRu this reg w this' w']
    by (simp add: NCLNameCaseRu_def declines_ru_nameMethod)
next
  assume "CaseCount this = 7 \<and> WordCase NCLNameCaseUa reg this w = Inr (this', w')"
  then show "length (NameCases w') = 7"
    using WordCase_length(1)[of no_name 7 NCLNameCaseUa this reg w this' w']
    by (simp add: NCLNameCaseUa_def declines_ua_nameMethod)
next
  assume "CaseCount (wk this_e) = 6 \<and> \<not> finished this_e
        \<and> AllWordCases NCLNameCaseRu H reg_e this_e = Inr this_e'"
  then show "\<forall>v\<in>set (words this_e'). length (NameCases v) = 6"
    using AllWordCases_length[of ru_table_name 6 NCLNameCaseRu this_e H reg_e this_e']
    by (simp add: NCLNameCaseRu_def declines_ru_nameMethod)
next
  assume "CaseCount (wk this_e) = 7 \<and> \<not> finished this_e
        \<and> AllWordCases NCLNameCaseUa H reg_e this_e = Inr this_e'"
  then show "\<forall>v\<in>set (words this_e'). length (NameCases v) = 7"
    using AllWordCases_length[of no_name 7 NCLNameCaseUa this_e H reg_e this_e']
    by (simp add: NCLNameCaseUa_def declines_ua_nameMethod)
qed

theorem case_count_invariant_witness:
  "CaseCount (new_work (NCLNameCaseRu :: int lang)) = 6
   \<and> (case WordCase NCLNameCaseRu None (new_work (NCLNameCaseRu :: int lang)) (a_word N MAN name_Taras) of
        Inr (this', w') \<Rightarrow> length (NameCases w') = 6 | Inl err \<Rightarrow> False)
   \<and> CaseCount (new_work (NCLNameCaseUa :: int lang)) = 7
   \<and> (case WordCase NCLNameCaseUa None (new_work (NCLNameCaseUa :: int lang)) (a_word S MAN name_Shevchenko) of
        Inr (this', w') \<Rightarrow> length (NameCases w') = 7 | Inl err \<Rightarrow> False)
   \<and> CaseCount (wk (ru_engine name_Taras)) = 6 \<and> \<not> finished (ru_engine name_Taras)
   \<and> (case AllWordCases NCLNameCaseRu core_heuristics None (ru_engine name_Taras) of
        Inr this' \<Rightarrow> list_all (\<lambda>v. length (NameCases v) = 6) (words this') \<and> words this' \<noteq> []
      | Inl err \<Rightarrow> False)"
proof -
  obtain t1 w1 where r1:
    "WordCase NCLNameCaseRu None (new_work (NCLNameCaseRu :: int lang)) (a_word N MAN name_Taras) = Inr (t1, w1)"
    using eval_Taras_ru by (auto split: sum.splits)
  obtain t2 w2 where r2:
    "WordCase NCLNameCaseUa None (new_work (NCLNameCaseUa :: int lang)) (a_word S MAN name_Shevchenko) = Inr (t2, w2)"
    using eval_Shevchenko_ua by (auto split: sum.splits)
  obtain e3 where r3:
    "AllWordCases NCLNameCaseRu core_heuristics None (ru_engine name_Taras) = Inr e3"
    and ne: "words e3 \<noteq> []"
    using eval_AllWordCases_ru by (auto split: sum.splits)
  have c1: "CaseCount (new_work (NCLNameCaseRu :: int lang)) = 6"
    and c2: "CaseCount (new_work (NCLNameCaseUa :: int lang)) = 7"
    and c3: "CaseCount (wk (ru_engine name_Taras)) = 6" "\<not> finished (ru_engine name_Taras)"
    by (simp_all add: eval_defs)
  note inst1 = case_count_invariant
    [of "new_work (NCLNameCaseRu :: int lang)" None "a_word N MAN name_Taras" t1 w1
        "ru_engine name_Taras" core_heuristics None e3]
  note inst2 = case_count_invariant
    [of "new_work (NCLNameCaseUa :: int lang)" None "a_word S MAN name_Shevchenko" t2 w2
        "ru_engine name_Taras" core_heuristics None e3]
  from inst1 r1 c1 have "length (NameCases w1) = 6" by simp
  moreover from inst2 r2 c2 have "length (NameCases w2) = 7" by simp
  moreover from inst1 r3 c3 have "\<forall>v\<in>set (words e3). length (NameCases v) = 6" by simp
  ultimately show ?thesis
    using r1 r2 r3 c1 c2 c3 ne by (simp add: list_all_iff)
qed






lemma js_split_no_sep: "sep \<notin> set s \<Longrightarrow> js_split sep s = [s]"
  by (induction s) auto

lemma RulesChain_append:
  "RulesChain tab g (xs @ ys) this =
     (case RulesChain tab g xs this of
        Inl err \<Rightarrow> Inl err
      | Inr (ok, this1) \<Rightarrow> if ok then Inr (True, this1) else RulesChain tab g ys this1)"
proof (induction xs arbitrary: this)
  case Nil
  then show ?case by simp
next
  case (Cons x xs)
  show ?case
  proof (cases "tab g x")
    case None
    then show ?thesis by simp
  next
    case (Some r)
    show ?thesis
    proof (cases "r this")
      case (Inl err)
      with Some show ?thesis by simp
    next
      case (Inr res)
      obtain ok this1 where res: "res = (ok, this1)" by (cases res)
      with Some Inr Cons.IH[of this1] show ?thesis by (cases ok) simp_all
    qed
  qed
qed

lemma getWord_new [simp]:
  "getWord (new_NCLNameCaseWord s :: ('s::zero) NCLNameCaseWord) = strtolower s"
  by (simp add: getWord_def new_NCLNameCaseWord_def generateMask_def split: prod.splits)

lemma WordCase_token_not_norm:
  fixes o_ncw :: "('s::zero) NCLNameCaseWord"
  assumes "WordCase_norm reg p cnt k cur (new_NCLNameCaseWord cur) = Inr (False, o_ncw)"
  shows "\<exists>w :: 's NCLNameCaseWord.
           WordCase_token meth reg p cnt k cur this = Inr (setWorkingWord cur this, w, - 1)
           \<and> NameCases w = replicate (CaseCount this) cur"
proof -
  have om: "own_mask cur o_ncw"
    using WordCase_norm_mask[OF assms own_mask_new] .
  have "NameCases (setNameCases (replicate (CaseCount this) cur) True o_ncw)
          = replicate (CaseCount this) cur"
    using om by (rule setNameCases_mask(4)) simp
  with assms show ?thesis
    by (simp add: WordCase_token_def Let_def)
qed

lemma WordCase_token_declined:
  fixes o_ncw :: "('s::zero) NCLNameCaseWord"
  assumes n: "WordCase_norm reg p cnt k cur (new_NCLNameCaseWord cur) = Inr (True, o_ncw)"
    and m: "meth (setWorkingWord cur this) = Inr (False, this2)"
  shows "\<exists>w :: 's NCLNameCaseWord.
           WordCase_token meth reg p cnt k cur this = Inr (this2, w, - 1)
           \<and> NameCases w = replicate (CaseCount this2) cur"
proof -
  have om: "own_mask cur o_ncw"
    using WordCase_norm_mask[OF n own_mask_new] .
  have "NameCases (setNameCases (replicate (CaseCount this2) cur) True o_ncw)
          = replicate (CaseCount this2) cur"
    using om by (rule setNameCases_mask(4)) simp
  with n m show ?thesis
    by (simp add: WordCase_token_def Let_def)
qed

lemma WordCase_norm_plain:
  "\<not> (p = Some S \<and> cnt > 1 \<and> Suc k < cnt) \<Longrightarrow> WordCase_norm reg p cnt k cur o_ncw = Inr (True, o_ncw)"
  by (auto simp: WordCase_norm_def)

lemma WordCase_declined_whole:
  fixes w :: "('s::{zero,ord}) NCLNameCaseWord"
  assumes h: "c_hyphen \<notin> set (word_orig w)" and p: "namePart w = Some p"
    and m: "nameMethod L (if fst (word_gender w) = MAN then man else woman) p
              (setWorkingWord (word_orig w) this) = Inr (False, this2)"
  shows "\<exists>w'. WordCase L reg this w = Inr (this2, w')
           \<and> NameCases w' = replicate (CaseCount this2) (word_orig w) \<and> rule w' = - 1"
proof -
  obtain g w1 where g: "word_gender w = (g, w1)" by (cases "word_gender w")
  note f = word_gender_fields[OF g]
  let ?meth = "nameMethod L (if g = MAN then man else woman) p"
  have n: "WordCase_norm reg (Some p) 1 0 (word_orig w)
             (new_NCLNameCaseWord (word_orig w) :: 's NCLNameCaseWord)
           = Inr (True, new_NCLNameCaseWord (word_orig w))"
    by (rule WordCase_norm_plain) simp
  from m g have m': "?meth (setWorkingWord (word_orig w) this) = Inr (False, this2)" by simp
  from WordCase_token_declined[where meth = ?meth and this = this, OF n m'] obtain v :: "'s NCLNameCaseWord" where
    tok: "WordCase_token ?meth reg (Some p) 1 0 (word_orig w) this = Inr (this2, v, - 1)"
    and nc: "NameCases v = replicate (CaseCount this2) (word_orig w)"
    by blast
  have "WordCase L reg this w =
          Inr (this2, setRule (- 1) (setNameCases (WordCase_glue [] (getNameCases v)) False w1))"
    using g f p tok h
    by (simp add: WordCase_def Let_def getNamePart_def getWordOrig_def js_split_no_sep)
  then show ?thesis
    using nc by (simp add: setRule_def setNameCases_def getNameCases_def)
qed

text \<open>
  Claim C5.  \<^verbatim>\<open>RulesChain\<close> over a list of rule numbers: the empty chain reports no
  match; a chain of one number calls the method of that number (an error when the class
  has none) and reports what it reports; a chain \<open>xs @ ys\<close> runs \<open>xs\<close> first, stops with
  success when \<open>xs\<close> succeeds, and otherwise goes on with \<open>ys\<close> from the state \<open>xs\<close> left.
  So the rules run in the order given and the first success ends the chain.  When the
  declension method of a sub-token reports no match, the loop of \<^verbatim>\<open>WordCase\<close> returns
  normally with \<^verbatim>\<open>CaseCount\<close> copies of the sub-token and the rule number \<open>-1\<close>; for a
  token without hyphens \<^verbatim>\<open>WordCase\<close> stores exactly that in the word.
\<close>

theorem RulesChain_first_match_and_identity_fallback:
  fixes w :: "('s::{zero,ord}) NCLNameCaseWord" and o_ncw :: "('t::zero) NCLNameCaseWord"
  shows
    "RulesChain tab g [] this = Inr (False, this)
   \<and> RulesChain tab g [ruleID] this =
       (case tab g ruleID of
          None \<Rightarrow> Inl MethodNotFound
        | Some ruleMethod \<Rightarrow>
            (case ruleMethod this of Inl err \<Rightarrow> Inl err | Inr (ok, this1) \<Rightarrow> Inr (ok, this1)))
   \<and> RulesChain tab g (xs @ ys) this =
       (case RulesChain tab g xs this of
          Inl err \<Rightarrow> Inl err
        | Inr (ok, this1) \<Rightarrow> if ok then Inr (True, this1) else RulesChain tab g ys this1)
   \<and> (WordCase_norm reg p cnt k cur (new_NCLNameCaseWord cur) = Inr (True, o_ncw)
        \<and> meth (setWorkingWord cur this) = Inr (False, this2)
      \<longrightarrow> (\<exists>v :: 't NCLNameCaseWord.
             WordCase_token meth reg p cnt k cur this = Inr (this2, v, - 1)
             \<and> NameCases v = replicate (CaseCount this2) cur))
   \<and> (c_hyphen \<notin> set (word_orig w) \<and> namePart w = Some q
        \<and> nameMethod L (if fst (word_gender w) = MAN then man else woman) q
            (setWorkingWord (word_orig w) this) = Inr (False, this2)
      \<longrightarrow> (\<exists>w'. WordCase L reg' this w = Inr (this2, w')
             \<and> NameCases w' = replicate (CaseCount this2) (word_orig w) \<and> rule w' = - 1))"
proof (intro conjI impI)
  show "RulesChain tab g [] this = Inr (False, this)" by simp
  show "RulesChain tab g [ruleID] this =
       (case tab g ruleID of
          None \<Rightarrow> Inl MethodNotFound
        | Some ruleMethod \<Rightarrow>
            (case ruleMethod this of Inl err \<Rightarrow> Inl err | Inr (ok, this1) \<Rightarrow> Inr (ok, this1)))"
    by (auto split: option.splits sum.splits)
  show "RulesChain tab g (xs @ ys) this =
       (case RulesChain tab g xs this of
          Inl err \<Rightarrow> Inl err
        | Inr (ok, this1) \<Rightarrow> if ok then Inr (True, this1) else RulesChain tab g ys this1)"
    by (rule RulesChain_append)
next
  assume "WordCase_norm reg p cnt k cur (new_NCLNameCaseWord cur) = Inr (True, o_ncw)
        \<and> meth (setWorkingWord cur this) = Inr (False, this2)"
  then show "\<exists>v :: 't NCLNameCaseWord.
             WordCase_token meth reg p cnt k cur this = Inr (this2, v, - 1)
             \<and> NameCases v = replicate (CaseCount this2) cur"
    using WordCase_token_declined[of reg p cnt k cur o_ncw meth this this2] by simp
next
  assume "c_hyphen \<notin> set (word_orig w) \<and> namePart w = Some q
        \<and> nameMethod L (if fst (word_gender w) = MAN then man else woman) q
            (setWorkingWord (word_orig w) this) = Inr (False, this2)"
  then show "\<exists>w'. WordCase L reg' this w = Inr (this2, w')
             \<and> NameCases w' = replicate (CaseCount this2) (word_orig w) \<and> rule w' = - 1"
    using WordCase_declined_whole[of w q L this this2 reg'] by simp
qed

lemma eval_Otto_ru:
  "nameMethod (NCLNameCaseRu :: int lang) man N
     (setWorkingWord name_Otto (new_work (NCLNameCaseRu :: int lang)))
   = Inr (False, setWorkingWord name_Otto (new_work (NCLNameCaseRu :: int lang)))"
  by (simp add: eval_defs)

theorem RulesChain_first_match_and_identity_fallback_witness:
  "c_hyphen \<notin> set (word_orig (a_word N MAN name_Otto))
   \<and> namePart (a_word N MAN name_Otto) = Some N
   \<and> fst (word_gender (a_word N MAN name_Otto)) = MAN
   \<and> nameMethod (NCLNameCaseRu :: int lang) man N
        (setWorkingWord name_Otto (new_work (NCLNameCaseRu :: int lang)))
      = Inr (False, setWorkingWord name_Otto (new_work (NCLNameCaseRu :: int lang)))
   \<and> WordCase_norm None (Some N) 1 0 name_Otto (new_NCLNameCaseWord name_Otto :: int NCLNameCaseWord)
      = Inr (True, new_NCLNameCaseWord name_Otto)
   \<and> (case WordCase_token (nameMethod (NCLNameCaseRu :: int lang) man N) None (Some N) 1 0 name_Otto
             (new_work (NCLNameCaseRu :: int lang)) of
        Inr (this', v :: int NCLNameCaseWord, last_rule) \<Rightarrow>
          NameCases v = replicate 6 name_Otto \<and> last_rule = - 1
      | Inl err \<Rightarrow> False)
   \<and> (case WordCase NCLNameCaseRu None (new_work (NCLNameCaseRu :: int lang)) (a_word N MAN name_Otto) of
        Inr (this', w') \<Rightarrow> NameCases w' = replicate 6 name_Otto \<and> rule w' = - 1
      | Inl err \<Rightarrow> False)"
proof -
  have h: "c_hyphen \<notin> set (word_orig (a_word N MAN name_Otto))"
    and p: "namePart (a_word N MAN name_Otto) = Some N"
    and g: "fst (word_gender (a_word N MAN name_Otto)) = MAN"
    and o: "word_orig (a_word N MAN name_Otto) = name_Otto"
    and c: "CaseCount (setWorkingWord name_Otto (new_work (NCLNameCaseRu :: int lang))) = 6"
    by (simp_all add: eval_defs)
  have n: "WordCase_norm None (Some N) 1 0 name_Otto (new_NCLNameCaseWord name_Otto :: int NCLNameCaseWord)
      = Inr (True, new_NCLNameCaseWord name_Otto)"
    by (simp add: WordCase_norm_def)
  note inst = RulesChain_first_match_and_identity_fallback
    [where reg = None and p = "Some N" and cnt = 1 and k = 0 and cur = name_Otto
       and o_ncw = "new_NCLNameCaseWord name_Otto :: int NCLNameCaseWord"
       and meth = "nameMethod (NCLNameCaseRu :: int lang) man N"
       and this = "new_work (NCLNameCaseRu :: int lang)"
       and ?this2.0 = "setWorkingWord name_Otto (new_work (NCLNameCaseRu :: int lang))"
       and w = "a_word N MAN name_Otto" and q = N and L = "NCLNameCaseRu :: int lang"
       and reg' = None]
  note tok = inst[THEN conjunct2, THEN conjunct2, THEN conjunct2, THEN conjunct1, THEN mp,
    OF conjI, OF n eval_Otto_ru]
  have m: "nameMethod (NCLNameCaseRu :: int lang)
             (if fst (word_gender (a_word N MAN name_Otto)) = MAN then man else woman) N
             (setWorkingWord (word_orig (a_word N MAN name_Otto)) (new_work (NCLNameCaseRu :: int lang)))
           = Inr (False, setWorkingWord name_Otto (new_work (NCLNameCaseRu :: int lang)))"
    unfolding g o using eval_Otto_ru by simp
  note whole = inst[THEN conjunct2, THEN conjunct2, THEN conjunct2, THEN conjunct2, THEN mp,
    OF conjI, OF h conjI, OF p m]
  from tok obtain v :: "int NCLNameCaseWord" where
    "WordCase_token (nameMethod (NCLNameCaseRu :: int lang) man N) None (Some N) 1 0 name_Otto
       (new_work (NCLNameCaseRu :: int lang))
     = Inr (setWorkingWord name_Otto (new_work (NCLNameCaseRu :: int lang)), v, - 1)"
    "NameCases v = replicate 6 name_Otto"
    unfolding c by blast
  moreover from whole obtain w' where
    "WordCase NCLNameCaseRu None (new_work (NCLNameCaseRu :: int lang)) (a_word N MAN name_Otto)
     = Inr (setWorkingWord name_Otto (new_work (NCLNameCaseRu :: int lang)), w')"
    "NameCases w' = replicate 6 name_Otto" "rule w' = - 1"
    unfolding c o by blast
  ultimately show ?thesis using h p g n eval_Otto_ru by simp
qed


lemma namePart_new:
  "namePart (new_NCLNameCaseWord s :: ('s::zero) NCLNameCaseWord) = None"
  by (simp add: new_NCLNameCaseWord_def generateMask_def split: prod.splits)

lemma setWorkingWord_same_CaseCount:
  "CaseCount t = CaseCount t' \<Longrightarrow> setWorkingWord s t = setWorkingWord s t'"
  by (cases t; cases t') (simp add: setWorkingWord_def reset_def)

lemma WordCase_token_same_CaseCount:
  "CaseCount t = CaseCount t0 \<Longrightarrow>
   WordCase_token m reg p cnt k cur t = WordCase_token m reg p cnt k cur t0"
  unfolding WordCase_token_def setWorkingWord_same_CaseCount[of t t0 cur] by (rule refl)

lemma setNameCases_same_mask:
  "own_mask s a \<Longrightarrow> own_mask s b \<Longrightarrow>
   NameCases (setNameCases forms True a) = NameCases (setNameCases forms True b)"
  by (simp add: setNameCases_def returnMask_def Let_def own_mask_def)

lemma word_gender_nonzero: "fst (word_gender w) \<noteq> 0"
  by (simp add: word_gender_def MAN_def WOMAN_def)

lemma WordCase_token_plain:
  fixes v :: "('s::zero) NCLNameCaseWord"
  assumes norm: "WordCase_norm reg p cnt k cur (new_NCLNameCaseWord cur :: 's NCLNameCaseWord)
                   = Inr (True, o_ncw)"
    and tok: "WordCase_token m reg p cnt k cur this = Inr (t, v, r)"
  shows "\<exists>v0 :: 's NCLNameCaseWord.
           WordCase_token m reg0 p0 1 0 cur this = Inr (t, v0, r) \<and> NameCases v0 = NameCases v"
proof -
  have om: "own_mask cur o_ncw"
    using WordCase_norm_mask[OF norm own_mask_new] .
  have plain: "WordCase_norm reg0 p0 1 0 cur (new_NCLNameCaseWord cur :: 's NCLNameCaseWord)
                 = Inr (True, new_NCLNameCaseWord cur)"
    by (rule WordCase_norm_plain) simp
  note eq = setNameCases_same_mask[OF own_mask_new om]
  from tok norm obtain ok this2 where call: "m (setWorkingWord cur this) = Inr (ok, this2)"
    by (auto simp: WordCase_token_def split: sum.splits)
  show ?thesis
  proof (cases ok)
    case True
    with tok norm plain call eq[of "lastResult this2"] show ?thesis
      by (auto simp: WordCase_token_def Let_def getNameCases_def)
  next
    case False
    with tok norm plain call eq[of "replicate (CaseCount this2) cur"] show ?thesis
      by (auto simp: WordCase_token_def Let_def getNameCases_def)
  qed
qed

lemma WordCase_sub_word:
  fixes L :: "('s::{zero,ord}) lang"
  assumes h: "c_hyphen \<notin> set cur" and g: "g \<noteq> 0"
  shows "WordCase L reg this (sub_word p g cur :: 's NCLNameCaseWord) =
     (case WordCase_token (nameMethod L (if g = MAN then man else woman) p) reg (Some p) 1 0 cur this of
        Inl err \<Rightarrow> Inl err
      | Inr (t, v :: 's NCLNameCaseWord, r) \<Rightarrow>
          Inr (t, setRule r (setNameCases (NameCases v) False (sub_word p g cur))))"
proof -
  have wg: "word_gender (sub_word p g cur :: 's NCLNameCaseWord) = (g, sub_word p g cur)"
    using g by (simp add: word_gender_def sub_word_def setTrueGender_def)
  have f: "getNamePart (sub_word p g cur :: 's NCLNameCaseWord) = Some p"
    "getWordOrig (sub_word p g cur :: 's NCLNameCaseWord) = cur"
    by (simp_all add: sub_word_def setTrueGender_def setNamePart_def getNamePart_def
        getWordOrig_def new_NCLNameCaseWord_def generateMask_def split: prod.splits)
  show ?thesis
    using h by (auto simp: WordCase_def wg f js_split_no_sep getNameCases_def
        split: sum.splits)
qed

lemma alone_forms_token:
  fixes L :: "('s::{zero,ord}) lang"
  assumes h: "c_hyphen \<notin> set cur" and g: "g \<noteq> 0"
  shows "alone_forms L this p g cur =
     (case (WordCase_token (nameMethod L (if g = MAN then man else woman) p) None (Some p) 1 0 cur this
              :: error + work \<times> 's NCLNameCaseWord \<times> int) of
        Inl err \<Rightarrow> None
      | Inr (t, v, r) \<Rightarrow> Some (NameCases v))"
  by (simp add: alone_forms_def WordCase_sub_word[OF h g] setRule_def setNameCases_def
      split: sum.splits prod.splits)

lemma sub_token_cases:
  fixes v :: "('s::{zero,ord}) NCLNameCaseWord" and L :: "'s lang"
  assumes tok: "WordCase_token (nameMethod L (if g = MAN then man else woman) p) reg (Some p) cnt k
                  cur this = Inr (t, v, r)"
    and g: "g \<noteq> 0" and h: "c_hyphen \<notin> set cur"
  shows "(\<exists>o_ncw :: 's NCLNameCaseWord.
            WordCase_norm reg (Some p) cnt k cur (new_NCLNameCaseWord cur) = Inr (True, o_ncw))
         \<and> alone_forms L this p g cur = Some (NameCases v)
       \<or> (\<exists>o_ncw :: 's NCLNameCaseWord.
            WordCase_norm reg (Some p) cnt k cur (new_NCLNameCaseWord cur) = Inr (False, o_ncw))
         \<and> NameCases v = replicate (CaseCount this) cur"
proof -
  let ?m = "nameMethod L (if g = MAN then man else woman) p"
  from tok obtain b and o_ncw :: "'s NCLNameCaseWord" where
    norm: "WordCase_norm reg (Some p) cnt k cur (new_NCLNameCaseWord cur) = Inr (b, o_ncw)"
    by (auto simp: WordCase_token_def split: sum.splits)
  show ?thesis
  proof (cases b)
    case True
    with norm have n: "WordCase_norm reg (Some p) cnt k cur (new_NCLNameCaseWord cur)
                         = Inr (True, o_ncw)" by simp
    from WordCase_token_plain[OF n tok, of None "Some p"] obtain v0 :: "'s NCLNameCaseWord" where
      "WordCase_token ?m None (Some p) 1 0 cur this = Inr (t, v0, r)" "NameCases v0 = NameCases v"
      by blast
    then have "alone_forms L this p g cur = Some (NameCases v)"
      by (simp add: alone_forms_token[OF h g])
    with n show ?thesis by blast
  next
    case False
    with norm have n: "WordCase_norm reg (Some p) cnt k cur (new_NCLNameCaseWord cur)
                         = Inr (False, o_ncw)" by simp
    from WordCase_token_not_norm[OF n, of ?m this] tok
    have "NameCases v = replicate (CaseCount this) cur" by auto
    with n show ?thesis by blast
  qed
qed

lemma WordCase_loop_tokens:
  assumes m: "declines ex n meth" and n1: "1 \<le> n" and c0: "CaseCount t0 = n"
  shows "CaseCount this = n \<Longrightarrow>
     WordCase_loop meth reg p cnt k curs this acc lr = Inr (this', ws, lr') \<Longrightarrow>
     (\<exists>new :: ('s::zero) NCLNameCaseWord list.
        ws = acc @ new \<and> length new = length curs
        \<and> (\<forall>i<length curs. \<exists>t r.
              WordCase_token meth reg p cnt (k + i) (curs ! i) t0 = Inr (t, new ! i, r)))"
proof (induction curs arbitrary: this acc lr k)
  case Nil
  then show ?case by simp
next
  case (Cons cur rest)
  from Cons.prems(2) obtain this1 w lr1 where
    tok: "WordCase_token meth reg p cnt k cur this = Inr (this1, w, lr1)"
    and rest: "WordCase_loop meth reg p cnt (Suc k) rest this1 (acc @ [w]) lr1 = Inr (this', ws, lr')"
    by (auto split: sum.splits)
  from WordCase_token_ok[OF m Cons.prems(1) n1 tok]
  have c1: "CaseCount this1 = n" by simp
  from tok have tok0: "WordCase_token meth reg p cnt k cur t0 = Inr (this1, w, lr1)"
    using WordCase_token_same_CaseCount[of this t0 meth reg p cnt k cur] Cons.prems(1) c0
    by simp
  from Cons.IH[OF c1 rest] obtain new where
    new: "ws = (acc @ [w]) @ new" "length new = length rest"
    "\<forall>i<length rest. \<exists>t r.
        WordCase_token meth reg p cnt (Suc k + i) (rest ! i) t0 = Inr (t, new ! i, r)"
    by blast
  have "\<forall>i<length (cur # rest). \<exists>t r.
          WordCase_token meth reg p cnt (k + i) ((cur # rest) ! i) t0 = Inr (t, (w # new) ! i, r)"
  proof (intro allI impI)
    fix i assume i: "i < length (cur # rest)"
    show "\<exists>t r. WordCase_token meth reg p cnt (k + i) ((cur # rest) ! i) t0
                   = Inr (t, (w # new) ! i, r)"
    proof (cases i)
      case 0
      with tok0 show ?thesis by auto
    next
      case (Suc j)
      with i new(3) show ?thesis by auto
    qed
  qed
  with new show ?case by (intro exI[of _ "w # new"]) simp
qed

lemma WordCase_sub_tokens:
  fixes w :: "('s::{zero,ord}) NCLNameCaseWord"
  assumes m: "\<And>g p. declines ex n (nameMethod L g p)"
    and n: "CaseCount this = n" "1 \<le> n"
    and r: "WordCase L reg this w = Inr (this', w')"
  shows "\<exists>p (ws :: 's NCLNameCaseWord list).
       namePart w = Some p
       \<and> list_all2 (token_ok ex n) (js_split c_hyphen (word_orig w)) ws
       \<and> NameCases w' = map (\<lambda>i. js_join [c_hyphen] (map (\<lambda>v. NameCases v ! i) ws)) [0..<n]
       \<and> (\<forall>i<length (js_split c_hyphen (word_orig w)). \<exists>t r.
             WordCase_token (nameMethod L (if fst (word_gender w) = MAN then man else woman) p)
               reg (Some p) (length (js_split c_hyphen (word_orig w))) i
               (js_split c_hyphen (word_orig w) ! i) this = Inr (t, ws ! i, r))"
proof -
  obtain g w1 where g: "word_gender w = (g, w1)" by (cases "word_gender w")
  note f = word_gender_fields[OF g]
  from r g obtain p where p: "namePart w1 = Some p"
    by (auto simp: WordCase_def Let_def getNamePart_def split: option.splits)
  let ?meth = "nameMethod L (if g = MAN then man else woman) p"
  let ?curs = "js_split c_hyphen (word_orig w)"
  from r g p f obtain ws lr where
    loop: "WordCase_loop ?meth reg (Some p) (length ?curs) 0 ?curs this [] (- 1) = Inr (this', ws, lr)"
    and w': "w' = setRule lr (setNameCases (foldl WordCase_glue [] (map getNameCases ws)) False w1)"
    by (auto simp: WordCase_def Let_def getNamePart_def getWordOrig_def split: sum.splits)
  from WordCase_loop_ok[OF m n(2) n(1) loop]
  have ok: "list_all2 (token_ok ex n) ?curs ws" by auto
  from WordCase_loop_tokens[OF m n(2) n(1) n(1) loop]
  have toks: "\<forall>i<length ?curs. \<exists>t r.
      WordCase_token ?meth reg (Some p) (length ?curs) i (?curs ! i) this = Inr (t, ws ! i, r)"
    by auto
  from ok have len: "\<forall>f\<in>set (map getNameCases ws). length f = n"
    by (auto simp: list_all2_conv_all_nth in_set_conv_nth token_ok_def getNameCases_def)
  from ok have "length ws = length ?curs" by (simp add: list_all2_lengthD)
  then have ne: "map getNameCases ws \<noteq> []" by auto
  have "NameCases w' = foldl WordCase_glue [] (map getNameCases ws)"
    by (simp add: w' setRule_def setNameCases_def)
  also have "\<dots> = map (\<lambda>i. js_join [c_hyphen] (map (\<lambda>f. f ! i) (map getNameCases ws))) [0..<n]"
    using len ne by (rule foldl_WordCase_glue_Nil)
  also have "\<dots> = map (\<lambda>i. js_join [c_hyphen] (map (\<lambda>v. NameCases v ! i) ws)) [0..<n]"
    by (simp add: getNameCases_def comp_def)
  finally have nc: "NameCases w' = map (\<lambda>i. js_join [c_hyphen] (map (\<lambda>v. NameCases v ! i) ws)) [0..<n]" .
  from p f have pw: "namePart w = Some p" by simp
  from g have "fst (word_gender w) = g" by simp
  with pw ok nc toks show ?thesis by blast
qed

lemma WordCase_sub_forms:
  fixes w :: "('s::{zero,ord}) NCLNameCaseWord"
  assumes m: "\<And>g p. declines ex n (nameMethod L g p)"
    and n: "CaseCount this = n" "1 \<le> n"
    and r: "WordCase L reg this w = Inr (this', w')"
  shows "\<exists>p fs.
       namePart w = Some p
       \<and> length fs = length (js_split c_hyphen (word_orig w))
       \<and> (\<forall>f\<in>set fs. length f = n \<and> (\<forall>x\<in>set f. c_hyphen \<notin> set x))
       \<and> NameCases w' = map (\<lambda>i. js_join [c_hyphen] (map (\<lambda>f. f ! i) fs)) [0..<n]
       \<and> (\<forall>i<length (js_split c_hyphen (word_orig w)).
             (\<exists>o_ncw :: 's NCLNameCaseWord.
                WordCase_norm reg (Some p) (length (js_split c_hyphen (word_orig w))) i
                  (js_split c_hyphen (word_orig w) ! i)
                  (new_NCLNameCaseWord (js_split c_hyphen (word_orig w) ! i)) = Inr (True, o_ncw))
             \<and> alone_forms L this p (fst (word_gender w)) (js_split c_hyphen (word_orig w) ! i)
                 = Some (fs ! i)
           \<or> (\<exists>o_ncw :: 's NCLNameCaseWord.
                WordCase_norm reg (Some p) (length (js_split c_hyphen (word_orig w))) i
                  (js_split c_hyphen (word_orig w) ! i)
                  (new_NCLNameCaseWord (js_split c_hyphen (word_orig w) ! i)) = Inr (False, o_ncw))
             \<and> fs ! i = replicate n (js_split c_hyphen (word_orig w) ! i))"
proof -
  let ?curs = "js_split c_hyphen (word_orig w)"
  from WordCase_sub_tokens[OF m n r] obtain p and ws :: "'s NCLNameCaseWord list" where
    p: "namePart w = Some p"
    and ok: "list_all2 (token_ok ex n) ?curs ws"
    and nc: "NameCases w' = map (\<lambda>i. js_join [c_hyphen] (map (\<lambda>v. NameCases v ! i) ws)) [0..<n]"
    and toks: "\<forall>i<length ?curs. \<exists>t r.
             WordCase_token (nameMethod L (if fst (word_gender w) = MAN then man else woman) p)
               reg (Some p) (length ?curs) i (?curs ! i) this = Inr (t, ws ! i, r)"
    by blast
  have len: "length ws = length ?curs"
    using ok by (simp add: list_all2_lengthD)
  have free: "\<And>i. i < length ?curs \<Longrightarrow> c_hyphen \<notin> set (?curs ! i)"
    using js_split_free[of _ c_hyphen "word_orig w"] by simp
  let ?fs = "map NameCases ws"
  have a: "length ?fs = length ?curs" using len by simp
  have b: "\<forall>f\<in>set ?fs. length f = n \<and> (\<forall>x\<in>set f. c_hyphen \<notin> set x)"
  proof
    fix f assume "f \<in> set ?fs"
    then obtain j where j: "j < length ws" "f = NameCases (ws ! j)"
      by (auto simp: in_set_conv_nth)
    with ok len have t: "token_ok ex n (?curs ! j) (ws ! j)"
      by (simp add: list_all2_conv_all_nth)
    from free[of j] j len have "nohyphen (?curs ! j)" by (simp add: nohyphen_def)
    with t j show "length f = n \<and> (\<forall>x\<in>set f. c_hyphen \<notin> set x)"
      by (simp add: token_ok_def list_all_iff nohyphen_def)
  qed
  have c: "NameCases w' = map (\<lambda>i. js_join [c_hyphen] (map (\<lambda>f. f ! i) ?fs)) [0..<n]"
    using nc by (simp add: comp_def)
  have d: "\<forall>i<length ?curs.
             (\<exists>o_ncw :: 's NCLNameCaseWord.
                WordCase_norm reg (Some p) (length ?curs) i (?curs ! i)
                  (new_NCLNameCaseWord (?curs ! i)) = Inr (True, o_ncw))
             \<and> alone_forms L this p (fst (word_gender w)) (?curs ! i) = Some (?fs ! i)
           \<or> (\<exists>o_ncw :: 's NCLNameCaseWord.
                WordCase_norm reg (Some p) (length ?curs) i (?curs ! i)
                  (new_NCLNameCaseWord (?curs ! i)) = Inr (False, o_ncw))
             \<and> ?fs ! i = replicate n (?curs ! i)"
  proof (intro allI impI)
    fix i assume i: "i < length ?curs"
    with toks obtain t r where
      tok: "WordCase_token (nameMethod L (if fst (word_gender w) = MAN then man else woman) p)
               reg (Some p) (length ?curs) i (?curs ! i) this = Inr (t, ws ! i, r)"
      by blast
    from sub_token_cases[OF tok word_gender_nonzero free[OF i]] i len n(1)
    show "(\<exists>o_ncw :: 's NCLNameCaseWord.
                WordCase_norm reg (Some p) (length ?curs) i (?curs ! i)
                  (new_NCLNameCaseWord (?curs ! i)) = Inr (True, o_ncw))
             \<and> alone_forms L this p (fst (word_gender w)) (?curs ! i) = Some (?fs ! i)
           \<or> (\<exists>o_ncw :: 's NCLNameCaseWord.
                WordCase_norm reg (Some p) (length ?curs) i (?curs ! i)
                  (new_NCLNameCaseWord (?curs ! i)) = Inr (False, o_ncw))
             \<and> ?fs ! i = replicate n (?curs ! i)"
      by simp
  qed
  from p a b c d show ?thesis by blast
qed


lemma declines_class:
  fixes L :: "('s::{zero,numeral}) lang"
  assumes "L = NCLNameCaseRu \<and> CaseCount this = 6 \<or> L = NCLNameCaseUa \<and> CaseCount this = 7"
  obtains ex n where "\<And>g p. declines ex n (nameMethod L g p)" "CaseCount this = n" "1 \<le> n"
  using assms
proof
  assume "L = NCLNameCaseRu \<and> CaseCount this = 6"
  then show ?thesis
    using that[of ru_table_name 6] by (simp add: NCLNameCaseRu_def declines_ru_nameMethod)
next
  assume "L = NCLNameCaseUa \<and> CaseCount this = 7"
  then show ?thesis
    using that[of no_name 7] by (simp add: NCLNameCaseUa_def declines_ua_nameMethod)
qed




lemma WordCase_loop_TypeError:
  fixes acc :: "('s::zero) NCLNameCaseWord list"
  assumes "getConcreteClass reg ''ru'' = None"
    and "\<exists>cur\<in>set (butlast toks). toLowerCase cur \<notin> set exclusion"
    and "k + length toks = cnt"
  shows "WordCase_loop meth reg (Some S) cnt k toks this acc lr = Inl TypeError"
  using assms
proof (induction toks arbitrary: k this acc lr)
  case Nil
  then show ?case by simp
next
  case (Cons cur rest)
  from Cons.prems(2) have ne: "rest \<noteq> []" by auto
  with Cons.prems(3) have c: "1 < cnt" "Suc k < cnt" by (cases rest; simp)+
  show ?case
  proof (cases "toLowerCase cur \<in> set exclusion")
    case True
    with c have n: "WordCase_norm reg (Some S) cnt k cur (new_NCLNameCaseWord cur :: 's NCLNameCaseWord)
                 = Inr (False, new_NCLNameCaseWord cur)"
      by (simp add: WordCase_norm_def)
    from WordCase_token_not_norm[OF n, of meth this] obtain v :: "'s NCLNameCaseWord" where
      tok: "WordCase_token meth reg (Some S) cnt k cur this = Inr (setWorkingWord cur this, v, - 1)"
      by blast
    from True Cons.prems(2) ne
    have ex: "\<exists>cur\<in>set (butlast rest). toLowerCase cur \<notin> set exclusion" by auto
    from Cons.prems(3) have len: "Suc k + length rest = cnt" by simp
    show ?thesis
      using tok Cons.IH[OF Cons.prems(1) ex len] by simp
  next
    case False
    with c Cons.prems(1) have "WordCase_token meth reg (Some S) cnt k cur this = (Inl TypeError :: error + work \<times> 's NCLNameCaseWord \<times> int)"
      by (simp add: WordCase_token_def WordCase_norm_def)
    then show ?thesis by simp
  qed
qed

lemma WordCase_TypeError:
  fixes w :: "('s::{zero,ord}) NCLNameCaseWord"
  assumes p: "namePart w = Some S" and r: "getConcreteClass reg ''ru'' = None"
    and e: "\<exists>cur\<in>set (butlast (js_split c_hyphen (word_orig w))). toLowerCase cur \<notin> set exclusion"
  shows "WordCase L reg this w = Inl TypeError"
proof -
  obtain g w1 where g: "word_gender w = (g, w1)" by (cases "word_gender w")
  note f = word_gender_fields[OF g]
  have "WordCase_loop (nameMethod L (if g = MAN then man else woman) S) reg (Some S)
          (length (js_split c_hyphen (word_orig w))) 0 (js_split c_hyphen (word_orig w)) this
          ([] :: 's NCLNameCaseWord list) (- 1) = Inl TypeError"
    by (rule WordCase_loop_TypeError[OF r e]) simp
  then show ?thesis
    using g f p by (simp add: WordCase_def Let_def getNamePart_def getWordOrig_def)
qed

lemma WordCase_norm_registry_free:
  "p \<noteq> Some S \<or> cnt \<le> Suc k \<or> toLowerCase cur \<in> set exclusion \<Longrightarrow>
   WordCase_norm reg p cnt k cur o_ncw = WordCase_norm reg' p cnt k cur o_ncw"
  by (auto simp: WordCase_norm_def)

lemma WordCase_token_registry_free:
  assumes "p \<noteq> Some S \<or> cnt \<le> Suc k \<or> toLowerCase cur \<in> set exclusion"
  shows "WordCase_token m reg p cnt k cur t = WordCase_token m reg' p cnt k cur t"
  unfolding WordCase_token_def WordCase_norm_registry_free[OF assms, where reg = reg and reg' = reg'] by (rule refl)

lemma WordCase_loop_registry_free:
  fixes acc :: "('s::zero) NCLNameCaseWord list"
  assumes "p \<noteq> Some S \<or> (\<forall>cur\<in>set (butlast toks). toLowerCase cur \<in> set exclusion)"
    and "k + length toks = cnt"
  shows "WordCase_loop m reg p cnt k toks t acc lr = WordCase_loop m reg' p cnt k toks t acc lr"
  using assms
proof (induction toks arbitrary: k t acc lr)
  case Nil
  then show ?case by simp
next
  case (Cons cur rest)
  have c: "p \<noteq> Some S \<or> cnt \<le> Suc k \<or> toLowerCase cur \<in> set exclusion"
    using Cons.prems by (cases rest) auto
  have tok: "WordCase_token m reg p cnt k cur t
               = (WordCase_token m reg' p cnt k cur t :: error + work \<times> 's NCLNameCaseWord \<times> int)"
    by (rule WordCase_token_registry_free[OF c])
  have r: "p \<noteq> Some S \<or> (\<forall>cur\<in>set (butlast rest). toLowerCase cur \<in> set exclusion)"
    using Cons.prems(1) by (cases rest) auto
  from Cons.prems(2) have len: "Suc k + length rest = cnt" by simp
  show ?case
    using tok Cons.IH[OF r len] by (simp split: sum.splits)
qed

lemma WordCase_registry_free:
  fixes w :: "('s::{zero,ord}) NCLNameCaseWord"
  assumes "namePart w \<noteq> Some S
           \<or> (\<forall>cur\<in>set (butlast (js_split c_hyphen (word_orig w))).
                 toLowerCase cur \<in> set exclusion)"
  shows "WordCase L reg this w = WordCase L reg' this w"
proof -
  obtain g w1 where g: "word_gender w = (g, w1)" by (cases "word_gender w")
  note f = word_gender_fields[OF g]
  show ?thesis
  proof (cases "namePart w")
    case None
    with g f show ?thesis by (simp add: WordCase_def getNamePart_def)
  next
    case (Some p)
    from assms Some have a: "Some p \<noteq> Some S
           \<or> (\<forall>cur\<in>set (butlast (js_split c_hyphen (word_orig w))).
                 toLowerCase cur \<in> set exclusion)"
      by simp
    have "WordCase_loop (nameMethod L (if g = MAN then man else woman) p) reg (Some p)
            (length (js_split c_hyphen (word_orig w))) 0 (js_split c_hyphen (word_orig w)) this
            ([] :: 's NCLNameCaseWord list) (- 1)
          = WordCase_loop (nameMethod L (if g = MAN then man else woman) p) reg' (Some p)
            (length (js_split c_hyphen (word_orig w))) 0 (js_split c_hyphen (word_orig w)) this
            [] (- 1)"
      by (rule WordCase_loop_registry_free[OF a]) simp
    with g f Some show ?thesis
      by (simp add: WordCase_def Let_def getNamePart_def getWordOrig_def)
  qed
qed

lemma WordCase_norm_reclassify:
  fixes o_ncw :: "('s::zero) NCLNameCaseWord"
  assumes "Suc k < cnt" "toLowerCase cur \<notin> set exclusion"
    and "WordCase_norm reg (Some S) cnt k cur (new_NCLNameCaseWord cur) = Inr (b, o_ncw)"
  shows "\<exists>cls clsH. getConcreteClass reg ''ru'' = Some (cls, clsH)
           \<and> b = (detectNamePart clsH (setWorkingWord (strtolower cur) (new_work cls)) = Some S)"
  using assms
  by (auto simp: WordCase_norm_def Let_def getNamePart_def setNamePart_def namePart_new
      split: option.splits if_splits)

lemma WordCase_norm_excluded:
  fixes o_ncw :: "('s::zero) NCLNameCaseWord"
  assumes "Suc k < cnt" "toLowerCase cur \<in> set exclusion"
    and "WordCase_norm reg (Some S) cnt k cur (new_NCLNameCaseWord cur) = Inr (b, o_ncw)"
  shows "\<not> b"
  using assms by (auto simp: WordCase_norm_def)

text \<open>
  Claim C10.  \<^verbatim>\<open>WordCase\<close> on a surname cut at its hyphens, for an engine of either
  language class.  When the call returns, the forms of the last sub-token are those the
  sub-token gets as a surname on its own; a sub-token before the last whose lowercase
  form is in \<^verbatim>\<open>exclusion\<close> (its one entry is the Cyrillic word tuluz) is copied into
  every case; for any other sub-token before the last a class is registered under
  \<^verbatim>\<open>ru\<close>, and \<^verbatim>\<open>detectNamePart\<close> of a fresh object of that class, whatever the class
  of the engine, decides: the forms are those of the sub-token as a surname on its own
  when it answers surname, and copies of the sub-token when it answers anything else.
  Case form \<open>j\<close> of the surname is the forms \<open>j\<close> of the sub-tokens joined by hyphens.
  With no class registered under \<^verbatim>\<open>ru\<close>, \<^verbatim>\<open>WordCase\<close> of any engine fails with a
  \<^verbatim>\<open>TypeError\<close> on a surname that has a sub-token before the last that is not in
  \<^verbatim>\<open>exclusion\<close>.  The registry is not consulted for anything else: on a word that is
  not a surname, and on a surname all of whose sub-tokens before the last are in
  \<^verbatim>\<open>exclusion\<close> (so also on a surname without hyphen), \<^verbatim>\<open>WordCase\<close> does the same
  whatever the registry holds.
\<close>

theorem hyphenated_surname_reclassified_by_ru:
  fixes w w' :: "('s::{zero,numeral,ord}) NCLNameCaseWord" and reg reg' :: "'s registry"
    and v :: "('t::{zero,ord}) NCLNameCaseWord" and regv regv' :: "'t registry"
  shows
    "((L = NCLNameCaseRu \<and> CaseCount this = 6 \<or> L = NCLNameCaseUa \<and> CaseCount this = 7)
        \<and> namePart w = Some S \<and> WordCase L reg this w = Inr (this', w')
      \<longrightarrow> (\<exists>fs.
             length fs = length (js_split c_hyphen (word_orig w))
             \<and> NameCases w'
                 = map (\<lambda>j. js_join [c_hyphen] (map (\<lambda>f. f ! j) fs)) [0..<CaseCount this]
             \<and> (\<forall>i<length fs.
                   (Suc i = length fs
                      \<longrightarrow> alone_forms L this S (fst (word_gender w))
                            (js_split c_hyphen (word_orig w) ! i) = Some (fs ! i))
                 \<and> (Suc i < length fs
                        \<and> toLowerCase (js_split c_hyphen (word_orig w) ! i) \<in> set exclusion
                      \<longrightarrow> fs ! i
                            = replicate (CaseCount this) (js_split c_hyphen (word_orig w) ! i))
                 \<and> (Suc i < length fs
                        \<and> toLowerCase (js_split c_hyphen (word_orig w) ! i) \<notin> set exclusion
                      \<longrightarrow> (\<exists>cls clsH.
                             getConcreteClass reg ''ru'' = Some (cls, clsH)
                             \<and> (if detectNamePart clsH
                                      (setWorkingWord
                                         (strtolower (js_split c_hyphen (word_orig w) ! i))
                                         (new_work cls)) = Some S
                                 then alone_forms L this S (fst (word_gender w))
                                        (js_split c_hyphen (word_orig w) ! i) = Some (fs ! i)
                                 else fs ! i
                                        = replicate (CaseCount this)
                                            (js_split c_hyphen (word_orig w) ! i)))))))
   \<and> (namePart v = Some S \<and> getConcreteClass regv ''ru'' = None
        \<and> (\<exists>cur\<in>set (butlast (js_split c_hyphen (word_orig v))).
              toLowerCase cur \<notin> set exclusion)
      \<longrightarrow> WordCase Lv regv thisv v = Inl TypeError)
   \<and> (namePart v \<noteq> Some S
        \<or> (\<forall>cur\<in>set (butlast (js_split c_hyphen (word_orig v))).
              toLowerCase cur \<in> set exclusion)
      \<longrightarrow> WordCase Lv regv thisv v = WordCase Lv regv' thisv v)"
proof (intro conjI impI)
  let ?curs = "js_split c_hyphen (word_orig w)"
  assume a: "(L = NCLNameCaseRu \<and> CaseCount this = 6 \<or> L = NCLNameCaseUa \<and> CaseCount this = 7)
        \<and> namePart w = Some S \<and> WordCase L reg this w = Inr (this', w')"
  then have r: "WordCase L reg this w = Inr (this', w')" and s: "namePart w = Some S"
    by simp_all
  from a obtain ex n where
    m: "\<And>g p. declines ex n (nameMethod L g p)" and n: "CaseCount this = n" "1 \<le> n"
    using declines_class[of L this] by blast
  from WordCase_sub_forms[OF m n r] s obtain fs where
    len: "length fs = length ?curs"
    and nc: "NameCases w' = map (\<lambda>i. js_join [c_hyphen] (map (\<lambda>f. f ! i) fs)) [0..<n]"
    and each: "\<forall>i<length ?curs.
             (\<exists>o_ncw :: 's NCLNameCaseWord.
                WordCase_norm reg (Some S) (length ?curs) i (?curs ! i)
                  (new_NCLNameCaseWord (?curs ! i)) = Inr (True, o_ncw))
             \<and> alone_forms L this S (fst (word_gender w)) (?curs ! i) = Some (fs ! i)
           \<or> (\<exists>o_ncw :: 's NCLNameCaseWord.
                WordCase_norm reg (Some S) (length ?curs) i (?curs ! i)
                  (new_NCLNameCaseWord (?curs ! i)) = Inr (False, o_ncw))
             \<and> fs ! i = replicate n (?curs ! i)"
    by auto
  have last: "\<forall>i<length fs. Suc i = length fs
                \<longrightarrow> alone_forms L this S (fst (word_gender w)) (?curs ! i) = Some (fs ! i)"
  proof (intro allI impI)
    fix i assume i: "i < length fs" and c: "Suc i = length fs"
    then have "\<not> (Some S = Some S \<and> 1 < length ?curs \<and> Suc i < length ?curs)"
      using len by auto
    then have "WordCase_norm reg (Some S) (length ?curs) i (?curs ! i)
                 (new_NCLNameCaseWord (?curs ! i) :: 's NCLNameCaseWord)
               = Inr (True, new_NCLNameCaseWord (?curs ! i))"
      by (rule WordCase_norm_plain)
    with each i len
    show "alone_forms L this S (fst (word_gender w)) (?curs ! i) = Some (fs ! i)"
      by auto
  qed
  have excl: "\<forall>i<length fs. Suc i < length fs \<and> toLowerCase (?curs ! i) \<in> set exclusion
                \<longrightarrow> fs ! i = replicate (CaseCount this) (?curs ! i)"
  proof (intro allI impI)
    fix i assume i: "i < length fs"
      and c: "Suc i < length fs \<and> toLowerCase (?curs ! i) \<in> set exclusion"
    from c len have k: "Suc i < length ?curs" and e: "toLowerCase (?curs ! i) \<in> set exclusion"
      by simp_all
    from each i len WordCase_norm_excluded[OF k e] n(1)
    show "fs ! i = replicate (CaseCount this) (?curs ! i)" by auto
  qed
  have recl: "\<forall>i<length fs. Suc i < length fs \<and> toLowerCase (?curs ! i) \<notin> set exclusion
                \<longrightarrow> (\<exists>cls clsH.
                       getConcreteClass reg ''ru'' = Some (cls, clsH)
                       \<and> (if detectNamePart clsH
                                (setWorkingWord (strtolower (?curs ! i)) (new_work cls)) = Some S
                           then alone_forms L this S (fst (word_gender w)) (?curs ! i)
                                  = Some (fs ! i)
                           else fs ! i = replicate (CaseCount this) (?curs ! i)))"
  proof (intro allI impI)
    fix i assume i: "i < length fs"
      and c: "Suc i < length fs \<and> toLowerCase (?curs ! i) \<notin> set exclusion"
    from c len have k: "Suc i < length ?curs" and e: "toLowerCase (?curs ! i) \<notin> set exclusion"
      by simp_all
    from each i len n(1) consider
      (norm) o_ncw :: "'s NCLNameCaseWord" where
        "WordCase_norm reg (Some S) (length ?curs) i (?curs ! i)
           (new_NCLNameCaseWord (?curs ! i)) = Inr (True, o_ncw)"
        "alone_forms L this S (fst (word_gender w)) (?curs ! i) = Some (fs ! i)"
    | (copy) o_ncw :: "'s NCLNameCaseWord" where
        "WordCase_norm reg (Some S) (length ?curs) i (?curs ! i)
           (new_NCLNameCaseWord (?curs ! i)) = Inr (False, o_ncw)"
        "fs ! i = replicate (CaseCount this) (?curs ! i)"
      by auto
    then show "\<exists>cls clsH.
                 getConcreteClass reg ''ru'' = Some (cls, clsH)
                 \<and> (if detectNamePart clsH
                          (setWorkingWord (strtolower (?curs ! i)) (new_work cls)) = Some S
                     then alone_forms L this S (fst (word_gender w)) (?curs ! i) = Some (fs ! i)
                     else fs ! i = replicate (CaseCount this) (?curs ! i))"
    proof cases
      case norm
      from WordCase_norm_reclassify[OF k e norm(1)] norm(2) show ?thesis by auto
    next
      case copy
      from WordCase_norm_reclassify[OF k e copy(1)] copy(2) show ?thesis by auto
    qed
  qed
  show "\<exists>fs.
             length fs = length (js_split c_hyphen (word_orig w))
             \<and> NameCases w'
                 = map (\<lambda>j. js_join [c_hyphen] (map (\<lambda>f. f ! j) fs)) [0..<CaseCount this]
             \<and> (\<forall>i<length fs.
                   (Suc i = length fs
                      \<longrightarrow> alone_forms L this S (fst (word_gender w))
                            (js_split c_hyphen (word_orig w) ! i) = Some (fs ! i))
                 \<and> (Suc i < length fs
                        \<and> toLowerCase (js_split c_hyphen (word_orig w) ! i) \<in> set exclusion
                      \<longrightarrow> fs ! i
                            = replicate (CaseCount this) (js_split c_hyphen (word_orig w) ! i))
                 \<and> (Suc i < length fs
                        \<and> toLowerCase (js_split c_hyphen (word_orig w) ! i) \<notin> set exclusion
                      \<longrightarrow> (\<exists>cls clsH.
                             getConcreteClass reg ''ru'' = Some (cls, clsH)
                             \<and> (if detectNamePart clsH
                                      (setWorkingWord
                                         (strtolower (js_split c_hyphen (word_orig w) ! i))
                                         (new_work cls)) = Some S
                                 then alone_forms L this S (fst (word_gender w))
                                        (js_split c_hyphen (word_orig w) ! i) = Some (fs ! i)
                                 else fs ! i
                                        = replicate (CaseCount this)
                                            (js_split c_hyphen (word_orig w) ! i)))))"
  proof (intro exI[of _ fs] conjI allI impI)
    show "length fs = length (js_split c_hyphen (word_orig w))" by (rule len)
    show "NameCases w'
            = map (\<lambda>j. js_join [c_hyphen] (map (\<lambda>f. f ! j) fs)) [0..<CaseCount this]"
      using nc n(1) by simp
  next
    fix i assume "i < length fs" "Suc i = length fs"
    with last show "alone_forms L this S (fst (word_gender w))
                      (js_split c_hyphen (word_orig w) ! i) = Some (fs ! i)"
      by blast
  next
    fix i assume "i < length fs"
      "Suc i < length fs \<and> toLowerCase (js_split c_hyphen (word_orig w) ! i) \<in> set exclusion"
    with excl show "fs ! i = replicate (CaseCount this) (js_split c_hyphen (word_orig w) ! i)"
      by blast
  next
    fix i assume "i < length fs"
      "Suc i < length fs \<and> toLowerCase (js_split c_hyphen (word_orig w) ! i) \<notin> set exclusion"
    with recl show "\<exists>cls clsH.
                             getConcreteClass reg ''ru'' = Some (cls, clsH)
                             \<and> (if detectNamePart clsH
                                      (setWorkingWord
                                         (strtolower (js_split c_hyphen (word_orig w) ! i))
                                         (new_work cls)) = Some S
                                 then alone_forms L this S (fst (word_gender w))
                                        (js_split c_hyphen (word_orig w) ! i) = Some (fs ! i)
                                 else fs ! i
                                        = replicate (CaseCount this)
                                            (js_split c_hyphen (word_orig w) ! i))"
      by blast
  qed
next
  assume "namePart v = Some S \<and> getConcreteClass regv ''ru'' = None
        \<and> (\<exists>cur\<in>set (butlast (js_split c_hyphen (word_orig v))).
              toLowerCase cur \<notin> set exclusion)"
  then show "WordCase Lv regv thisv v = Inl TypeError"
    using WordCase_TypeError[of v regv Lv thisv] by blast
next
  assume "namePart v \<noteq> Some S
        \<or> (\<forall>cur\<in>set (butlast (js_split c_hyphen (word_orig v))).
              toLowerCase cur \<in> set exclusion)"
  then show "WordCase Lv regv thisv v = WordCase Lv regv' thisv v"
    by (rule WordCase_registry_free)
qed

theorem hyphenated_surname_reclassified_by_ru_witness:
  "CaseCount (new_work (NCLNameCaseUa :: int lang)) = 7
   \<and> CaseCount (new_work (NCLNameCaseRu :: int lang)) = 6
   \<and> namePart (a_word S MAN name_Ivanov_Petrov) = Some S
   \<and> fst (word_gender (a_word S MAN name_Ivanov_Petrov)) = MAN
   \<and> js_split c_hyphen (word_orig (a_word S MAN name_Ivanov_Petrov)) = [name_Ivanov, name_Petrov]
   \<and> toLowerCase name_Ivanov \<notin> set exclusion
   \<and> getConcreteClass (index_js says_surname core_heuristics :: int registry) ''ru''
       = Some (NCLNameCaseRu, says_surname)
   \<and> detectNamePart (says_surname :: int heuristics)
         (setWorkingWord (strtolower name_Ivanov) (new_work (NCLNameCaseRu :: int lang))) = Some S
   \<and> (case WordCase (NCLNameCaseUa :: int lang) (index_js says_surname core_heuristics :: int registry) (new_work (NCLNameCaseUa :: int lang))
          (a_word S MAN name_Ivanov_Petrov) of
        Inr (this1, w1) \<Rightarrow>
          NameCases w1
            = map (\<lambda>j. js_join [c_hyphen] (map (\<lambda>f. f ! j) [forms_Ivanov_ua, forms_Petrov_ua])) [0..<7]
          \<and> (\<exists>f0 f1.
                alone_forms (NCLNameCaseUa :: int lang) (new_work (NCLNameCaseUa :: int lang)) S MAN name_Ivanov = Some f0
                \<and> alone_forms (NCLNameCaseUa :: int lang) (new_work (NCLNameCaseUa :: int lang)) S MAN name_Petrov = Some f1
                \<and> NameCases w1
                    = map (\<lambda>j. js_join [c_hyphen] (map (\<lambda>f. f ! j) [f0, f1])) [0..<7])
      | Inl err \<Rightarrow> False)
   \<and> getConcreteClass (index_js core_heuristics core_heuristics :: int registry) ''ru''
       = Some (NCLNameCaseRu, core_heuristics)
   \<and> detectNamePart (core_heuristics :: int heuristics)
         (setWorkingWord (strtolower name_Ivanov) (new_work (NCLNameCaseRu :: int lang))) \<noteq> Some S
   \<and> alone_forms (NCLNameCaseRu :: int lang) (new_work (NCLNameCaseRu :: int lang)) S MAN name_Petrov
       = Some forms_Petrov_ru
   \<and> (case WordCase (NCLNameCaseRu :: int lang) (index_js core_heuristics core_heuristics :: int registry) (new_work (NCLNameCaseRu :: int lang))
          (a_word S MAN name_Ivanov_Petrov) of
        Inr (this1, w1) \<Rightarrow>
          NameCases w1
            = map (\<lambda>j. js_join [c_hyphen] (map (\<lambda>f. f ! j) [replicate 6 name_Ivanov, forms_Petrov_ru])) [0..<6]
      | Inl err \<Rightarrow> False)
   \<and> getConcreteClass (None :: int registry) ''ru'' = None
   \<and> WordCase (NCLNameCaseUa :: int lang) (None :: int registry) (new_work (NCLNameCaseUa :: int lang))
          (a_word S MAN name_Ivanov_Petrov) = Inl TypeError
   \<and> namePart (a_word S MAN name_Toulouse_Lotrok) = Some S
   \<and> fst (word_gender (a_word S MAN name_Toulouse_Lotrok)) = MAN
   \<and> js_split c_hyphen (word_orig (a_word S MAN name_Toulouse_Lotrok)) = [name_Toulouse, name_Lotrok]
   \<and> toLowerCase name_Toulouse \<in> set exclusion
   \<and> alone_forms (NCLNameCaseRu :: int lang) (new_work (NCLNameCaseRu :: int lang)) S MAN name_Lotrok
       = Some forms_Lotrok_ru
   \<and> WordCase (NCLNameCaseRu :: int lang) (None :: int registry) (new_work (NCLNameCaseRu :: int lang))
          (a_word S MAN name_Toulouse_Lotrok)
       = WordCase (NCLNameCaseRu :: int lang) (index_js says_surname core_heuristics :: int registry) (new_work (NCLNameCaseRu :: int lang))
          (a_word S MAN name_Toulouse_Lotrok)
   \<and> (case WordCase (NCLNameCaseRu :: int lang) (None :: int registry) (new_work (NCLNameCaseRu :: int lang))
          (a_word S MAN name_Toulouse_Lotrok) of
        Inr (this1, w1) \<Rightarrow>
          NameCases w1
            = map (\<lambda>j. js_join [c_hyphen] (map (\<lambda>f. f ! j) [replicate 6 name_Toulouse, forms_Lotrok_ru])) [0..<6]
      | Inl err \<Rightarrow> False)"
proof -
  have c7: "CaseCount (new_work (NCLNameCaseUa :: int lang)) = 7"
    by (simp add: eval_defs)
  have c6: "CaseCount (new_work (NCLNameCaseRu :: int lang)) = 6"
    by (simp add: eval_defs)
  have np: "namePart (a_word S MAN name_Ivanov_Petrov) = Some S"
    by (simp add: eval_defs)
  have g: "fst (word_gender (a_word S MAN name_Ivanov_Petrov)) = MAN"
    by (simp add: eval_defs)
  have sp: "js_split c_hyphen (word_orig (a_word S MAN name_Ivanov_Petrov)) = [name_Ivanov, name_Petrov]"
    by (simp add: eval_defs)
  have e1: "toLowerCase name_Ivanov \<notin> set exclusion"
    by (simp add: eval_defs)
  have npt: "namePart (a_word S MAN name_Toulouse_Lotrok) = Some S"
    by (simp add: eval_defs)
  have gt: "fst (word_gender (a_word S MAN name_Toulouse_Lotrok)) = MAN"
    by (simp add: eval_defs)
  have spt: "js_split c_hyphen (word_orig (a_word S MAN name_Toulouse_Lotrok)) = [name_Toulouse, name_Lotrok]"
    by (simp add: eval_defs)
  have et: "toLowerCase name_Toulouse \<in> set exclusion"
    by (simp add: eval_defs)
  have rs: "getConcreteClass (index_js says_surname core_heuristics :: int registry) ''ru''
       = Some (NCLNameCaseRu, says_surname)"
    by (simp add: index_js_def getConcreteClass_def setConcreteClasses_def)
  have rc: "getConcreteClass (index_js core_heuristics core_heuristics :: int registry) ''ru''
       = Some (NCLNameCaseRu, core_heuristics)"
    by (simp add: index_js_def getConcreteClass_def setConcreteClasses_def)
  have rn: "getConcreteClass (None :: int registry) ''ru'' = None"
    by (simp add: getConcreteClass_def)
  have ds: "detectNamePart (says_surname :: int heuristics)
         (setWorkingWord (strtolower name_Ivanov) (new_work (NCLNameCaseRu :: int lang))) = Some S"
    by (simp add: says_surname_def)
  have dc: "detectNamePart (core_heuristics :: int heuristics)
         (setWorkingWord (strtolower name_Ivanov) (new_work (NCLNameCaseRu :: int lang))) \<noteq> Some S"
    by (simp add: core_heuristics_def)
  have a1: "alone_forms (NCLNameCaseRu :: int lang) (new_work (NCLNameCaseRu :: int lang)) S MAN name_Petrov
       = Some forms_Petrov_ru"
    by (simp add: eval_defs)
  have at: "alone_forms (NCLNameCaseRu :: int lang) (new_work (NCLNameCaseRu :: int lang)) S MAN name_Lotrok
       = Some forms_Lotrok_ru"
    by (simp add: eval_defs)
  have ev1: "(case WordCase (NCLNameCaseUa :: int lang) (index_js says_surname core_heuristics :: int registry) (new_work (NCLNameCaseUa :: int lang))
          (a_word S MAN name_Ivanov_Petrov) of
             Inr (this1, w1) \<Rightarrow> NameCases w1 = map (\<lambda>j. js_join [c_hyphen] (map (\<lambda>f. f ! j) [forms_Ivanov_ua, forms_Petrov_ua])) [0..<7]
           | Inl err \<Rightarrow> False)"
    by (simp add: eval_defs)
  then obtain t1 w1 where r1: "WordCase (NCLNameCaseUa :: int lang) (index_js says_surname core_heuristics :: int registry) (new_work (NCLNameCaseUa :: int lang))
          (a_word S MAN name_Ivanov_Petrov) = Inr (t1, w1)"
    and v1: "NameCases w1 = map (\<lambda>j. js_join [c_hyphen] (map (\<lambda>f. f ! j) [forms_Ivanov_ua, forms_Petrov_ua])) [0..<7]"
    by (auto split: sum.splits)
  have h1: "((NCLNameCaseUa :: int lang) = NCLNameCaseRu \<and> CaseCount (new_work (NCLNameCaseUa :: int lang)) = 6
           \<or> (NCLNameCaseUa :: int lang) = NCLNameCaseUa \<and> CaseCount (new_work (NCLNameCaseUa :: int lang)) = 7)
          \<and> namePart (a_word S MAN name_Ivanov_Petrov) = Some S
          \<and> WordCase (NCLNameCaseUa :: int lang) (index_js says_surname core_heuristics :: int registry) (new_work (NCLNameCaseUa :: int lang))
          (a_word S MAN name_Ivanov_Petrov) = Inr (t1, w1)"
    using c7 np r1 by simp
  from hyphenated_surname_reclassified_by_ru
    [where L = "NCLNameCaseUa :: int lang" and this = "new_work (NCLNameCaseUa :: int lang)" and reg = "index_js says_surname core_heuristics :: int registry"
       and w = "a_word S MAN name_Ivanov_Petrov" and this' = t1 and w' = w1,
     THEN conjunct1, THEN mp, OF h1]
  obtain fs1 where
    len1: "length fs1 = length (js_split c_hyphen (word_orig (a_word S MAN name_Ivanov_Petrov)))"
    and nc1: "NameCases w1
          = map (\<lambda>j. js_join [c_hyphen] (map (\<lambda>f. f ! j) fs1))
              [0..<CaseCount (new_work (NCLNameCaseUa :: int lang))]"
    and each1: "\<forall>i<length fs1.
        (Suc i = length fs1
           \<longrightarrow> alone_forms (NCLNameCaseUa :: int lang) (new_work (NCLNameCaseUa :: int lang)) S (fst (word_gender (a_word S MAN name_Ivanov_Petrov)))
                 (js_split c_hyphen (word_orig (a_word S MAN name_Ivanov_Petrov)) ! i) = Some (fs1 ! i))
      \<and> (Suc i < length fs1
             \<and> toLowerCase (js_split c_hyphen (word_orig (a_word S MAN name_Ivanov_Petrov)) ! i) \<in> set exclusion
           \<longrightarrow> fs1 ! i
                 = replicate (CaseCount (new_work (NCLNameCaseUa :: int lang)))
                     (js_split c_hyphen (word_orig (a_word S MAN name_Ivanov_Petrov)) ! i))
      \<and> (Suc i < length fs1
             \<and> toLowerCase (js_split c_hyphen (word_orig (a_word S MAN name_Ivanov_Petrov)) ! i) \<notin> set exclusion
           \<longrightarrow> (\<exists>cls clsH.
                  getConcreteClass (index_js says_surname core_heuristics :: int registry) ''ru'' = Some (cls, clsH)
                  \<and> (if detectNamePart clsH
                           (setWorkingWord (strtolower (js_split c_hyphen (word_orig (a_word S MAN name_Ivanov_Petrov)) ! i))
                              (new_work cls)) = Some S
                      then alone_forms (NCLNameCaseUa :: int lang) (new_work (NCLNameCaseUa :: int lang)) S (fst (word_gender (a_word S MAN name_Ivanov_Petrov)))
                             (js_split c_hyphen (word_orig (a_word S MAN name_Ivanov_Petrov)) ! i) = Some (fs1 ! i)
                      else fs1 ! i
                             = replicate (CaseCount (new_work (NCLNameCaseUa :: int lang)))
                                 (js_split c_hyphen (word_orig (a_word S MAN name_Ivanov_Petrov)) ! i))))"
    by blast
  from len1 have l1: "length fs1 = 2"
    by (simp add: sp)
  then have two1: "fs1 = [fs1 ! 0, fs1 ! Suc 0]"
    by (cases fs1; cases "tl fs1") auto
  note first1 = each1[rule_format, of 0, unfolded l1 sp g c7 nth_Cons_0]
  note second1 = each1[rule_format, of "Suc 0", unfolded l1 sp g c7 nth_Cons_Suc nth_Cons_0]
  from second1 have f11: "alone_forms (NCLNameCaseUa :: int lang) (new_work (NCLNameCaseUa :: int lang)) S MAN name_Petrov = Some (fs1 ! Suc 0)"
    by simp
  from first1 e1 obtain cls clsH where
    "getConcreteClass (index_js says_surname core_heuristics :: int registry) ''ru'' = Some (cls, clsH)"
    "if detectNamePart clsH (setWorkingWord (strtolower name_Ivanov) (new_work cls)) = Some S
     then alone_forms (NCLNameCaseUa :: int lang) (new_work (NCLNameCaseUa :: int lang)) S MAN name_Ivanov = Some (fs1 ! 0)
     else fs1 ! 0 = replicate 7 name_Ivanov"
    by auto
  with rs ds have f10: "alone_forms (NCLNameCaseUa :: int lang) (new_work (NCLNameCaseUa :: int lang)) S MAN name_Ivanov = Some (fs1 ! 0)"
    by simp
  have j1: "NameCases w1
      = map (\<lambda>j. js_join [c_hyphen] (map (\<lambda>f. f ! j) [fs1 ! 0, fs1 ! Suc 0])) [0..<7]"
    using nc1 two1 by (simp only: c7)
  from f10 f11 j1 have x1: "\<exists>f0 f1.
                alone_forms (NCLNameCaseUa :: int lang) (new_work (NCLNameCaseUa :: int lang)) S MAN name_Ivanov = Some f0
                \<and> alone_forms (NCLNameCaseUa :: int lang) (new_work (NCLNameCaseUa :: int lang)) S MAN name_Petrov = Some f1
                \<and> NameCases w1
                    = map (\<lambda>j. js_join [c_hyphen] (map (\<lambda>f. f ! j) [f0, f1])) [0..<7]"
    by blast
  have ev2: "(case WordCase (NCLNameCaseRu :: int lang) (index_js core_heuristics core_heuristics :: int registry) (new_work (NCLNameCaseRu :: int lang))
          (a_word S MAN name_Ivanov_Petrov) of
             Inr (this1, w1) \<Rightarrow> True | Inl err \<Rightarrow> False)"
    by (simp add: eval_defs)
  then obtain t2 w2 where r2: "WordCase (NCLNameCaseRu :: int lang) (index_js core_heuristics core_heuristics :: int registry) (new_work (NCLNameCaseRu :: int lang))
          (a_word S MAN name_Ivanov_Petrov) = Inr (t2, w2)"
    by (auto split: sum.splits)
  have h2: "((NCLNameCaseRu :: int lang) = NCLNameCaseRu \<and> CaseCount (new_work (NCLNameCaseRu :: int lang)) = 6
           \<or> (NCLNameCaseRu :: int lang) = NCLNameCaseUa \<and> CaseCount (new_work (NCLNameCaseRu :: int lang)) = 7)
          \<and> namePart (a_word S MAN name_Ivanov_Petrov) = Some S
          \<and> WordCase (NCLNameCaseRu :: int lang) (index_js core_heuristics core_heuristics :: int registry) (new_work (NCLNameCaseRu :: int lang))
          (a_word S MAN name_Ivanov_Petrov) = Inr (t2, w2)"
    using c6 np r2 by simp
  from hyphenated_surname_reclassified_by_ru
    [where L = "NCLNameCaseRu :: int lang" and this = "new_work (NCLNameCaseRu :: int lang)" and reg = "index_js core_heuristics core_heuristics :: int registry"
       and w = "a_word S MAN name_Ivanov_Petrov" and this' = t2 and w' = w2,
     THEN conjunct1, THEN mp, OF h2]
  obtain fs2 where
    len2: "length fs2 = length (js_split c_hyphen (word_orig (a_word S MAN name_Ivanov_Petrov)))"
    and nc2: "NameCases w2
          = map (\<lambda>j. js_join [c_hyphen] (map (\<lambda>f. f ! j) fs2))
              [0..<CaseCount (new_work (NCLNameCaseRu :: int lang))]"
    and each2: "\<forall>i<length fs2.
        (Suc i = length fs2
           \<longrightarrow> alone_forms (NCLNameCaseRu :: int lang) (new_work (NCLNameCaseRu :: int lang)) S (fst (word_gender (a_word S MAN name_Ivanov_Petrov)))
                 (js_split c_hyphen (word_orig (a_word S MAN name_Ivanov_Petrov)) ! i) = Some (fs2 ! i))
      \<and> (Suc i < length fs2
             \<and> toLowerCase (js_split c_hyphen (word_orig (a_word S MAN name_Ivanov_Petrov)) ! i) \<in> set exclusion
           \<longrightarrow> fs2 ! i
                 = replicate (CaseCount (new_work (NCLNameCaseRu :: int lang)))
                     (js_split c_hyphen (word_orig (a_word S MAN name_Ivanov_Petrov)) ! i))
      \<and> (Suc i < length fs2
             \<and> toLowerCase (js_split c_hyphen (word_orig (a_word S MAN name_Ivanov_Petrov)) ! i) \<notin> set exclusion
           \<longrightarrow> (\<exists>cls clsH.
                  getConcreteClass (index_js core_heuristics core_heuristics :: int registry) ''ru'' = Some (cls, clsH)
                  \<and> (if detectNamePart clsH
                           (setWorkingWord (strtolower (js_split c_hyphen (word_orig (a_word S MAN name_Ivanov_Petrov)) ! i))
                              (new_work cls)) = Some S
                      then alone_forms (NCLNameCaseRu :: int lang) (new_work (NCLNameCaseRu :: int lang)) S (fst (word_gender (a_word S MAN name_Ivanov_Petrov)))
                             (js_split c_hyphen (word_orig (a_word S MAN name_Ivanov_Petrov)) ! i) = Some (fs2 ! i)
                      else fs2 ! i
                             = replicate (CaseCount (new_work (NCLNameCaseRu :: int lang)))
                                 (js_split c_hyphen (word_orig (a_word S MAN name_Ivanov_Petrov)) ! i))))"
    by blast
  from len2 have l2: "length fs2 = 2"
    by (simp add: sp)
  then have two2: "fs2 = [fs2 ! 0, fs2 ! Suc 0]"
    by (cases fs2; cases "tl fs2") auto
  note first2 = each2[rule_format, of 0, unfolded l2 sp g c6 nth_Cons_0]
  note second2 = each2[rule_format, of "Suc 0", unfolded l2 sp g c6 nth_Cons_Suc nth_Cons_0]
  from second2 a1 have f21: "fs2 ! Suc 0 = forms_Petrov_ru"
    by simp
  from first2 e1 obtain cls2 clsH2 where
    "getConcreteClass (index_js core_heuristics core_heuristics :: int registry) ''ru'' = Some (cls2, clsH2)"
    "if detectNamePart clsH2 (setWorkingWord (strtolower name_Ivanov) (new_work cls2)) = Some S
     then alone_forms (NCLNameCaseRu :: int lang) (new_work (NCLNameCaseRu :: int lang)) S MAN name_Ivanov = Some (fs2 ! 0)
     else fs2 ! 0 = replicate 6 name_Ivanov"
    by auto
  with rc dc have f20: "fs2 ! 0 = replicate 6 name_Ivanov"
    by simp
  have k2: "NameCases w2
      = map (\<lambda>j. js_join [c_hyphen] (map (\<lambda>f. f ! j) [replicate 6 name_Ivanov, forms_Petrov_ru])) [0..<6]"
    using nc2 two2 by (simp only: c6 f20 f21)
  have ev5: "(case WordCase (NCLNameCaseRu :: int lang) (None :: int registry) (new_work (NCLNameCaseRu :: int lang))
          (a_word S MAN name_Toulouse_Lotrok) of
             Inr (this1, w1) \<Rightarrow> True | Inl err \<Rightarrow> False)"
    using eval_Toulouse_ru by (auto split: sum.splits)
  then obtain t5 w5 where r5: "WordCase (NCLNameCaseRu :: int lang) (None :: int registry) (new_work (NCLNameCaseRu :: int lang))
          (a_word S MAN name_Toulouse_Lotrok) = Inr (t5, w5)"
    by (auto split: sum.splits)
  have h5: "((NCLNameCaseRu :: int lang) = NCLNameCaseRu \<and> CaseCount (new_work (NCLNameCaseRu :: int lang)) = 6
           \<or> (NCLNameCaseRu :: int lang) = NCLNameCaseUa \<and> CaseCount (new_work (NCLNameCaseRu :: int lang)) = 7)
          \<and> namePart (a_word S MAN name_Toulouse_Lotrok) = Some S
          \<and> WordCase (NCLNameCaseRu :: int lang) (None :: int registry) (new_work (NCLNameCaseRu :: int lang))
          (a_word S MAN name_Toulouse_Lotrok) = Inr (t5, w5)"
    using c6 npt r5 by simp
  from hyphenated_surname_reclassified_by_ru
    [where L = "NCLNameCaseRu :: int lang" and this = "new_work (NCLNameCaseRu :: int lang)" and reg = "None :: int registry"
       and w = "a_word S MAN name_Toulouse_Lotrok" and this' = t5 and w' = w5,
     THEN conjunct1, THEN mp, OF h5]
  obtain fs5 where
    len5: "length fs5 = length (js_split c_hyphen (word_orig (a_word S MAN name_Toulouse_Lotrok)))"
    and nc5: "NameCases w5
          = map (\<lambda>j. js_join [c_hyphen] (map (\<lambda>f. f ! j) fs5))
              [0..<CaseCount (new_work (NCLNameCaseRu :: int lang))]"
    and each5: "\<forall>i<length fs5.
        (Suc i = length fs5
           \<longrightarrow> alone_forms (NCLNameCaseRu :: int lang) (new_work (NCLNameCaseRu :: int lang)) S (fst (word_gender (a_word S MAN name_Toulouse_Lotrok)))
                 (js_split c_hyphen (word_orig (a_word S MAN name_Toulouse_Lotrok)) ! i) = Some (fs5 ! i))
      \<and> (Suc i < length fs5
             \<and> toLowerCase (js_split c_hyphen (word_orig (a_word S MAN name_Toulouse_Lotrok)) ! i) \<in> set exclusion
           \<longrightarrow> fs5 ! i
                 = replicate (CaseCount (new_work (NCLNameCaseRu :: int lang)))
                     (js_split c_hyphen (word_orig (a_word S MAN name_Toulouse_Lotrok)) ! i))
      \<and> (Suc i < length fs5
             \<and> toLowerCase (js_split c_hyphen (word_orig (a_word S MAN name_Toulouse_Lotrok)) ! i) \<notin> set exclusion
           \<longrightarrow> (\<exists>cls clsH.
                  getConcreteClass (None :: int registry) ''ru'' = Some (cls, clsH)
                  \<and> (if detectNamePart clsH
                           (setWorkingWord (strtolower (js_split c_hyphen (word_orig (a_word S MAN name_Toulouse_Lotrok)) ! i))
                              (new_work cls)) = Some S
                      then alone_forms (NCLNameCaseRu :: int lang) (new_work (NCLNameCaseRu :: int lang)) S (fst (word_gender (a_word S MAN name_Toulouse_Lotrok)))
                             (js_split c_hyphen (word_orig (a_word S MAN name_Toulouse_Lotrok)) ! i) = Some (fs5 ! i)
                      else fs5 ! i
                             = replicate (CaseCount (new_work (NCLNameCaseRu :: int lang)))
                                 (js_split c_hyphen (word_orig (a_word S MAN name_Toulouse_Lotrok)) ! i))))"
    by blast
  from len5 have l5: "length fs5 = 2"
    by (simp add: spt)
  then have two5: "fs5 = [fs5 ! 0, fs5 ! Suc 0]"
    by (cases fs5; cases "tl fs5") auto
  note first5 = each5[rule_format, of 0, unfolded l5 spt gt c6 nth_Cons_0]
  note second5 = each5[rule_format, of "Suc 0", unfolded l5 spt gt c6 nth_Cons_Suc nth_Cons_0]
  from second5 at have f51: "fs5 ! Suc 0 = forms_Lotrok_ru"
    by simp
  from first5 et have f50: "fs5 ! 0 = replicate 6 name_Toulouse"
    by simp
  have k5: "NameCases w5
      = map (\<lambda>j. js_join [c_hyphen] (map (\<lambda>f. f ! j) [replicate 6 name_Toulouse, forms_Lotrok_ru])) [0..<6]"
    using nc5 two5 by (simp only: c6 f50 f51)
  have b3: "\<exists>cur\<in>set (butlast (js_split c_hyphen (word_orig (a_word S MAN name_Ivanov_Petrov)))).
          toLowerCase cur \<notin> set exclusion"
    using e1 by (simp add: sp)
  note k3 = hyphenated_surname_reclassified_by_ru
    [where v = "a_word S MAN name_Ivanov_Petrov" and regv = "None :: int registry"
       and Lv = "NCLNameCaseUa :: int lang" and thisv = "new_work (NCLNameCaseUa :: int lang)",
     THEN conjunct2, THEN conjunct1, THEN mp, OF conjI, OF np conjI, OF rn b3]
  have b4: "namePart (a_word S MAN name_Toulouse_Lotrok) \<noteq> Some S
        \<or> (\<forall>cur\<in>set (butlast (js_split c_hyphen (word_orig (a_word S MAN name_Toulouse_Lotrok)))).
              toLowerCase cur \<in> set exclusion)"
    using et by (simp add: spt)
  note k4 = hyphenated_surname_reclassified_by_ru
    [where v = "a_word S MAN name_Toulouse_Lotrok" and regv = "None :: int registry"
       and regv' = "index_js says_surname core_heuristics :: int registry" and Lv = "NCLNameCaseRu :: int lang"
       and thisv = "new_work (NCLNameCaseRu :: int lang)",
     THEN conjunct2, THEN conjunct2, THEN mp, OF b4]
  from r1 v1 x1 have k1': "(case WordCase (NCLNameCaseUa :: int lang) (index_js says_surname core_heuristics :: int registry) (new_work (NCLNameCaseUa :: int lang))
          (a_word S MAN name_Ivanov_Petrov) of
        Inr (this1, w1) \<Rightarrow>
          NameCases w1
            = map (\<lambda>j. js_join [c_hyphen] (map (\<lambda>f. f ! j) [forms_Ivanov_ua, forms_Petrov_ua])) [0..<7]
          \<and> (\<exists>f0 f1.
                alone_forms (NCLNameCaseUa :: int lang) (new_work (NCLNameCaseUa :: int lang)) S MAN name_Ivanov = Some f0
                \<and> alone_forms (NCLNameCaseUa :: int lang) (new_work (NCLNameCaseUa :: int lang)) S MAN name_Petrov = Some f1
                \<and> NameCases w1
                    = map (\<lambda>j. js_join [c_hyphen] (map (\<lambda>f. f ! j) [f0, f1])) [0..<7])
      | Inl err \<Rightarrow> False)"
    by simp
  from r2 k2 have k2': "(case WordCase (NCLNameCaseRu :: int lang) (index_js core_heuristics core_heuristics :: int registry) (new_work (NCLNameCaseRu :: int lang))
          (a_word S MAN name_Ivanov_Petrov) of
        Inr (this1, w1) \<Rightarrow>
          NameCases w1
            = map (\<lambda>j. js_join [c_hyphen] (map (\<lambda>f. f ! j) [replicate 6 name_Ivanov, forms_Petrov_ru])) [0..<6]
      | Inl err \<Rightarrow> False)"
    by simp
  from r5 k5 have k5': "(case WordCase (NCLNameCaseRu :: int lang) (None :: int registry) (new_work (NCLNameCaseRu :: int lang))
          (a_word S MAN name_Toulouse_Lotrok) of
        Inr (this1, w1) \<Rightarrow>
          NameCases w1
            = map (\<lambda>j. js_join [c_hyphen] (map (\<lambda>f. f ! j) [replicate 6 name_Toulouse, forms_Lotrok_ru])) [0..<6]
      | Inl err \<Rightarrow> False)"
    by simp
  show ?thesis
    by (intro conjI c7 c6 np g sp e1 rs ds k1' rc dc a1 k2' rn k3 npt gt spt et at k4 k5')
qed


lemma prepareGender_same_CaseCount:
  "CaseCount t = CaseCount t' \<Longrightarrow> snd (prepareGender L H (t, w)) = snd (prepareGender L H (t', w))"
  using setWorkingWord_same_CaseCount[of t t' "getWord w"]
  by (simp add: prepareGender_def Let_def split: option.splits)

lemma solveGender_sum_totals:
  assumes "solveGender_sum L H t ws m f = (t', ws', m', f')"
  shows "ws' = map (\<lambda>w. snd (prepareGender L H (t, w))) ws
       \<and> m' = foldl (+) m (map genderMan ws') \<and> f' = foldl (+) f (map genderWoman ws')"
  using assms
proof (induction ws arbitrary: t t' ws' m f m' f')
  case Nil
  then show ?case by simp
next
  case (Cons w ws)
  obtain t1 w1 where a: "prepareGender L H (t, w) = (t1, w1)"
    by (cases "prepareGender L H (t, w)")
  obtain t2 ws1 m2 f2 where
    b: "solveGender_sum L H t1 ws (m + genderMan w1) (f + genderWoman w1) = (t2, ws1, m2, f2)"
    by (cases "solveGender_sum L H t1 ws (m + genderMan w1) (f + genderWoman w1)")
  from Cons.prems a b have r: "ws' = w1 # ws1" "m' = m2" "f' = f2"
    by (simp_all add: getGender_def)
  have c: "CaseCount t1 = CaseCount t" by (rule CaseCount_prepareGender[OF a])
  have "map (\<lambda>w. snd (prepareGender L H (t1, w))) ws = map (\<lambda>w. snd (prepareGender L H (t, w))) ws"
    by (rule map_cong[OF refl]) (rule prepareGender_same_CaseCount[OF c])
  with Cons.IH[OF b] r a show ?case by simp
qed

lemma solveGender_solved_None:
  "solveGender_solved ws = None \<longleftrightarrow> (\<forall>w\<in>set ws. \<not> isGenderSolved w)"
  by (induction ws) auto

lemma solveGender_solved_first:
  "\<forall>v\<in>set pre. \<not> isGenderSolved v \<Longrightarrow> isGenderSolved w \<Longrightarrow>
   solveGender_solved (pre @ w # post) = Some (genderSolved w)"
  by (induction pre) (auto simp: word_gender_def isGenderSolved_def)

lemma genderSolved_setTrueGender:
  "map genderSolved (map (setTrueGender g) ws) = replicate (length ws) g"
  by (induction ws) (simp_all add: setTrueGender_def)

text \<open>
  Claim C4.  \<^verbatim>\<open>solveGender\<close> on words none of which has a solved gender: every word is
  handed to \<^verbatim>\<open>prepareGender\<close> (the gender hook of the language class for the word's
  part), \<^verbatim>\<open>man\<close> is the sum of the words' masculine rates and \<^verbatim>\<open>woman\<close> the sum of their
  feminine rates, both added up from \<open>0\<close> in the order of the words, and every word gets
  the final gender \<^verbatim>\<open>NCL.MAN\<close> when \<open>woman < man\<close> and \<^verbatim>\<open>NCL.WOMAN\<close> otherwise, so also
  when the two totals are equal.  When some word has a solved gender, the gender of the
  first such word is given to every word, and no hook runs.
\<close>

theorem solveGender_sums_or_propagates:
  fixes this :: "('s::{zero,plus,ord}) NCLNameCaseCore"
  shows
    "((\<forall>w\<in>set (words this). \<not> isGenderSolved w)
        \<and> solveGender_sum L H (wk this) (words this) 0 0 = (this1, ws1, m, f)
      \<longrightarrow> ws1 = map (\<lambda>w. snd (prepareGender L H (wk this, w))) (words this)
          \<and> m = foldl (+) 0 (map genderMan ws1)
          \<and> f = foldl (+) 0 (map genderWoman ws1)
          \<and> words (solveGender L H this)
              = map (setTrueGender (if f < m then MAN else WOMAN)) ws1)
   \<and> (words this = pre @ w # post \<and> (\<forall>v\<in>set pre. \<not> isGenderSolved v) \<and> isGenderSolved w
      \<longrightarrow> solveGender L H this = setGender (genderSolved w) this
          \<and> words (solveGender L H this) = map (setTrueGender (genderSolved w)) (words this))"
proof (intro conjI impI)
  assume a: "(\<forall>w\<in>set (words this). \<not> isGenderSolved w)
        \<and> solveGender_sum L H (wk this) (words this) 0 0 = (this1, ws1, m, f)"
  then have n: "solveGender_solved (words this) = None"
    by (simp add: solveGender_solved_None)
  from a have s: "solveGender_sum L H (wk this) (words this) 0 0 = (this1, ws1, m, f)" by simp
  note t = solveGender_sum_totals[OF s]
  from t show "ws1 = map (\<lambda>w. snd (prepareGender L H (wk this, w))) (words this)" by simp
  from t show "m = foldl (+) 0 (map genderMan ws1)" by simp
  from t show "f = foldl (+) 0 (map genderWoman ws1)" by simp
  from n s show "words (solveGender L H this)
              = map (setTrueGender (if f < m then MAN else WOMAN)) ws1"
    by (simp add: solveGender_def setGender_def Let_def)
next
  assume a: "words this = pre @ w # post \<and> (\<forall>v\<in>set pre. \<not> isGenderSolved v) \<and> isGenderSolved w"
  then have n: "solveGender_solved (words this) = Some (genderSolved w)"
    using solveGender_solved_first[of pre w post] by simp
  then show "solveGender L H this = setGender (genderSolved w) this"
    by (simp add: solveGender_def)
  from n show "words (solveGender L H this) = map (setTrueGender (genderSolved w)) (words this)"
    by (simp add: solveGender_def setGender_def)
qed

theorem solveGender_sums_or_propagates_witness:
  "map isGenderSolved (words (ua_engine name_Shevchenko name_Taras name_Hryhorovych))
     = [False, False, False]
   \<and> snd (snd (solveGender_sum NCLNameCaseUa core_heuristics
         (wk (ua_engine name_Shevchenko name_Taras name_Hryhorovych))
         (words (ua_engine name_Shevchenko name_Taras name_Hryhorovych)) 0 0)) = (10, 0)
   \<and> map genderSolved (words (solveGender NCLNameCaseUa core_heuristics
         (ua_engine name_Shevchenko name_Taras name_Hryhorovych))) = [MAN, MAN, MAN]
   \<and> map isGenderSolved (words (ru_engine_open name_Taras)) = [False]
   \<and> snd (snd (solveGender_sum NCLNameCaseRu core_heuristics
         (wk (ru_engine_open name_Taras)) (words (ru_engine_open name_Taras)) 0 0)) = (0, 0)
   \<and> map genderSolved (words (solveGender NCLNameCaseRu core_heuristics
         (ru_engine_open name_Taras))) = [WOMAN]
   \<and> words (setSecondName name_Shevchenko (ru_engine name_Taras))
       = [] @ a_word N MAN name_Taras # [setNamePart S (new_NCLNameCaseWord name_Shevchenko)]
   \<and> isGenderSolved (a_word N MAN name_Taras)
   \<and> genderSolved (a_word N MAN name_Taras) = MAN
   \<and> map isGenderSolved (words (setSecondName name_Shevchenko (ru_engine name_Taras)))
       = [True, False]
   \<and> map genderSolved (words (solveGender NCLNameCaseRu core_heuristics
         (setSecondName name_Shevchenko (ru_engine name_Taras)))) = [MAN, MAN]"
proof -
  let ?ua = "ua_engine name_Shevchenko name_Taras name_Hryhorovych"
  let ?ru = "ru_engine_open name_Taras"
  let ?e = "setSecondName name_Shevchenko (ru_engine name_Taras)"
  have u1: "map isGenderSolved (words ?ua) = [False, False, False]"
    by (simp add: eval_defs)
  have l1: "length (words ?ua) = 3"
    by (simp add: eval_defs)
  obtain t1 ws1 where s1: "solveGender_sum NCLNameCaseUa core_heuristics (wk ?ua) (words ?ua) 0 0
      = (t1, ws1, 10, 0)"
    by (simp add: eval_defs)
  have a1: "\<forall>w\<in>set (words ?ua). \<not> isGenderSolved w"
    using u1 by (simp add: eval_defs)
  note i1 = solveGender_sums_or_propagates
    [where this = ?ua and L = NCLNameCaseUa and H = core_heuristics, THEN conjunct1, THEN mp,
     OF conjI, OF a1 s1]
  from i1[THEN conjunct2, THEN conjunct2, THEN conjunct2]
  have w1: "words (solveGender NCLNameCaseUa core_heuristics ?ua) = map (setTrueGender MAN) ws1"
    by simp
  from i1[THEN conjunct1] l1 have n1: "length ws1 = 3"
    by simp
  have g1: "map genderSolved (words (solveGender NCLNameCaseUa core_heuristics ?ua))
      = [MAN, MAN, MAN]"
    unfolding w1 genderSolved_setTrueGender n1 by (simp add: replicate_numeral)
  have u2: "map isGenderSolved (words ?ru) = [False]"
    by (simp add: eval_defs)
  have l2: "length (words ?ru) = 1"
    by (simp add: eval_defs)
  obtain t2 ws2 where s2: "solveGender_sum NCLNameCaseRu core_heuristics (wk ?ru) (words ?ru) 0 0
      = (t2, ws2, 0, 0)"
    by (simp add: eval_defs)
  have a2: "\<forall>w\<in>set (words ?ru). \<not> isGenderSolved w"
    using u2 by (simp add: eval_defs)
  note i2 = solveGender_sums_or_propagates
    [where this = ?ru and L = NCLNameCaseRu and H = core_heuristics, THEN conjunct1, THEN mp,
     OF conjI, OF a2 s2]
  from i2[THEN conjunct2, THEN conjunct2, THEN conjunct2]
  have w2: "words (solveGender NCLNameCaseRu core_heuristics ?ru) = map (setTrueGender WOMAN) ws2"
    by simp
  from i2[THEN conjunct1] l2 have n2: "length ws2 = 1"
    by simp
  have g2: "map genderSolved (words (solveGender NCLNameCaseRu core_heuristics ?ru))
      = [WOMAN]"
    unfolding w2 genderSolved_setTrueGender n2 by simp
  have w3: "words ?e
       = [] @ a_word N MAN name_Taras # [setNamePart S (new_NCLNameCaseWord name_Shevchenko)]"
    by (simp add: eval_defs)
  have p3: "\<forall>v\<in>set []. \<not> isGenderSolved (v :: int NCLNameCaseWord)"
    by simp
  have s3: "isGenderSolved (a_word N MAN name_Taras)"
    and m3: "genderSolved (a_word N MAN name_Taras) = MAN"
    by (simp_all add: eval_defs)
  have u3: "map isGenderSolved (words ?e) = [True, False]"
    by (simp add: eval_defs)
  have l3: "length (words ?e) = 2"
    by (simp add: eval_defs)
  note i3 = solveGender_sums_or_propagates
    [where this = ?e and L = NCLNameCaseRu and H = core_heuristics, THEN conjunct2, THEN mp,
     OF conjI, OF w3 conjI, OF p3 s3]
  have g3: "map genderSolved (words (solveGender NCLNameCaseRu core_heuristics ?e))
      = [MAN, MAN]"
    unfolding i3[THEN conjunct2] genderSolved_setTrueGender l3 m3
    by (simp add: replicate_numeral)
  from s1 s2 show ?thesis
    by (intro conjI u1 g1 u2 g2 w3 s3 m3 u3 g3) simp_all
qed

end
